(* ===== verification/Prelude.thy ===== *)
theory Prelude
  imports Main "HOL-Library.Word" "HOL-Library.State_Monad"
begin

text \<open>
  What every component theory shares: the names of the model's basic types, the state
  monad combinators in which the Go functions are written, the loop with early return,
  and a contract (\<open>frame_rel\<close>) for relations between the state before and the
  state after an operation, from which frame and invariant proofs are assembled.

  Go strings are byte strings, so \<open>string\<close> (a list of 8-bit characters) is used for
  \<open>string\<close> and for \<open>[]byte\<close>. Go's \<open>int\<close> and \<open>int64\<close> are 64-bit two's complement
  words, read with \<open>sint\<close>. An \<open>error\<close> is its text.
\<close>

type_synonym bytes = string
type_synonym uuid = string
type_synonym go_int = "64 word"
type_synonym go_error = string

named_theorems frames \<comment> \<open>introduction rules for frame and invariant proofs\<close>

section \<open>State combinators\<close>

definition gets :: "('s \<Rightarrow> 'a) \<Rightarrow> ('s, 'a) state" where
  "gets f = State (\<lambda>s. (f s, s))"

definition modify :: "('s \<Rightarrow> 's) \<Rightarrow> ('s, unit) state" where
  "modify f = State (\<lambda>s. ((), f s))"

abbreviation ret :: "'a \<Rightarrow> ('s, 'a) state" where
  "ret \<equiv> State_Monad.return"

definition ignore :: "('s, 'a) state \<Rightarrow> ('s, unit) state" where
  "ignore m = do { _ \<leftarrow> m; ret () }"

lemma run_gets [simp]: "run_state (gets f) s = (f s, s)"
  by (simp add: gets_def)

lemma run_modify [simp]: "run_state (modify f) s = ((), f s)"
  by (simp add: modify_def)

lemma run_ignore [simp]: "run_state (ignore m) s = ((), snd (run_state m s))"
  by (simp add: ignore_def split: prod.splits)

text \<open>
  The \<open>for\<close> loop whose body may return from the enclosing function: the body yields
  \<open>Inl\<close> to leave the loop and \<open>Inr\<close> of the element it appends to the result.
\<close>

fun for_err :: "('a \<Rightarrow> ('s, 'e + 'b) state) \<Rightarrow> 'a list \<Rightarrow> ('s, 'e + 'b list) state" where
  "for_err f [] = ret (Inr [])"
| "for_err f (x # xs) = do {
     r \<leftarrow> f x;
     case r of
       Inl e \<Rightarrow> ret (Inl e)
     | Inr y \<Rightarrow> do {
         rs \<leftarrow> for_err f xs;
         ret (case rs of Inl e \<Rightarrow> Inl e | Inr ys \<Rightarrow> Inr (y # ys)) } }"

text \<open>A plain loop over a list, the body run for its effect on each element.\<close>

fun for_each :: "('a \<Rightarrow> ('s, 'b) state) \<Rightarrow> 'a list \<Rightarrow> ('s, 'b list) state" where
  "for_each f [] = ret []"
| "for_each f (x # xs) = do { y \<leftarrow> f x; ys \<leftarrow> for_each f xs; ret (y # ys) }"

lemma for_err_length:
  "run_state (for_err f xs) s = (Inr ys, s') \<Longrightarrow> length ys = length xs"
  by (induction xs arbitrary: s ys s') (fastforce split: prod.splits sum.splits)+

lemma for_each_length:
  "length (fst (run_state (for_each f xs) s)) = length xs"
  by (induction xs arbitrary: s) (auto split: prod.splits, metis fst_conv)

text \<open>
  What every successful body yields, under an invariant that it keeps, the whole loop yields
  elementwise.
\<close>

lemma for_err_all2:
  assumes "\<And>x y s s'. I s \<Longrightarrow> run_state (f x) s = (Inr y, s') \<Longrightarrow> P x y \<and> I s'"
  shows "I s \<Longrightarrow> run_state (for_err f xs) s = (Inr ys, s') \<Longrightarrow> list_all2 P xs ys"
proof (induction xs arbitrary: s ys s')
  case Nil
  then show ?case by simp
next
  case (Cons x xs)
  then show ?case
    by (fastforce split: prod.splits sum.splits dest: assms)
qed

lemma for_err_total:
  assumes "\<And>x s. x \<in> set xs \<Longrightarrow> I s \<Longrightarrow> \<exists>y s'. run_state (f x) s = (Inr y, s') \<and> I s'"
  shows "I s \<Longrightarrow> \<exists>ys s'. run_state (for_err f xs) s = (Inr ys, s') \<and> I s'"
  using assms
proof (induction xs arbitrary: s)
  case Nil
  then show ?case by simp
next
  case (Cons x xs)
  then obtain y s1 where x: "run_state (f x) s = (Inr y, s1)" "I s1" by fastforce
  with Cons obtain ys s2 where "run_state (for_err f xs) s1 = (Inr ys, s2)" "I s2" by fastforce
  with x show ?case by simp
qed

section \<open>Frames\<close>

text \<open>
  A frame is a reflexive and transitive relation between states. An operation respects
  it when its first and last state are related, and every combinator of the monad
  preserves that: the introduction rules below reduce the frame of a handler to the
  frames of the primitives it calls.
\<close>

definition within :: "('s \<Rightarrow> 's \<Rightarrow> bool) \<Rightarrow> ('s, 'a) state \<Rightarrow> bool" where
  "within R m \<longleftrightarrow> (\<forall>s. R s (snd (run_state m s)))"

lemma withinI [intro?]: "(\<And>s. R s (snd (run_state m s))) \<Longrightarrow> within R m"
  by (simp add: within_def)

lemma withinD: "within R m \<Longrightarrow> run_state m s = (x, s') \<Longrightarrow> R s s'"
  by (metis snd_conv within_def)

lemma within_snd: "within R m \<Longrightarrow> R s (snd (run_state m s))"
  by (simp add: within_def)

locale frame_rel =
  fixes R :: "'s \<Rightarrow> 's \<Rightarrow> bool"
  assumes refl: "R s s"
    and trans: "R s t \<Longrightarrow> R t u \<Longrightarrow> R s u"
begin

lemma ret_within: "within R (ret x)"
  by (simp add: within_def refl)

lemma gets_within: "within R (gets f)"
  by (simp add: within_def refl)

lemma bind_within:
  assumes "within R m" and "\<And>x. within R (f x)"
  shows "within R (State_Monad.bind m f)"
proof
  fix s
  obtain x s' where m: "run_state m s = (x, s')" by fastforce
  have "R s s'" using assms(1) m by (rule withinD)
  moreover have "R s' (snd (run_state (f x) s'))" using assms(2) by (rule within_snd)
  ultimately show "R s (snd (run_state (State_Monad.bind m f) s))"
    using m by (auto intro: trans)
qed

lemma ignore_within: "within R m \<Longrightarrow> within R (ignore m)"
  by (simp add: within_def)

lemma if_within: "within R m \<Longrightarrow> within R n \<Longrightarrow> within R (if b then m else n)"
  by simp

lemma sum_within:
  "(\<And>e. within R (f e)) \<Longrightarrow> (\<And>x. within R (g x)) \<Longrightarrow>
   within R (case r of Inl e \<Rightarrow> f e | Inr x \<Rightarrow> g x)"
  by (cases r) auto

lemma option_within:
  "within R m \<Longrightarrow> (\<And>x. within R (g x)) \<Longrightarrow>
   within R (case r of None \<Rightarrow> m | Some x \<Rightarrow> g x)"
  by (cases r) auto

lemma prod_within:
  "(\<And>x y. within R (f x y)) \<Longrightarrow> within R (case r of (x, y) \<Rightarrow> f x y)"
  by (cases r) auto

lemma let_within: "(\<And>x. within R (f x)) \<Longrightarrow> within R (let x = y in f x)"
  by simp

lemma for_err_within: "(\<And>x. within R (f x)) \<Longrightarrow> within R (for_err f xs)"
  by (induction xs)
     (auto intro!: ret_within bind_within sum_within)

lemma for_each_within: "(\<And>x. within R (f x)) \<Longrightarrow> within R (for_each f xs)"
  by (induction xs) (auto intro!: ret_within bind_within)

lemmas rules = ret_within gets_within bind_within ignore_within if_within sum_within
  option_within prod_within let_within for_err_within for_each_within

end

text \<open>An invariant is the frame "it holds afterwards if it held before".\<close>

definition kept :: "('s \<Rightarrow> bool) \<Rightarrow> 's \<Rightarrow> 's \<Rightarrow> bool" where
  "kept I s s' \<longleftrightarrow> (I s \<longrightarrow> I s')"

interpretation kept: frame_rel "kept I" for I
  by unfold_locales (auto simp: kept_def)

text \<open>A component of the state that is not written is the frame "it is the same".\<close>

definition same :: "('s \<Rightarrow> 'a) \<Rightarrow> 's \<Rightarrow> 's \<Rightarrow> bool" where
  "same f s s' \<longleftrightarrow> f s' = f s"

interpretation same: frame_rel "same f" for f
  by unfold_locales (auto simp: same_def)

lemma within_kept: "within (kept I) m \<Longrightarrow> I s \<Longrightarrow> run_state m s = (x, s') \<Longrightarrow> I s'"
  by (auto simp: kept_def dest!: withinD)

lemma within_same: "within (same f) m \<Longrightarrow> run_state m s = (x, s') \<Longrightarrow> f s' = f s"
  by (auto simp: same_def dest!: withinD)

section \<open>Lists\<close>

lemma filter_unique:
  "distinct (map k xs) \<Longrightarrow> r \<in> set xs \<Longrightarrow> filter (\<lambda>x. k x = k r) xs = [r]"
  by (induction xs) (auto simp: filter_empty_conv image_iff)

lemma map_update_keys [simp]:
  "(\<And>x. k (f x) = k x) \<Longrightarrow> map k (map (\<lambda>r. if P r then f r else r) xs) = map k xs"
  by simp

lemma drop_length_append [simp]: "drop (length xs) (xs @ ys) = ys"
  by simp

end
