(* ===== verification/Tables.thy ===== *)
theory Tables
  imports Prelude "HOL-Library.List_Lexorder" "HOL-Library.Char_ord"
begin

text \<open>
  Database tables as lists of rows in insertion order, with the statements the program
  issues: \<open>INSERT\<close> of a row whose unique columns are not taken, \<open>SELECT ... LIMIT 1\<close>
  ordered by primary key (GORM's \<open>First\<close>), \<open>UPDATE ... WHERE\<close>, \<open>DELETE ... WHERE\<close>.
  The contract \<open>row_store\<close> says what a lookup by key returns after each of them; it is
  interpreted for the tables of the model where they are declared.
\<close>

definition t_insert :: "'r \<Rightarrow> 'r list \<Rightarrow> 'r list" where
  "t_insert r t = t @ [r]"

definition t_update :: "('r \<Rightarrow> bool) \<Rightarrow> ('r \<Rightarrow> 'r) \<Rightarrow> 'r list \<Rightarrow> 'r list" where
  "t_update P f t = map (\<lambda>r. if P r then f r else r) t"

definition t_delete :: "('r \<Rightarrow> bool) \<Rightarrow> 'r list \<Rightarrow> 'r list" where
  "t_delete P t = filter (\<lambda>r. \<not> P r) t"

definition t_count :: "('r \<Rightarrow> bool) \<Rightarrow> 'r list \<Rightarrow> nat" where
  "t_count P t = length (filter P t)"

definition t_first :: "('r \<Rightarrow> uuid) \<Rightarrow> ('r \<Rightarrow> bool) \<Rightarrow> 'r list \<Rightarrow> 'r option" where
  "t_first pk P t =
     (case filter P t of
        [] \<Rightarrow> None
      | r # rs \<Rightarrow> Some (foldl (\<lambda>a b. if pk b < pk a then b else a) r rs))"

definition t_find :: "('r \<Rightarrow> 'k) \<Rightarrow> 'k \<Rightarrow> 'r list \<Rightarrow> 'r option" where
  "t_find key k t = find (\<lambda>r. key r = k) t"

definition t_save :: "('r \<Rightarrow> 'k) \<Rightarrow> 'r \<Rightarrow> 'r list \<Rightarrow> 'r list" where
  "t_save key r t =
     (if t_find key (key r) t = None then t_insert r t
      else t_update (\<lambda>x. key x = key r) (\<lambda>_. r) t)"

definition t_keys_unique :: "('r \<Rightarrow> 'k) \<Rightarrow> 'r list \<Rightarrow> bool" where
  "t_keys_unique key t \<longleftrightarrow> distinct (map key t)"

lemma foldl_pick: "foldl (\<lambda>a b. if pk b < pk a then b else a) r rs \<in> set (r # rs)"
  by (induction rs arbitrary: r) auto

lemma t_first_Some: "t_first pk P t = Some r \<Longrightarrow> r \<in> set t \<and> P r"
proof -
  assume "t_first pk P t = Some r"
  then obtain x xs where f: "filter P t = x # xs"
    and r: "r = foldl (\<lambda>a b. if pk b < pk a then b else a) x xs"
    by (auto simp: t_first_def split: list.splits)
  have "r \<in> set (x # xs)" unfolding r by (rule foldl_pick)
  then have "r \<in> set (filter P t)" by (simp only: f)
  then show ?thesis by simp
qed

lemma t_first_None: "t_first pk P t = None \<longleftrightarrow> (\<forall>r\<in>set t. \<not> P r)"
proof -
  have "t_first pk P t = None \<longleftrightarrow> filter P t = []"
    by (simp add: t_first_def split: list.splits)
  then show ?thesis by (simp add: filter_empty_conv)
qed

lemma t_first_single: "filter P t = [r] \<Longrightarrow> t_first pk P t = Some r"
  by (simp add: t_first_def)

text \<open>When the condition is equality of a unique column, \<open>First\<close> is the lookup by it.\<close>

lemma t_first_unique:
  assumes "t_keys_unique key t"
  shows "t_first pk (\<lambda>r. key r = k) t = t_find key k t"
proof (cases "t_find key k t")
  case None
  then have "t_first pk (\<lambda>r. key r = k) t = None"
    by (auto simp: t_find_def find_None_iff t_first_None)
  with None show ?thesis by simp
next
  case (Some r)
  then have "r \<in> set t" "key r = k" by (auto simp: t_find_def find_Some_iff)
  then have "filter (\<lambda>x. key x = k) t = [r]"
    using filter_unique [of key t r] assms by (auto simp: t_keys_unique_def)
  with Some show ?thesis by (simp add: t_first_single)
qed

lemma t_find_Some: "t_find key k t = Some r \<Longrightarrow> r \<in> set t \<and> key r = k"
  by (auto simp: t_find_def find_Some_iff)

lemma t_find_mem:
  "t_keys_unique key t \<Longrightarrow> r \<in> set t \<Longrightarrow> t_find key (key r) t = Some r"
  by (induction t) (auto simp: t_find_def t_keys_unique_def image_iff)

lemma t_find_None: "t_find key k t = None \<longleftrightarrow> k \<notin> key ` set t"
  by (auto simp: t_find_def find_None_iff)

lemma t_insert_unique:
  "t_keys_unique key (t_insert r t) \<longleftrightarrow> t_keys_unique key t \<and> key r \<notin> key ` set t"
  by (auto simp: t_keys_unique_def t_insert_def)

lemma t_update_unique:
  "(\<And>r. key (f r) = key r) \<Longrightarrow> t_keys_unique key (t_update P f t) = t_keys_unique key t"
  by (simp add: t_keys_unique_def t_update_def comp_def if_distrib [of key] cong: if_cong)

lemma t_delete_unique: "t_keys_unique key t \<Longrightarrow> t_keys_unique key (t_delete P t)"
  by (simp add: t_keys_unique_def t_delete_def distinct_map_filter)

lemma t_find_insert:
  "t_find key k (t_insert r t)
     = (case t_find key k t of None \<Rightarrow> if key r = k then Some r else None | Some x \<Rightarrow> Some x)"
  by (induction t) (auto simp: t_find_def t_insert_def)

lemma t_find_update:
  "(\<And>r. key (f r) = key r) \<Longrightarrow>
   t_find key k (t_update P f t) = map_option (\<lambda>r. if P r then f r else r) (t_find key k t)"
  by (induction t) (auto simp: t_find_def t_update_def)

lemma t_find_delete:
  "t_find key k (t_delete (\<lambda>r. key r = k') t) = (if k = k' then None else t_find key k t)"
  by (induction t) (auto simp: t_find_def t_delete_def)

lemma t_find_replace:
  "t_find key k (t_update (\<lambda>x. key x = key r) (\<lambda>_. r) t)
     = (if k = key r then map_option (\<lambda>_. r) (t_find key k t) else t_find key k t)"
  by (induction t) (auto simp: t_find_def t_update_def)

lemma t_find_save:
  "t_find key k (t_save key r t) = (if k = key r then Some r else t_find key k t)"
  by (auto simp: t_save_def t_find_replace t_find_insert split: option.splits)

lemma t_count_0: "t_count P t = 0 \<longleftrightarrow> (\<forall>r\<in>set t. \<not> P r)"
  by (auto simp: t_count_def filter_empty_conv)

lemma t_count_find: "t_count (\<lambda>r. key r = k) t = 0 \<longleftrightarrow> t_find key k t = None"
  by (auto simp: t_count_0 t_find_None)

lemma t_update_none: "\<forall>r\<in>set t. \<not> P r \<Longrightarrow> t_update P f t = t"
  by (simp add: t_update_def map_idI)

section \<open>The contract of a table\<close>

text \<open>
  A table keyed by \<open>key\<close>: what the lookup by key returns after an insertion of a new key
  and after an update of the rows with a given key.
\<close>

locale row_store =
  fixes key :: "'r \<Rightarrow> 'k"
    and find_row :: "'k \<Rightarrow> 't \<Rightarrow> 'r option"
    and add_row :: "'r \<Rightarrow> 't \<Rightarrow> 't"
    and update_row :: "'k \<Rightarrow> ('r \<Rightarrow> 'r) \<Rightarrow> 't \<Rightarrow> 't"
  assumes find_add:
      "find_row (key r) t = None \<Longrightarrow>
       find_row k (add_row r t) = (if k = key r then Some r else find_row k t)"
    and find_update:
      "(\<And>r. key (f r) = key r) \<Longrightarrow>
       find_row k (update_row k' f t) = (if k = k' then map_option f (find_row k t) else find_row k t)"
    and find_key: "find_row k t = Some r \<Longrightarrow> key r = k"
begin

lemma find_added: "find_row (key r) t = None \<Longrightarrow> find_row (key r) (add_row r t) = Some r"
  by (simp add: find_add)

lemma update_added:
  "find_row (key r) t = None \<Longrightarrow> (\<And>r. key (f r) = key r) \<Longrightarrow>
   find_row (key r) (update_row (key r) f (add_row r t)) = Some (f r)"
  by (simp add: find_update find_add)

lemma find_other:
  "k \<noteq> key r \<Longrightarrow> find_row (key r) t = None \<Longrightarrow> find_row k (add_row r t) = find_row k t"
  by (simp add: find_add)

lemma update_missing:
  "(\<And>r. key (f r) = key r) \<Longrightarrow> find_row k' t = None \<Longrightarrow>
   find_row k (update_row k' f t) = find_row k t"
  by (simp add: find_update)

lemma update_twice:
  "(\<And>r. key (f r) = key r) \<Longrightarrow> (\<And>r. key (g r) = key r) \<Longrightarrow>
   find_row k (update_row k g (update_row k f t)) = map_option (\<lambda>r. g (f r)) (find_row k t)"
  by (simp add: find_update option.map_comp comp_def)

end

lemma row_store_list:
  "row_store key (t_find key) t_insert (\<lambda>k. t_update (\<lambda>r. key r = k))"
proof
  fix r t k
  assume "t_find key (key r) t = None"
  then show "t_find key k (t_insert r t) = (if k = key r then Some r else t_find key k t)"
    by (auto simp: t_find_insert split: option.splits)
next
  fix f k k' t
  assume "\<And>r. key (f r) = key r"
  then have u: "t_find key k (t_update (\<lambda>r. key r = k') f t)
      = map_option (\<lambda>r. if key r = k' then f r else r) (t_find key k t)"
    by (rule t_find_update)
  show "t_find key k (t_update (\<lambda>r. key r = k') f t)
      = (if k = k' then map_option f (t_find key k t) else t_find key k t)"
  proof (cases "t_find key k t")
    case None
    then show ?thesis by (auto simp: u)
  next
    case (Some r)
    then have "key r = k" using t_find_Some by fast
    with Some show ?thesis unfolding u by auto
  qed
next
  fix k t r
  assume "t_find key k t = Some r"
  then show "key r = k" by (rule t_find_Some [THEN conjunct2])
qed

end
