(* ===== verification/GoStrings.thy ===== *)
theory GoStrings
  imports Prelude
begin

text \<open>
  The functions of Go's \<open>strings\<close>, \<open>strconv\<close> and \<open>unicode/utf8\<close> packages that the
  program calls, on byte strings. \<open>ToLower\<close> takes the byte-wise path of the library for
  ASCII strings; for the others the library maps every rune through the Unicode tables,
  which is the parameter \<open>L\<close>.
\<close>

section \<open>Prefixes, suffixes, trimming\<close>

definition HasPrefix :: "string \<Rightarrow> string \<Rightarrow> bool" where
  "HasPrefix s p \<longleftrightarrow> length p \<le> length s \<and> take (length p) s = p"

definition HasSuffix :: "string \<Rightarrow> string \<Rightarrow> bool" where
  "HasSuffix s p \<longleftrightarrow> length p \<le> length s \<and> drop (length s - length p) s = p"

definition TrimPrefix :: "string \<Rightarrow> string \<Rightarrow> string" where
  "TrimPrefix s p = (if HasPrefix s p then drop (length p) s else s)"

definition TrimSuffix :: "string \<Rightarrow> string \<Rightarrow> string" where
  "TrimSuffix s p = (if HasSuffix s p then take (length s - length p) s else s)"

fun Contains :: "string \<Rightarrow> string \<Rightarrow> bool" where
  "Contains [] p = HasPrefix [] p"
| "Contains (c # s) p = (HasPrefix (c # s) p \<or> Contains s p)"

text \<open>\<open>strings.Trim\<close> with a cutset of one ASCII character.\<close>

definition trim_char :: "char \<Rightarrow> string \<Rightarrow> string" where
  "trim_char c s = rev (dropWhile (\<lambda>x. x = c) (rev (dropWhile (\<lambda>x. x = c) s)))"

lemma HasPrefix_append [simp]: "HasPrefix (p @ s) p"
  by (simp add: HasPrefix_def)

lemma HasSuffix_append [simp]: "HasSuffix (s @ p) p"
  by (simp add: HasSuffix_def)

lemma HasPrefix_iff: "HasPrefix s p \<longleftrightarrow> (\<exists>t. s = p @ t)"
  by (auto simp: HasPrefix_def) (metis append_take_drop_id)

lemma HasSuffix_iff: "HasSuffix s p \<longleftrightarrow> (\<exists>t. s = t @ p)"
  by (auto simp: HasSuffix_def) (metis append_take_drop_id)

lemma HasSuffix_Nil [simp]: "HasSuffix s []"
  by (simp add: HasSuffix_def)

lemma Contains_iff: "Contains s p \<longleftrightarrow> (\<exists>u t. s = u @ p @ t)"
proof (induction s)
  case Nil
  then show ?case by (simp add: HasPrefix_iff)
next
  case (Cons c s)
  have "(\<exists>u t. c # s = u @ p @ t) \<longleftrightarrow> (\<exists>t. c # s = p @ t) \<or> (\<exists>u t. s = u @ p @ t)"
    by (metis append_Cons append_Nil list.exhaust list.inject)
  with Cons show ?case by (simp add: HasPrefix_iff)
qed

section \<open>Lower case\<close>

definition ascii_lower :: "char \<Rightarrow> char" where
  "ascii_lower c = (if 65 \<le> (of_char c :: nat) \<and> (of_char c :: nat) \<le> 90
                    then char_of ((of_char c :: nat) + 32) else c)"

definition is_ascii :: "string \<Rightarrow> bool" where
  "is_ascii s \<longleftrightarrow> list_all (\<lambda>c. (of_char c :: nat) < 128) s"

definition ToLower :: "(string \<Rightarrow> string) \<Rightarrow> string \<Rightarrow> string" where
  "ToLower L s = (if is_ascii s then map ascii_lower s else L s)"

lemma of_char_ascii_lower:
  "(of_char (ascii_lower c) :: nat) =
     (if 65 \<le> (of_char c :: nat) \<and> (of_char c :: nat) \<le> 90 then of_char c + 32 else of_char c)"
  by (simp add: ascii_lower_def)

lemma ascii_lower_idem [simp]: "ascii_lower (ascii_lower c) = ascii_lower c"
proof -
  have "\<not> (65 \<le> (of_char (ascii_lower c) :: nat) \<and> (of_char (ascii_lower c) :: nat) \<le> 90)"
    by (simp add: of_char_ascii_lower)
  then show ?thesis by (auto simp: ascii_lower_def [of "ascii_lower c"])
qed

lemma is_ascii_append [simp]: "is_ascii (s @ t) \<longleftrightarrow> is_ascii s \<and> is_ascii t"
  by (simp add: is_ascii_def)

lemma is_ascii_lower [simp]: "is_ascii (map ascii_lower s) \<longleftrightarrow> is_ascii s"
proof -
  have "((of_char (ascii_lower c) :: nat) < 128) = ((of_char c :: nat) < 128)" for c
    by (auto simp: of_char_ascii_lower)
  then show ?thesis by (simp add: is_ascii_def list_all_length)
qed

lemma ToLower_ascii [simp]: "is_ascii s \<Longrightarrow> ToLower L s = map ascii_lower s"
  by (simp add: ToLower_def)

lemma ToLower_idem: "is_ascii s \<Longrightarrow> ToLower L (ToLower L s) = ToLower L s"
  by (simp add: comp_def)

section \<open>White space\<close>

text \<open>The UTF-8 encodings of the characters for which \<open>unicode.IsSpace\<close> holds.\<close>

definition space_encodings :: "string list" where
  "space_encodings =
     [[CHR 0x09], [CHR 0x0A], [CHR 0x0B], [CHR 0x0C], [CHR 0x0D], [CHR 0x20],
      [CHR 0xC2, CHR 0x85], [CHR 0xC2, CHR 0xA0], [CHR 0xE1, CHR 0x9A, CHR 0x80],
      [CHR 0xE2, CHR 0x80, CHR 0x80], [CHR 0xE2, CHR 0x80, CHR 0x81],
      [CHR 0xE2, CHR 0x80, CHR 0x82], [CHR 0xE2, CHR 0x80, CHR 0x83],
      [CHR 0xE2, CHR 0x80, CHR 0x84], [CHR 0xE2, CHR 0x80, CHR 0x85],
      [CHR 0xE2, CHR 0x80, CHR 0x86], [CHR 0xE2, CHR 0x80, CHR 0x87],
      [CHR 0xE2, CHR 0x80, CHR 0x88], [CHR 0xE2, CHR 0x80, CHR 0x89],
      [CHR 0xE2, CHR 0x80, CHR 0x8A], [CHR 0xE2, CHR 0x80, CHR 0xA8],
      [CHR 0xE2, CHR 0x80, CHR 0xA9], [CHR 0xE2, CHR 0x80, CHR 0xAF],
      [CHR 0xE2, CHR 0x81, CHR 0x9F], [CHR 0xE3, CHR 0x80, CHR 0x80]]"

function trim_left :: "string list \<Rightarrow> string \<Rightarrow> string" where
  "trim_left ws s =
     (case find (\<lambda>w. w \<noteq> [] \<and> HasPrefix s w) ws of
        None \<Rightarrow> s
      | Some w \<Rightarrow> trim_left ws (drop (length w) s))"
  by pat_completeness auto
termination
proof (relation "measure (\<lambda>(ws, s). length s)", simp)
  fix ws :: "string list" and s w
  assume "find (\<lambda>w. w \<noteq> [] \<and> HasPrefix s w) ws = Some w"
  then have "w \<noteq> [] \<and> HasPrefix s w" by (auto simp: find_Some_iff)
  then show "((ws, drop (length w) s), (ws, s)) \<in> measure (\<lambda>(ws, s). length s)"
    by (auto simp: HasPrefix_def) (metis diff_less length_greater_0_conv less_le_trans)
qed

declare trim_left.simps [simp del]

definition TrimSpace :: "string \<Rightarrow> string" where
  "TrimSpace s =
     rev (trim_left (map rev space_encodings) (rev (trim_left space_encodings s)))"

text \<open>What is left does not begin with white space, and only leading bytes are dropped.\<close>

lemma trim_left_fixed:
  "w \<in> set ws \<Longrightarrow> w \<noteq> [] \<Longrightarrow> \<not> HasPrefix (trim_left ws s) w"
proof (induction ws s rule: trim_left.induct)
  case (1 ws s)
  show ?case
  proof (cases "find (\<lambda>w. w \<noteq> [] \<and> HasPrefix s w) ws")
    case None
    then have "trim_left ws s = s" by (simp add: trim_left.simps)
    with None "1.prems" show ?thesis by (auto simp: find_None_iff)
  next
    case (Some v)
    with 1 show ?thesis by (simp add: trim_left.simps [of ws s])
  qed
qed

lemma trim_left_suffix: "\<exists>u. s = u @ trim_left ws s"
proof (induction ws s rule: trim_left.induct)
  case (1 ws s)
  show ?case
  proof (cases "find (\<lambda>w. w \<noteq> [] \<and> HasPrefix s w) ws")
    case None
    then show ?thesis by (simp add: trim_left.simps)
  next
    case (Some v)
    with 1 obtain u where "drop (length v) s = u @ trim_left ws s"
      by (auto simp: trim_left.simps [of ws s])
    then have "s = (take (length v) s @ u) @ trim_left ws s"
      by (metis append.assoc append_take_drop_id)
    then show ?thesis by blast
  qed
qed

lemma TrimSpace_infix: "\<exists>u v. s = u @ TrimSpace s @ v"
proof -
  obtain u where u: "s = u @ trim_left space_encodings s"
    using trim_left_suffix by blast
  obtain v where "rev (trim_left space_encodings s)
      = v @ trim_left (map rev space_encodings) (rev (trim_left space_encodings s))"
    using trim_left_suffix by blast
  then have "trim_left space_encodings s = TrimSpace s @ rev v"
    by (metis TrimSpace_def rev_append rev_rev_ident)
  with u show ?thesis by metis
qed

lemma TrimSpace_clean:
  assumes "w \<in> set space_encodings" "w \<noteq> []"
  shows "\<not> HasPrefix (TrimSpace s) w \<and> \<not> HasSuffix (TrimSpace s) w"
proof -
  let ?q = "trim_left space_encodings s"
  let ?r = "trim_left (map rev space_encodings) (rev ?q)"
  obtain v where "rev ?q = v @ ?r" using trim_left_suffix by blast
  then have q: "?q = TrimSpace s @ rev v" by (metis TrimSpace_def rev_append rev_rev_ident)
  have "\<not> HasPrefix ?q w" using assms by (rule trim_left_fixed)
  then have "\<not> HasPrefix (TrimSpace s) w"
    by (subst (asm) q) (auto simp: HasPrefix_iff)
  moreover have "\<not> HasPrefix ?r (rev w)" using assms by (intro trim_left_fixed) auto
  then have "\<not> HasSuffix (TrimSpace s) w"
    by (metis HasPrefix_iff HasSuffix_iff TrimSpace_def rev_append rev_rev_ident)
  ultimately show ?thesis by blast
qed

lemma TrimSpace_subset: "c \<in> set (TrimSpace s) \<Longrightarrow> c \<in> set s"
  using TrimSpace_infix [of s] by (metis Un_iff set_append)

section \<open>Splitting\<close>

fun split_on :: "char \<Rightarrow> string \<Rightarrow> string list" where
  "split_on c [] = [[]]"
| "split_on c (x # xs) =
     (if x = c then [] # split_on c xs
      else (case split_on c xs of [] \<Rightarrow> [[x]] | y # ys \<Rightarrow> (x # y) # ys))"

fun join_with :: "string \<Rightarrow> string list \<Rightarrow> string" where
  "join_with sep [] = []"
| "join_with sep [x] = x"
| "join_with sep (x # xs) = x @ sep @ join_with sep xs"

text \<open>\<open>strings.SplitN\<close> with limit 2: at most one cut, at the first separator.\<close>

fun split_once :: "char \<Rightarrow> string \<Rightarrow> string list" where
  "split_once c [] = [[]]"
| "split_once c (x # xs) =
     (if x = c then [[], xs]
      else (case split_once c xs of [] \<Rightarrow> [[x]] | y # ys \<Rightarrow> (x # y) # ys))"

lemma split_on_nonempty [simp]: "split_on c s \<noteq> []"
  by (induction s) (auto split: list.splits)

lemma join_split: "join_with [c] (split_on c s) = s"
proof (induction s)
  case Nil
  then show ?case by simp
next
  case (Cons x s)
  obtain y ys where y: "split_on c s = y # ys"
    by (cases "split_on c s") auto
  with Cons show ?case by (cases ys) auto
qed

lemma split_on_no_sep: "x \<in> set (split_on c s) \<Longrightarrow> c \<notin> set x"
  by (induction s arbitrary: x) (auto split: list.splits if_splits)

lemma split_on_append: "split_on c (s @ c # t) = split_on c s @ split_on c t"
  by (induction s) (auto split: list.splits)

lemma split_on_single: "c \<notin> set s \<Longrightarrow> split_on c s = [s]"
  by (induction s) auto

lemma split_once_found:
  "c \<notin> set a \<Longrightarrow> split_once c (a @ c # b) = [a, b]"
  by (induction a) auto

lemma split_once_2:
  "length (split_once c s) = 2 \<longleftrightarrow> c \<in> set s"
  by (induction s) (auto split: list.splits)

section \<open>Numbers\<close>

fun dec_nat :: "nat \<Rightarrow> string" where
  "dec_nat n = (if n < 10 then [char_of (48 + n)]
                else dec_nat (n div 10) @ [char_of (48 + n mod 10)])"

declare dec_nat.simps [simp del]

definition dec_int :: "int \<Rightarrow> string" where
  "dec_int i = (if i < 0 then ''-'' @ dec_nat (nat (- i)) else dec_nat (nat i))"

text \<open>A number printed with at least \<open>k\<close> digits, zeros in front.\<close>

definition zero_padded :: "nat \<Rightarrow> nat \<Rightarrow> string" where
  "zero_padded k n = replicate (k - length (dec_nat n)) CHR ''0'' @ dec_nat n"

definition is_digit :: "char \<Rightarrow> bool" where
  "is_digit c \<longleftrightarrow> 48 \<le> (of_char c :: nat) \<and> (of_char c :: nat) \<le> 57"

lemma dec_nat_digits: "c \<in> set (dec_nat n) \<Longrightarrow> is_digit c"
proof (induction n rule: dec_nat.induct)
  case (1 n)
  then show ?case
    by (cases "n < 10") (auto simp: dec_nat.simps [of n] is_digit_def)
qed

lemma dec_nat_nonempty [simp]: "dec_nat n \<noteq> []"
  by (simp add: dec_nat.simps)

lemma is_digit_0 [simp]: "is_digit CHR ''0''"
  by (simp add: is_digit_def)

lemma zero_padded_digits: "c \<in> set (zero_padded k n) \<Longrightarrow> is_digit c"
  by (auto simp: zero_padded_def dec_nat_digits)

lemma zero_padded_nonempty [simp]: "zero_padded k n \<noteq> []"
  by (simp add: zero_padded_def)

text \<open>
  \<open>strconv.ParseUint\<close> in base 10 for 64 bits: the digits are read from the left, and a
  value that no longer fits ends the scan with a range error before the rest is looked at.
\<close>

datatype num_error = ErrSyntax | ErrRange

fun parse_uint :: "nat \<Rightarrow> string \<Rightarrow> num_error + nat" where
  "parse_uint n [] = Inr n"
| "parse_uint n (c # cs) =
     (if \<not> is_digit c then Inl ErrSyntax
      else if 1844674407370955162 \<le> n then Inl ErrRange
      else let n1 = n * 10 + (of_char c - 48) in
           if 2 ^ 64 \<le> n1 then Inl ErrRange else parse_uint n1 cs)"

text \<open>
  \<open>strconv.Atoi\<close>: the value and the error, if any. On a range error the value is the
  nearest one that fits, on a syntax error it is 0.
\<close>

definition Atoi :: "string \<Rightarrow> go_int \<times> num_error option" where
  "Atoi s =
     (let neg = (s \<noteq> [] \<and> hd s = CHR ''-'');
          body = (if s \<noteq> [] \<and> (hd s = CHR ''-'' \<or> hd s = CHR ''+'') then tl s else s)
      in if body = [] then (0, Some ErrSyntax)
         else case parse_uint 0 body of
                Inl ErrSyntax \<Rightarrow> (0, Some ErrSyntax)
              | Inl ErrRange \<Rightarrow> (if neg then (- (2 ^ 63), Some ErrRange) else (2 ^ 63 - 1, Some ErrRange))
              | Inr n \<Rightarrow>
                  if \<not> neg \<and> 2 ^ 63 \<le> n then (2 ^ 63 - 1, Some ErrRange)
                  else if neg \<and> 2 ^ 63 < n then (- (2 ^ 63), Some ErrRange)
                  else (if neg then - of_nat n else of_nat n, None))"

lemma parse_uint_append_digit:
  assumes "parse_uint k s = Inr n" and "n * 10 + d < 2 ^ 64" and "d < 10"
  shows "parse_uint k (s @ [char_of (48 + d)]) = Inr (n * 10 + d)"
  using assms
proof (induction s arbitrary: k)
  case Nil
  then have "\<not> 1844674407370955162 \<le> k" by simp
  with Nil show ?case by (simp add: is_digit_def)
next
  case (Cons c s)
  then show ?case by (simp add: Let_def split: if_splits)
qed

text \<open>Printing and reading a number that fits gives it back.\<close>

lemma parse_uint_dec_nat: "n < 2 ^ 64 \<Longrightarrow> parse_uint 0 (dec_nat n) = Inr n"
proof (induction n rule: dec_nat.induct)
  case (1 n)
  show ?case
  proof (cases "n < 10")
    case True
    then show ?thesis by (simp add: dec_nat.simps is_digit_def)
  next
    case False
    with 1 have "parse_uint 0 (dec_nat (n div 10)) = Inr (n div 10)" by simp
    moreover have "n div 10 * 10 + n mod 10 < 2 ^ 64" using "1.prems" by simp
    ultimately have "parse_uint 0 (dec_nat (n div 10) @ [char_of (48 + n mod 10)])
        = Inr (n div 10 * 10 + n mod 10)"
      by (rule parse_uint_append_digit) simp
    with False show ?thesis by (simp add: dec_nat.simps [of n])
  qed
qed

lemma Atoi_dec_nat:
  assumes "n < 2 ^ 63"
  shows "Atoi (dec_nat n) = (of_nat n, None)"
proof -
  have "parse_uint 0 (dec_nat n) = Inr n"
    using assms by (intro parse_uint_dec_nat) simp
  moreover have "hd (dec_nat n) \<noteq> CHR ''-''" "hd (dec_nat n) \<noteq> CHR ''+''"
    using dec_nat_digits [of "hd (dec_nat n)" n] by (auto simp: is_digit_def)
  ultimately show ?thesis using assms by (simp add: Atoi_def Let_def)
qed

section \<open>UTF-8\<close>

definition utf8_cont :: "char \<Rightarrow> bool" where
  "utf8_cont c \<longleftrightarrow> 128 \<le> (of_char c :: nat) \<and> (of_char c :: nat) \<le> 191"

text \<open>
  How many bytes the first rune of a byte string takes (\<open>utf8.DecodeRune\<close>): 0 when the
  bytes at the front encode no rune.
\<close>

definition rune_len :: "string \<Rightarrow> nat" where
  "rune_len s =
     (case s of
        [] \<Rightarrow> 0
      | b0 # r \<Rightarrow>
          let n0 = (of_char b0 :: nat); n1 = (case r of [] \<Rightarrow> 0 | b1 # _ \<Rightarrow> (of_char b1 :: nat));
              cont = (\<lambda>i. i < length r \<and> utf8_cont (r ! i))
          in if n0 < 128 then 1
             else if 194 \<le> n0 \<and> n0 \<le> 223 then (if cont 0 then 2 else 0)
             else if 224 \<le> n0 \<and> n0 \<le> 239 then
               (if cont 0 \<and> cont 1 \<and> (n0 = 224 \<longrightarrow> 160 \<le> n1) \<and> (n0 = 237 \<longrightarrow> n1 \<le> 159)
                then 3 else 0)
             else if 240 \<le> n0 \<and> n0 \<le> 244 then
               (if cont 0 \<and> cont 1 \<and> cont 2 \<and> (n0 = 240 \<longrightarrow> 144 \<le> n1) \<and> (n0 = 244 \<longrightarrow> n1 \<le> 143)
                then 4 else 0)
             else 0)"

text \<open>
  \<open>encoding/json\<close> writes every byte that belongs to no rune as the replacement character
  U+FFFD. A fuel of the length of the string is enough: each step takes a byte or more.
\<close>

fun sanitize_fuel :: "nat \<Rightarrow> string \<Rightarrow> string" where
  "sanitize_fuel 0 s = []"
| "sanitize_fuel (Suc k) s =
     (case s of
        [] \<Rightarrow> []
      | b # r \<Rightarrow>
          if rune_len s = 0 then CHR 0xEF # CHR 0xBF # CHR 0xBD # sanitize_fuel k r
          else take (rune_len s) s @ sanitize_fuel k (drop (rune_len s) s))"

definition to_valid_utf8 :: "string \<Rightarrow> string" where
  "to_valid_utf8 s = sanitize_fuel (length s) s"

fun valid_utf8_fuel :: "nat \<Rightarrow> string \<Rightarrow> bool" where
  "valid_utf8_fuel 0 s = (s = [])"
| "valid_utf8_fuel (Suc k) s =
     (s = [] \<or> (rune_len s \<noteq> 0 \<and> valid_utf8_fuel k (drop (rune_len s) s)))"

definition valid_utf8 :: "string \<Rightarrow> bool" where
  "valid_utf8 s = valid_utf8_fuel (length s) s"

lemma sanitize_valid: "valid_utf8_fuel k s \<Longrightarrow> sanitize_fuel k s = s"
proof (induction k arbitrary: s)
  case 0
  then show ?case by simp
next
  case (Suc k)
  then show ?case by (cases s) auto
qed

lemma to_valid_utf8_id [simp]: "valid_utf8 s \<Longrightarrow> to_valid_utf8 s = s"
  by (simp add: valid_utf8_def to_valid_utf8_def sanitize_valid)

lemma ascii_valid_fuel: "is_ascii s \<Longrightarrow> length s \<le> k \<Longrightarrow> valid_utf8_fuel k s"
proof (induction k arbitrary: s)
  case 0
  then show ?case by simp
next
  case (Suc k)
  then show ?case
    by (cases s) (auto simp: rune_len_def is_ascii_def)
qed

lemma ascii_valid_utf8 [simp]: "is_ascii s \<Longrightarrow> valid_utf8 s"
  by (simp add: valid_utf8_def ascii_valid_fuel)

end
