(* ===== verification/Json.thy ===== *)
theory Json
  imports GoStrings "HOL-Library.AList"
begin

text \<open>
  JSON documents and the parts of \<open>encoding/json\<close> the program relies on, at the level of
  JSON values: objects are association lists in the order they are written. The text layer
  below (escapes, white space) is not modelled; bytes that are no JSON text at all are the
  constructor \<open>Raw\<close> of \<open>payload\<close>. A string that is not UTF-8 is written with the
  replacement character, as the library does.
\<close>

datatype jv =
    JNull
  | JB bool
  | JI int
  | JF string \<comment> \<open>a number literal that is no integer\<close>
  | JS string
  | JA "jv list"
  | JO "(string \<times> jv) list"

datatype payload = Json jv | Raw bytes

section \<open>Writing\<close>

definition json_string :: "string \<Rightarrow> jv" where
  "json_string s = JS (to_valid_utf8 s)"

definition json_int :: "go_int \<Rightarrow> jv" where
  "json_int n = JI (sint n)"

definition json_strings :: "string list \<Rightarrow> jv" where
  "json_strings ss = JA (map json_string ss)"

text \<open>
  A Go map is kept as an association list with distinct keys in the order in which
  \<open>json.Marshal\<close> writes them.
\<close>

definition json_map :: "(string \<times> string) list \<Rightarrow> jv" where
  "json_map m = JO (map (\<lambda>(k, v). (to_valid_utf8 k, json_string v)) m)"

text \<open>A field tagged \<open>omitempty\<close>.\<close>

definition omit_if :: "bool \<Rightarrow> string \<Rightarrow> jv \<Rightarrow> (string \<times> jv) list" where
  "omit_if b k v = (if b then [] else [(k, v)])"

lemma omit_if_simps [simp]: "omit_if True k v = []" "omit_if False k v = [(k, v)]"
  by (simp_all add: omit_if_def)

section \<open>Reading into typed fields\<close>

text \<open>
  \<open>json.Unmarshal\<close> goes through the members in order and stores each into the field of
  that name (compared without regard to ASCII case); \<open>null\<close> leaves a string or number as
  it is and clears a slice or a map; a value of another kind is an error.
\<close>

fun dec_string :: "jv \<Rightarrow> string \<Rightarrow> string option" where
  "dec_string (JS s) _ = Some s"
| "dec_string JNull cur = Some cur"
| "dec_string _ _ = None"

definition fits_int64 :: "int \<Rightarrow> bool" where
  "fits_int64 i \<longleftrightarrow> - (2 ^ 63) \<le> i \<and> i < 2 ^ 63"

fun dec_int64 :: "jv \<Rightarrow> go_int \<Rightarrow> go_int option" where
  "dec_int64 (JI i) _ = (if fits_int64 i then Some (of_int i) else None)"
| "dec_int64 JNull cur = Some cur"
| "dec_int64 _ _ = None"

fun dec_strings :: "jv \<Rightarrow> string list option" where
  "dec_strings (JA js) = those (map (\<lambda>j. dec_string j []) js)"
| "dec_strings JNull = Some []"
| "dec_strings _ = None"

fun dec_members :: "(string \<times> jv) list \<Rightarrow> (string \<times> string) list \<Rightarrow> (string \<times> string) list option" where
  "dec_members [] m = Some m"
| "dec_members ((k, j) # r) m =
     (case dec_string j [] of None \<Rightarrow> None | Some v \<Rightarrow> dec_members r (AList.update k v m))"

fun dec_map :: "jv \<Rightarrow> (string \<times> string) list \<Rightarrow> (string \<times> string) list option" where
  "dec_map (JO kvs) m = dec_members kvs m"
| "dec_map JNull _ = Some []"
| "dec_map _ _ = None"

text \<open>
  A struct: the members are stored one after the other by a setter that knows the fields;
  a top-level \<open>null\<close> changes nothing.
\<close>

fun dec_fields :: "(string \<Rightarrow> jv \<Rightarrow> 'r \<Rightarrow> 'r option) \<Rightarrow> (string \<times> jv) list \<Rightarrow> 'r \<Rightarrow> 'r option" where
  "dec_fields put [] r = Some r"
| "dec_fields put ((k, j) # kvs) r =
     (case put (map ascii_lower k) j r of None \<Rightarrow> None | Some r' \<Rightarrow> dec_fields put kvs r')"

fun dec_struct :: "(string \<Rightarrow> jv \<Rightarrow> 'r \<Rightarrow> 'r option) \<Rightarrow> jv \<Rightarrow> 'r \<Rightarrow> 'r option" where
  "dec_struct put (JO kvs) r = dec_fields put kvs r"
| "dec_struct put JNull r = Some r"
| "dec_struct put _ r = None"

section \<open>Reading back what was written\<close>

lemma fits_sint [simp]: "fits_int64 (sint (n :: go_int))"
  using sint_range_size [of n] by (simp add: fits_int64_def word_size)

lemma dec_json_int [simp]: "dec_int64 (json_int n) cur = Some n"
  by (simp add: json_int_def)

lemma dec_json_string [simp]: "dec_string (json_string s) cur = Some (to_valid_utf8 s)"
  by (simp add: json_string_def)

lemma those_map_Some: "(\<And>x. x \<in> set xs \<Longrightarrow> f x = Some (g x)) \<Longrightarrow> those (map f xs) = Some (map g xs)"
  by (induction xs) auto

lemma dec_json_strings [simp]: "dec_strings (json_strings ss) = Some (map to_valid_utf8 ss)"
proof -
  have "those (map (\<lambda>s. dec_string (json_string s) []) ss) = Some (map to_valid_utf8 ss)"
    by (rule those_map_Some) simp
  then show ?thesis by (simp add: json_strings_def comp_def)
qed

lemma update_new: "k \<notin> fst ` set m \<Longrightarrow> AList.update k v m = m @ [(k, v)]"
  by (induction m) auto

lemma dec_members_append:
  "distinct (map fst (m0 @ m)) \<Longrightarrow>
   dec_members (map (\<lambda>(k, v). (k, JS v)) m) m0 = Some (m0 @ m)"
proof (induction m arbitrary: m0)
  case Nil
  then show ?case by simp
next
  case (Cons kv m)
  obtain k v where kv: "kv = (k, v)" by fastforce
  with Cons.prems have "AList.update k v m0 = m0 @ [(k, v)]"
    by (intro update_new) auto
  with Cons kv show ?case by simp
qed

definition map_of_valid :: "(string \<times> string) list \<Rightarrow> bool" where
  "map_of_valid m \<longleftrightarrow> distinct (map fst m) \<and> list_all (\<lambda>(k, v). valid_utf8 k \<and> valid_utf8 v) m"

lemma dec_json_map:
  assumes "map_of_valid m"
  shows "dec_map (json_map m) [] = Some m"
proof -
  have "map (\<lambda>(k, v). (to_valid_utf8 k, json_string v)) m = map (\<lambda>(k, v). (k, JS v)) m"
    using assms by (intro map_cong) (auto simp: map_of_valid_def list_all_iff json_string_def)
  then have "json_map m = JO (map (\<lambda>(k, v). (k, JS v)) m)" by (simp only: json_map_def)
  then show ?thesis
    using assms dec_members_append [of "[]" m] by (simp add: map_of_valid_def)
qed

lemma map_valid_id: "list_all valid_utf8 ss \<Longrightarrow> map to_valid_utf8 ss = ss"
  by (induction ss) auto

lemma dec_fields_append [simp]:
  "dec_fields put (xs @ ys) r =
     (case dec_fields put xs r of None \<Rightarrow> None | Some r' \<Rightarrow> dec_fields put ys r')"
  by (induction xs arbitrary: r) (auto split: option.splits)

end
