(* ===== verification/Models.thy ===== *)
theory Models
  imports Json
begin

text \<open>
  The data model of \<open>internal/models\<close>: mails and attachments, queue messages, status
  cache entries, client tokens and sender configurations, each field named after the Go
  field. Times are nanoseconds since the epoch. The JSON encodings follow the struct tags.
\<close>

section \<open>Mail status\<close>

datatype mail_status =
    MailStatusQueued
  | MailStatusProcessing
  | MailStatusSent
  | MailStatusFailed
  | MailStatusCancelled

fun status_text :: "mail_status \<Rightarrow> string" where
  "status_text MailStatusQueued = ''queued''"
| "status_text MailStatusProcessing = ''processing''"
| "status_text MailStatusSent = ''sent''"
| "status_text MailStatusFailed = ''failed''"
| "status_text MailStatusCancelled = ''cancelled''"

lemma status_text_inj [simp]: "status_text a = status_text b \<longleftrightarrow> a = b"
  by (cases a; cases b) simp_all

section \<open>Rows\<close>

record attachment =
  att_ID :: uuid
  att_MailID :: uuid
  att_Filename :: string
  att_ContentType :: string
  att_SizeBytes :: go_int
  att_StoragePath :: string
  att_CreatedAt :: int

record mail =
  mail_ID :: uuid
  mail_FromAddress :: string
  mail_ToAddresses :: "string list"
  mail_CCAddresses :: "string list"
  mail_BCCAddresses :: "string list"
  mail_Subject :: string
  mail_Body :: string
  mail_HTML :: string
  mail_Status :: mail_status
  mail_RetryCount :: go_int
  mail_ErrorMessage :: string
  mail_SentAt :: "int option"
  mail_CreatedAt :: int
  mail_UpdatedAt :: int
  mail_ClientID :: string
  mail_ClientName :: string
  mail_Metadata :: "(string \<times> string) list"
  mail_SenderConfigID :: "uuid option"
  mail_Attachments :: "attachment list"

record client_token =
  tok_ID :: uuid
  tok_ClientID :: string
  tok_ClientName :: string
  tok_Department :: string
  tok_Permissions :: "string list"
  tok_TokenHash :: string
  tok_CreatedAt :: int
  tok_RevokedAt :: "int option"
  tok_IsActive :: bool

record email_sender_config =
  cfg_ID :: uuid
  cfg_ClientTokenID :: uuid
  cfg_SenderEmail :: string
  cfg_MSTenantID :: string
  cfg_MSClientID :: string
  cfg_MSClientSecretEncrypted :: string
  cfg_IsActive :: bool
  cfg_CreatedAt :: int
  cfg_UpdatedAt :: int

section \<open>Requests and responses\<close>

record create_token_request =
  ctr_ClientName :: string
  ctr_Department :: string
  ctr_Permissions :: "string list"

record create_sender_config_request =
  csr_SenderEmail :: string
  csr_MSTenantID :: string
  csr_MSClientID :: string
  csr_MSClientSecret :: string

record update_sender_config_request =
  usr_MSTenantID :: string
  usr_MSClientID :: string
  usr_MSClientSecret :: string
  usr_IsActive :: "bool option"

record sender_config_response =
  scr_ID :: uuid
  scr_ClientTokenID :: uuid
  scr_SenderEmail :: string
  scr_MSTenantID :: string
  scr_MSClientID :: string
  scr_MSClientSecret :: string
  scr_IsActive :: bool
  scr_CreatedAt :: int
  scr_UpdatedAt :: int

text \<open>The secret is shown as its first and last four bytes, or not at all.\<close>

definition maskSecret :: "string \<Rightarrow> string" where
  "maskSecret secret =
     (if length secret \<le> 8 then ''****''
      else take 4 secret @ ''****'' @ drop (length secret - 4) secret)"

definition ToResponse :: "email_sender_config \<Rightarrow> string \<Rightarrow> sender_config_response" where
  "ToResponse e decryptedSecret =
     (let maskedSecret = maskSecret decryptedSecret in
      \<lparr>scr_ID = cfg_ID e,
       scr_ClientTokenID = cfg_ClientTokenID e,
       scr_SenderEmail = cfg_SenderEmail e,
       scr_MSTenantID = cfg_MSTenantID e,
       scr_MSClientID = cfg_MSClientID e,
       scr_MSClientSecret = maskedSecret,
       scr_IsActive = cfg_IsActive e,
       scr_CreatedAt = cfg_CreatedAt e,
       scr_UpdatedAt = cfg_UpdatedAt e\<rparr>)"

text \<open>
  What a client sees of a secret depends only on its first and last four bytes, and for a
  secret of at most eight bytes on nothing at all: two secrets that agree there are shown
  alike, and never as more than twelve bytes.
\<close>

lemma ToResponse_hides_secret:
  assumes "(length s \<le> 8 \<and> length t \<le> 8) \<or>
      (8 < length s \<and> 8 < length t \<and> take 4 s = take 4 t
        \<and> drop (length s - 4) s = drop (length t - 4) t)"
  shows "ToResponse c s = ToResponse c t \<and> length (scr_MSClientSecret (ToResponse c s)) \<le> 12"
proof -
  have "maskSecret s = maskSecret t" using assms by (auto simp: maskSecret_def)
  moreover have "length (maskSecret s) \<le> 12" by (simp add: maskSecret_def)
  ultimately show ?thesis by (simp add: ToResponse_def)
qed

definition sample_config_row :: email_sender_config where
  "sample_config_row =
     \<lparr>cfg_ID = ''c1'', cfg_ClientTokenID = ''k1'', cfg_SenderEmail = ''a@ptc-nec.com.tw'',
      cfg_MSTenantID = ''t'', cfg_MSClientID = ''i'', cfg_MSClientSecretEncrypted = [],
      cfg_IsActive = True, cfg_CreatedAt = 0, cfg_UpdatedAt = 0\<rparr>"

lemma ToResponse_hides_secret_witness:
  "ToResponse sample_config_row ''abcd-secret-wxyz'' = ToResponse sample_config_row ''abcd?wxyz''"
  using ToResponse_hides_secret [of "''abcd-secret-wxyz''" "''abcd?wxyz''" sample_config_row] by simp

section \<open>Queue messages\<close>

record attachment_info =
  ai_Filename :: string
  ai_ContentType :: string
  ai_SizeBytes :: go_int
  ai_StoragePath :: string

record mail_job =
  job_MailID :: string
  job_FromAddress :: string
  job_ToAddresses :: "string list"
  job_CCAddresses :: "string list"
  job_BCCAddresses :: "string list"
  job_Subject :: string
  job_Body :: string
  job_HTML :: string
  job_Attachments :: "attachment_info list"
  job_Metadata :: "(string \<times> string) list"
  job_RetryCount :: go_int
  job_SenderConfigID :: string

record mail_status_cache =
  msc_MailID :: string
  msc_Status :: string
  msc_RetryCount :: go_int
  msc_LastUpdated :: string
  msc_ErrorMessage :: string

definition marshal_info :: "attachment_info \<Rightarrow> jv" where
  "marshal_info a = JO
     [(''filename'', json_string (ai_Filename a)),
      (''content_type'', json_string (ai_ContentType a)),
      (''size_bytes'', json_int (ai_SizeBytes a)),
      (''storage_path'', json_string (ai_StoragePath a))]"

definition marshal_job :: "mail_job \<Rightarrow> jv" where
  "marshal_job j = JO (
     [(''mail_id'', json_string (job_MailID j)),
      (''from'', json_string (job_FromAddress j)),
      (''to'', json_strings (job_ToAddresses j))]
     @ omit_if (job_CCAddresses j = []) ''cc'' (json_strings (job_CCAddresses j))
     @ omit_if (job_BCCAddresses j = []) ''bcc'' (json_strings (job_BCCAddresses j))
     @ [(''subject'', json_string (job_Subject j))]
     @ omit_if (job_Body j = []) ''body'' (json_string (job_Body j))
     @ omit_if (job_HTML j = []) ''html'' (json_string (job_HTML j))
     @ omit_if (job_Attachments j = []) ''attachments'' (JA (map marshal_info (job_Attachments j)))
     @ omit_if (job_Metadata j = []) ''metadata'' (json_map (job_Metadata j))
     @ [(''retry_count'', json_int (job_RetryCount j))]
     @ omit_if (job_SenderConfigID j = []) ''sender_config_id'' (json_string (job_SenderConfigID j)))"

definition marshal_status :: "mail_status_cache \<Rightarrow> jv" where
  "marshal_status c = JO (
     [(''mail_id'', json_string (msc_MailID c)),
      (''status'', json_string (msc_Status c)),
      (''retry_count'', json_int (msc_RetryCount c)),
      (''last_updated'', json_string (msc_LastUpdated c))]
     @ omit_if (msc_ErrorMessage c = []) ''error_message'' (json_string (msc_ErrorMessage c)))"

text \<open>The zero values the decoder starts from.\<close>

definition zero_info :: attachment_info where
  "zero_info = \<lparr>ai_Filename = [], ai_ContentType = [], ai_SizeBytes = 0, ai_StoragePath = []\<rparr>"

definition zero_job :: mail_job where
  "zero_job =
     \<lparr>job_MailID = [], job_FromAddress = [], job_ToAddresses = [], job_CCAddresses = [],
      job_BCCAddresses = [], job_Subject = [], job_Body = [], job_HTML = [],
      job_Attachments = [], job_Metadata = [], job_RetryCount = 0, job_SenderConfigID = []\<rparr>"

definition zero_status :: mail_status_cache where
  "zero_status =
     \<lparr>msc_MailID = [], msc_Status = [], msc_RetryCount = 0, msc_LastUpdated = [],
      msc_ErrorMessage = []\<rparr>"

definition put_info :: "string \<Rightarrow> jv \<Rightarrow> attachment_info \<Rightarrow> attachment_info option" where
  "put_info k j a =
     (if k = ''filename'' then
        map_option (\<lambda>v. a\<lparr>ai_Filename := v\<rparr>) (dec_string j (ai_Filename a))
      else if k = ''content_type'' then
        map_option (\<lambda>v. a\<lparr>ai_ContentType := v\<rparr>) (dec_string j (ai_ContentType a))
      else if k = ''size_bytes'' then
        map_option (\<lambda>v. a\<lparr>ai_SizeBytes := v\<rparr>) (dec_int64 j (ai_SizeBytes a))
      else if k = ''storage_path'' then
        map_option (\<lambda>v. a\<lparr>ai_StoragePath := v\<rparr>) (dec_string j (ai_StoragePath a))
      else Some a)"

fun dec_infos :: "jv \<Rightarrow> attachment_info list option" where
  "dec_infos (JA js) = those (map (\<lambda>j. dec_struct put_info j zero_info) js)"
| "dec_infos JNull = Some []"
| "dec_infos _ = None"

definition put_job :: "string \<Rightarrow> jv \<Rightarrow> mail_job \<Rightarrow> mail_job option" where
  "put_job k j r =
     (if k = ''mail_id'' then
        map_option (\<lambda>v. r\<lparr>job_MailID := v\<rparr>) (dec_string j (job_MailID r))
      else if k = ''from'' then
        map_option (\<lambda>v. r\<lparr>job_FromAddress := v\<rparr>) (dec_string j (job_FromAddress r))
      else if k = ''to'' then map_option (\<lambda>v. r\<lparr>job_ToAddresses := v\<rparr>) (dec_strings j)
      else if k = ''cc'' then map_option (\<lambda>v. r\<lparr>job_CCAddresses := v\<rparr>) (dec_strings j)
      else if k = ''bcc'' then map_option (\<lambda>v. r\<lparr>job_BCCAddresses := v\<rparr>) (dec_strings j)
      else if k = ''subject'' then
        map_option (\<lambda>v. r\<lparr>job_Subject := v\<rparr>) (dec_string j (job_Subject r))
      else if k = ''body'' then
        map_option (\<lambda>v. r\<lparr>job_Body := v\<rparr>) (dec_string j (job_Body r))
      else if k = ''html'' then
        map_option (\<lambda>v. r\<lparr>job_HTML := v\<rparr>) (dec_string j (job_HTML r))
      else if k = ''attachments'' then map_option (\<lambda>v. r\<lparr>job_Attachments := v\<rparr>) (dec_infos j)
      else if k = ''metadata'' then
        map_option (\<lambda>v. r\<lparr>job_Metadata := v\<rparr>) (dec_map j (job_Metadata r))
      else if k = ''retry_count'' then
        map_option (\<lambda>v. r\<lparr>job_RetryCount := v\<rparr>) (dec_int64 j (job_RetryCount r))
      else if k = ''sender_config_id'' then
        map_option (\<lambda>v. r\<lparr>job_SenderConfigID := v\<rparr>) (dec_string j (job_SenderConfigID r))
      else Some r)"

definition put_status :: "string \<Rightarrow> jv \<Rightarrow> mail_status_cache \<Rightarrow> mail_status_cache option" where
  "put_status k j c =
     (if k = ''mail_id'' then
        map_option (\<lambda>v. c\<lparr>msc_MailID := v\<rparr>) (dec_string j (msc_MailID c))
      else if k = ''status'' then
        map_option (\<lambda>v. c\<lparr>msc_Status := v\<rparr>) (dec_string j (msc_Status c))
      else if k = ''retry_count'' then
        map_option (\<lambda>v. c\<lparr>msc_RetryCount := v\<rparr>) (dec_int64 j (msc_RetryCount c))
      else if k = ''last_updated'' then
        map_option (\<lambda>v. c\<lparr>msc_LastUpdated := v\<rparr>) (dec_string j (msc_LastUpdated c))
      else if k = ''error_message'' then
        map_option (\<lambda>v. c\<lparr>msc_ErrorMessage := v\<rparr>) (dec_string j (msc_ErrorMessage c))
      else Some c)"

definition unmarshal_job :: "payload \<Rightarrow> mail_job option" where
  "unmarshal_job p = (case p of Raw _ \<Rightarrow> None | Json j \<Rightarrow> dec_struct put_job j zero_job)"

definition unmarshal_status :: "payload \<Rightarrow> mail_status_cache option" where
  "unmarshal_status p = (case p of Raw _ \<Rightarrow> None | Json j \<Rightarrow> dec_struct put_status j zero_status)"

section \<open>What survives the queue and the cache\<close>

text \<open>A job whose texts are UTF-8 and whose metadata keys are distinct.\<close>

definition valid_info :: "attachment_info \<Rightarrow> bool" where
  "valid_info a \<longleftrightarrow> valid_utf8 (ai_Filename a) \<and> valid_utf8 (ai_ContentType a)
     \<and> valid_utf8 (ai_StoragePath a)"

definition valid_job :: "mail_job \<Rightarrow> bool" where
  "valid_job j \<longleftrightarrow>
     list_all valid_utf8 [job_MailID j, job_FromAddress j, job_Subject j, job_Body j, job_HTML j,
                          job_SenderConfigID j]
     \<and> list_all valid_utf8 (job_ToAddresses j) \<and> list_all valid_utf8 (job_CCAddresses j)
     \<and> list_all valid_utf8 (job_BCCAddresses j)
     \<and> list_all valid_info (job_Attachments j) \<and> map_of_valid (job_Metadata j)"

lemma dec_marshal_info [simp]:
  "valid_info a \<Longrightarrow> dec_struct put_info (marshal_info a) zero_info = Some a"
  by (simp add: marshal_info_def put_info_def zero_info_def valid_info_def ascii_lower_def)

lemma dec_marshal_infos:
  "list_all valid_info as \<Longrightarrow> dec_infos (JA (map marshal_info as)) = Some as"
proof -
  assume "list_all valid_info as"
  then have "those (map (\<lambda>a. dec_struct put_info (marshal_info a) zero_info) as)
      = Some (map (\<lambda>a. a) as)"
    by (intro those_map_Some) (auto simp: list_all_iff)
  then show ?thesis by (simp add: comp_def)
qed

text \<open>One member at a time: what was left out reads back as the zero value.\<close>

lemma dec_job_cc:
  "job_CCAddresses r = [] \<Longrightarrow> list_all valid_utf8 xs \<Longrightarrow>
   dec_fields put_job (omit_if (xs = []) ''cc'' (json_strings xs)) r = Some (r\<lparr>job_CCAddresses := xs\<rparr>)"
  by (cases r) (simp add: omit_if_def put_job_def ascii_lower_def map_valid_id)

lemma dec_job_bcc:
  "job_BCCAddresses r = [] \<Longrightarrow> list_all valid_utf8 xs \<Longrightarrow>
   dec_fields put_job (omit_if (xs = []) ''bcc'' (json_strings xs)) r = Some (r\<lparr>job_BCCAddresses := xs\<rparr>)"
  by (cases r) (simp add: omit_if_def put_job_def ascii_lower_def map_valid_id)

lemma dec_job_body:
  "job_Body r = [] \<Longrightarrow> valid_utf8 x \<Longrightarrow>
   dec_fields put_job (omit_if (x = []) ''body'' (json_string x)) r = Some (r\<lparr>job_Body := x\<rparr>)"
  by (cases r) (simp add: omit_if_def put_job_def ascii_lower_def)

lemma dec_job_html:
  "job_HTML r = [] \<Longrightarrow> valid_utf8 x \<Longrightarrow>
   dec_fields put_job (omit_if (x = []) ''html'' (json_string x)) r = Some (r\<lparr>job_HTML := x\<rparr>)"
  by (cases r) (simp add: omit_if_def put_job_def ascii_lower_def)

lemma dec_job_sender:
  "job_SenderConfigID r = [] \<Longrightarrow> valid_utf8 x \<Longrightarrow>
   dec_fields put_job (omit_if (x = []) ''sender_config_id'' (json_string x)) r
     = Some (r\<lparr>job_SenderConfigID := x\<rparr>)"
  by (cases r) (simp add: omit_if_def put_job_def ascii_lower_def)

lemma dec_job_attachments:
  "job_Attachments r = [] \<Longrightarrow> list_all valid_info xs \<Longrightarrow>
   dec_fields put_job (omit_if (xs = []) ''attachments'' (JA (map marshal_info xs))) r
     = Some (r\<lparr>job_Attachments := xs\<rparr>)"
  by (cases r)
     (simp add: omit_if_def put_job_def ascii_lower_def dec_marshal_infos del: dec_infos.simps)

lemma dec_job_metadata:
  "job_Metadata r = [] \<Longrightarrow> map_of_valid xs \<Longrightarrow>
   dec_fields put_job (omit_if (xs = []) ''metadata'' (json_map xs)) r = Some (r\<lparr>job_Metadata := xs\<rparr>)"
  by (cases r) (simp add: omit_if_def put_job_def ascii_lower_def dec_json_map)

lemmas dec_job_members = dec_job_cc dec_job_bcc dec_job_body dec_job_html dec_job_sender
  dec_job_attachments dec_job_metadata

lemma dec_job_head:
  "valid_utf8 a \<Longrightarrow> valid_utf8 b \<Longrightarrow> list_all valid_utf8 ts \<Longrightarrow>
   dec_fields put_job [(''mail_id'', json_string a), (''from'', json_string b), (''to'', json_strings ts)] r
     = Some (r\<lparr>job_MailID := a, job_FromAddress := b, job_ToAddresses := ts\<rparr>)"
  by (simp add: put_job_def ascii_lower_def map_valid_id)

lemma dec_job_subject:
  "valid_utf8 a \<Longrightarrow>
   dec_fields put_job [(''subject'', json_string a)] r = Some (r\<lparr>job_Subject := a\<rparr>)"
  by (simp add: put_job_def ascii_lower_def)

lemma dec_job_retry:
  "dec_fields put_job [(''retry_count'', json_int n)] r = Some (r\<lparr>job_RetryCount := n\<rparr>)"
  by (simp add: put_job_def ascii_lower_def)

lemma unmarshal_marshal_job:
  assumes "valid_job j"
  shows "unmarshal_job (Json (marshal_job j)) = Some j"
  using assms unfolding unmarshal_job_def marshal_job_def valid_job_def
  by (simp only: payload.case dec_struct.simps dec_fields_append list.pred_inject
      dec_job_head dec_job_subject dec_job_retry option.case)
     (simp add: zero_job_def dec_job_members del: dec_fields.simps)

lemma unmarshal_marshal_status:
  "list_all valid_utf8 [msc_MailID c, msc_Status c, msc_LastUpdated c, msc_ErrorMessage c] \<Longrightarrow>
   unmarshal_status (Json (marshal_status c)) = Some c"
  by (cases c)
     (simp add: unmarshal_status_def marshal_status_def put_status_def zero_status_def
        ascii_lower_def omit_if_def)

section \<open>Every encoded job can be decoded\<close>

text \<open>
  Whatever texts a job holds, its encoding decodes to some job; only invalid UTF-8 changes on
  the way. Every other member decodes and leaves identifier and count alone.
\<close>

definition harmless :: "string \<times> jv \<Rightarrow> bool" where
  "harmless kv \<longleftrightarrow> (\<forall>r. \<exists>r'. put_job (map ascii_lower (fst kv)) (snd kv) r = Some r'
     \<and> job_MailID r' = job_MailID r \<and> job_RetryCount r' = job_RetryCount r)"

lemma harmless_fields:
  "list_all harmless kvs \<Longrightarrow> \<exists>r'. dec_fields put_job kvs r = Some r'
     \<and> job_MailID r' = job_MailID r \<and> job_RetryCount r' = job_RetryCount r"
proof (induction kvs arbitrary: r)
  case (Cons kv kvs)
  then obtain r1 where "put_job (map ascii_lower (fst kv)) (snd kv) r = Some r1" "job_MailID r1 = job_MailID r"
      "job_RetryCount r1 = job_RetryCount r"
    by (auto simp: harmless_def)
  with Cons show ?case by (cases kv) fastforce
qed simp

lemma dec_info_total: "\<exists>a'. dec_struct put_info (marshal_info a) zero_info = Some a'"
  by (simp add: marshal_info_def put_info_def ascii_lower_def)

lemma dec_infos_total: "\<exists>as'. dec_infos (JA (map marshal_info as)) = Some as'"
proof (induction as)
  case (Cons a as)
  with dec_info_total [of a] show ?case by (auto simp: comp_def)
qed simp

lemma dec_map_total: "\<exists>m'. dec_map (json_map m) cur = Some m'"
proof -
  have "\<exists>m'. dec_members (map (\<lambda>(k, v). (to_valid_utf8 k, json_string v)) m) cur = Some m'"
    by (induction m arbitrary: cur) auto
  then show ?thesis by (simp add: json_map_def)
qed

lemma harmless_metadata: "harmless (''metadata'', json_map m)"
proof -
  have "\<exists>r'. put_job ''metadata'' (json_map m) r = Some r'
      \<and> job_MailID r' = job_MailID r \<and> job_RetryCount r' = job_RetryCount r" for r
    using dec_map_total [of m "job_Metadata r"] by (auto simp: put_job_def)
  then show ?thesis by (simp add: harmless_def ascii_lower_def)
qed

lemma harmless_members:
  "harmless (''from'', json_string s)" "harmless (''subject'', json_string s)"
  "harmless (''body'', json_string s)" "harmless (''html'', json_string s)"
  "harmless (''sender_config_id'', json_string s)"
  "harmless (''to'', json_strings xs)" "harmless (''cc'', json_strings xs)" "harmless (''bcc'', json_strings xs)"
  "harmless (''attachments'', JA (map marshal_info as))"
  using dec_infos_total [of as]
  by (auto simp: harmless_def put_job_def ascii_lower_def dec_json_strings simp del: dec_infos.simps)

lemma harmless_omit: "harmless (k, v) \<Longrightarrow> list_all harmless (omit_if b k v)"
  by (cases b) simp_all

lemma unmarshal_total:
  "\<exists>j'. unmarshal_job (Json (marshal_job j)) = Some j' \<and> job_MailID j' = to_valid_utf8 (job_MailID j)
     \<and> job_RetryCount j' = job_RetryCount j"
proof -
  define pre where "pre = [(''from'', json_string (job_FromAddress j)), (''to'', json_strings (job_ToAddresses j))]
     @ omit_if (job_CCAddresses j = []) ''cc'' (json_strings (job_CCAddresses j))
     @ omit_if (job_BCCAddresses j = []) ''bcc'' (json_strings (job_BCCAddresses j))
     @ [(''subject'', json_string (job_Subject j))]
     @ omit_if (job_Body j = []) ''body'' (json_string (job_Body j))
     @ omit_if (job_HTML j = []) ''html'' (json_string (job_HTML j))
     @ omit_if (job_Attachments j = []) ''attachments'' (JA (map marshal_info (job_Attachments j)))
     @ omit_if (job_Metadata j = []) ''metadata'' (json_map (job_Metadata j))"
  define post where "post = omit_if (job_SenderConfigID j = []) ''sender_config_id'' (json_string (job_SenderConfigID j))"
  have kvs: "marshal_job j = JO ((''mail_id'', json_string (job_MailID j)) # pre
      @ (''retry_count'', json_int (job_RetryCount j)) # post)" "list_all harmless pre" "list_all harmless post"
    by (simp_all add: marshal_job_def pre_def post_def harmless_members harmless_metadata harmless_omit)
  let ?r0 = "zero_job\<lparr>job_MailID := to_valid_utf8 (job_MailID j)\<rparr>"
  have id: "put_job (map ascii_lower ''mail_id'') (json_string (job_MailID j)) zero_job = Some ?r0"
    by (simp add: put_job_def ascii_lower_def)
  from harmless_fields [OF kvs(2), of ?r0] obtain r1
    where r1: "dec_fields put_job pre ?r0 = Some r1" "job_MailID r1 = to_valid_utf8 (job_MailID j)" by auto
  let ?r2 = "r1\<lparr>job_RetryCount := job_RetryCount j\<rparr>"
  have n: "put_job (map ascii_lower ''retry_count'') (json_int (job_RetryCount j)) r1 = Some ?r2"
    by (simp add: put_job_def ascii_lower_def)
  from harmless_fields [OF kvs(3), of ?r2] obtain r3 where "dec_fields put_job post ?r2 = Some r3"
      "job_MailID r3 = to_valid_utf8 (job_MailID j)" "job_RetryCount r3 = job_RetryCount j" using r1(2) by auto
  with id r1(1) n kvs(1) show ?thesis by (simp add: unmarshal_job_def dec_fields_append)
qed

end
