(* ===== verification/Broker.thy ===== *)
theory Broker
  imports Models
begin

text \<open>
  The message broker as the program sees it through AMQP: declared queues with their
  contents in order, exchanges and bindings, the dead letter exchange of a queue, and the
  deliveries that are not acknowledged yet. Publishing to the default exchange (the empty
  name) reaches the queue named by the routing key; publishing to a direct exchange
  reaches the queues bound with that key; a message that reaches no queue is dropped. A
  rejected delivery is put back at the head of its queue, or dead-lettered: published to
  the queue's dead letter exchange under its own routing key.
\<close>

record message =
  msg_RoutingKey :: string
  msg_Body :: payload
  msg_ContentType :: string
  msg_Persistent :: bool
  msg_Headers :: "(string \<times> go_int) list"

record broker =
  bk_queues :: "string \<Rightarrow> message list option"
  bk_dlx :: "string \<Rightarrow> string option"
  bk_exchanges :: "string list"
  bk_bindings :: "(string \<times> string \<times> string) list"
  bk_unacked :: "(nat \<times> string \<times> message) list"
  bk_next_tag :: nat

definition empty_broker :: broker where
  "empty_broker =
     \<lparr>bk_queues = Map.empty, bk_dlx = Map.empty, bk_exchanges = [], bk_bindings = [],
      bk_unacked = [], bk_next_tag = 0\<rparr>"

section \<open>Topology\<close>

definition exchange_declare :: "string \<Rightarrow> broker \<Rightarrow> broker" where
  "exchange_declare ex b =
     (if ex \<in> set (bk_exchanges b) then b else b\<lparr>bk_exchanges := ex # bk_exchanges b\<rparr>)"

definition queue_declare :: "string \<Rightarrow> string option \<Rightarrow> broker \<Rightarrow> broker" where
  "queue_declare q dlx b =
     (case bk_queues b q of
        Some _ \<Rightarrow> b
      | None \<Rightarrow> b\<lparr>bk_queues := (bk_queues b)(q \<mapsto> []), bk_dlx := (bk_dlx b)(q := dlx)\<rparr>)"

definition queue_bind :: "string \<Rightarrow> string \<Rightarrow> string \<Rightarrow> broker \<Rightarrow> broker" where
  "queue_bind q key ex b =
     (if (ex, key, q) \<in> set (bk_bindings b) then b
      else b\<lparr>bk_bindings := (ex, key, q) # bk_bindings b\<rparr>)"

section \<open>Routing\<close>

definition route :: "broker \<Rightarrow> string \<Rightarrow> string \<Rightarrow> string list" where
  "route b ex key =
     (if ex = [] then (if bk_queues b key = None then [] else [key])
      else map (\<lambda>(e, k, q). q) (filter (\<lambda>(e, k, q). e = ex \<and> k = key) (bk_bindings b)))"

definition enqueue :: "message \<Rightarrow> string \<Rightarrow> broker \<Rightarrow> broker" where
  "enqueue m q b =
     (case bk_queues b q of
        None \<Rightarrow> b
      | Some ms \<Rightarrow> b\<lparr>bk_queues := (bk_queues b)(q \<mapsto> ms @ [m])\<rparr>)"

definition publish_to :: "string \<Rightarrow> message \<Rightarrow> broker \<Rightarrow> broker" where
  "publish_to ex m b = fold (enqueue m) (route b ex (msg_RoutingKey m)) b"

section \<open>Deliveries\<close>

definition deliver :: "string \<Rightarrow> broker \<Rightarrow> ((nat \<times> message) \<times> broker) option" where
  "deliver q b =
     (case bk_queues b q of
        Some (m # ms) \<Rightarrow>
          Some ((bk_next_tag b, m),
                b\<lparr>bk_queues := (bk_queues b)(q \<mapsto> ms),
                  bk_unacked := (bk_next_tag b, q, m) # bk_unacked b,
                  bk_next_tag := Suc (bk_next_tag b)\<rparr>)
      | _ \<Rightarrow> None)"

definition ack :: "nat \<Rightarrow> broker \<Rightarrow> broker" where
  "ack tag b = b\<lparr>bk_unacked := filter (\<lambda>(t, q, m). t \<noteq> tag) (bk_unacked b)\<rparr>"

definition requeue :: "string \<Rightarrow> message \<Rightarrow> broker \<Rightarrow> broker" where
  "requeue q m b =
     (case bk_queues b q of
        None \<Rightarrow> b
      | Some ms \<Rightarrow> b\<lparr>bk_queues := (bk_queues b)(q \<mapsto> m # ms)\<rparr>)"

definition dead_letter :: "string \<Rightarrow> message \<Rightarrow> broker \<Rightarrow> broker" where
  "dead_letter q m b = (case bk_dlx b q of None \<Rightarrow> b | Some ex \<Rightarrow> publish_to ex m b)"

definition nack :: "nat \<Rightarrow> bool \<Rightarrow> broker \<Rightarrow> broker" where
  "nack tag again b =
     (case find (\<lambda>(t, q, m). t = tag) (bk_unacked b) of
        None \<Rightarrow> b
      | Some (_, q, m) \<Rightarrow> (if again then requeue q m else dead_letter q m) (ack tag b))"

section \<open>Facts\<close>

text \<open>Everything the broker holds of a queue: what waits in it and what is out for delivery.\<close>

definition queue_of :: "broker \<Rightarrow> string \<Rightarrow> message list" where
  "queue_of b q = (case bk_queues b q of None \<Rightarrow> [] | Some ms \<Rightarrow> ms)"

lemma route_default [simp]: "bk_queues b key = Some ms \<Longrightarrow> route b [] key = [key]"
  by (simp add: route_def)

lemma queue_of_enqueue:
  "queue_of (enqueue m q b) q'
     = (if q' = q \<and> bk_queues b q \<noteq> None then queue_of b q @ [m] else queue_of b q')"
  by (auto simp: enqueue_def queue_of_def split: option.splits)

lemma enqueue_declared [simp]: "(bk_queues (enqueue m q b) q' = None) = (bk_queues b q' = None)"
  by (auto simp: enqueue_def split: option.splits)

lemma enqueue_fields [simp]:
  "bk_dlx (enqueue m q b) = bk_dlx b" "bk_exchanges (enqueue m q b) = bk_exchanges b"
  "bk_bindings (enqueue m q b) = bk_bindings b" "bk_unacked (enqueue m q b) = bk_unacked b"
  "bk_next_tag (enqueue m q b) = bk_next_tag b"
  by (simp_all add: enqueue_def split: option.splits)

lemma fold_enqueue_fields [simp]:
  "bk_dlx (fold (enqueue m) qs b) = bk_dlx b" "bk_bindings (fold (enqueue m) qs b) = bk_bindings b"
  "bk_unacked (fold (enqueue m) qs b) = bk_unacked b"
  "(bk_queues (fold (enqueue m) qs b) q = None) = (bk_queues b q = None)"
  by (induction qs arbitrary: b) simp_all

lemma publish_fields [simp]:
  "bk_dlx (publish_to ex m b) = bk_dlx b" "bk_bindings (publish_to ex m b) = bk_bindings b"
  "bk_unacked (publish_to ex m b) = bk_unacked b"
  "(bk_queues (publish_to ex m b) q = None) = (bk_queues b q = None)"
  by (simp_all add: publish_to_def)

text \<open>Publishing through the default exchange to a declared queue appends to it alone.\<close>

lemma publish_default:
  "bk_queues b (msg_RoutingKey m) \<noteq> None \<Longrightarrow>
   queue_of (publish_to [] m b) q
     = (if q = msg_RoutingKey m then queue_of b q @ [m] else queue_of b q)"
  by (auto simp: publish_to_def queue_of_enqueue)

lemma publish_undeclared:
  "bk_queues b (msg_RoutingKey m) = None \<Longrightarrow> publish_to [] m b = b"
  by (simp add: publish_to_def route_def)

lemma ack_fields [simp]:
  "bk_queues (ack tag b) = bk_queues b" "bk_dlx (ack tag b) = bk_dlx b"
  "bk_bindings (ack tag b) = bk_bindings b" "bk_exchanges (ack tag b) = bk_exchanges b"
  "bk_unacked (ack tag b) = filter (\<lambda>(t, q, m). t \<noteq> tag) (bk_unacked b)"
  by (simp_all add: ack_def)

lemma queue_of_ack [simp]: "queue_of (ack tag b) q = queue_of b q"
  by (simp add: queue_of_def)

text \<open>
  A dead-lettered message whose routing key no binding of the dead letter exchange has
  reaches no queue.
\<close>

lemma dead_letter_unbound:
  assumes "bk_dlx b q = Some ex" "ex \<noteq> []"
    and "\<forall>(e, k, q')\<in>set (bk_bindings b). e = ex \<longrightarrow> k \<noteq> msg_RoutingKey m"
  shows "dead_letter q m b = b"
proof -
  have "route b ex (msg_RoutingKey m) = []"
    using assms(2,3) by (auto simp: route_def filter_empty_conv)
  then show ?thesis by (simp add: dead_letter_def assms(1) publish_to_def)
qed

end
