(* ===== verification/GoBase64.thy ===== *)
theory GoBase64
  imports GoStrings
begin

text \<open>
  \<open>base64.StdEncoding\<close>: three bytes are four digits of the standard alphabet, with
  \<open>=\<close> for the digits a short last group lacks. Decoding skips carriage returns and line
  feeds, takes padding only in the last group and nothing after it, and ignores the
  low bits that a short group leaves over. The byte position in the error text of the
  library is not modelled: a failed decoding is \<open>None\<close>.
\<close>

definition b64_alphabet :: string where
  "b64_alphabet = ''ABCDEFGHIJKLMNOPQRSTUVWXYZabcdefghijklmnopqrstuvwxyz0123456789+/''"

definition b64_char :: "nat \<Rightarrow> char" where
  "b64_char d = b64_alphabet ! d"

definition b64_val :: "char \<Rightarrow> nat option" where
  "b64_val c =
     (let n = (of_char c :: nat) in
      if 65 \<le> n \<and> n \<le> 90 then Some (n - 65)
      else if 97 \<le> n \<and> n \<le> 122 then Some (n - 71)
      else if 48 \<le> n \<and> n \<le> 57 then Some (n + 4)
      else if n = 43 then Some 62
      else if n = 47 then Some 63
      else None)"

definition pad :: char where "pad = CHR ''=''"

text \<open>Digit \<open>i\<close> of a 24-bit group, from the left; byte \<open>i\<close> of it, from the left.\<close>

definition dig :: "nat \<Rightarrow> nat \<Rightarrow> nat" where
  "dig i n = n div 64 ^ (3 - i) mod 64"

definition byt :: "nat \<Rightarrow> nat \<Rightarrow> char" where
  "byt i n = char_of (n div 256 ^ (2 - i) mod 256)"

definition triple :: "nat \<Rightarrow> nat \<Rightarrow> nat \<Rightarrow> nat" where
  "triple a b c = a * 65536 + b * 256 + c"

fun b64_encode :: "bytes \<Rightarrow> string" where
  "b64_encode [] = []"
| "b64_encode [a] =
     (let n = triple (of_char a) 0 0 in
      [b64_char (dig 0 n), b64_char (dig 1 n), pad, pad])"
| "b64_encode [a, b] =
     (let n = triple (of_char a) (of_char b) 0 in
      [b64_char (dig 0 n), b64_char (dig 1 n), b64_char (dig 2 n), pad])"
| "b64_encode (a # b # c # r) =
     (let n = triple (of_char a) (of_char b) (of_char c) in
      [b64_char (dig 0 n), b64_char (dig 1 n), b64_char (dig 2 n), b64_char (dig 3 n)]
      @ b64_encode r)"

definition quad :: "nat \<Rightarrow> nat \<Rightarrow> nat \<Rightarrow> nat \<Rightarrow> nat" where
  "quad d0 d1 d2 d3 = ((d0 * 64 + d1) * 64 + d2) * 64 + d3"

fun b64_groups :: "string \<Rightarrow> bytes option" where
  "b64_groups [] = Some []"
| "b64_groups (c0 # c1 # c2 # c3 # r) =
     (case (b64_val c0, b64_val c1) of
        (Some d0, Some d1) \<Rightarrow>
          if c2 = pad then
            (if c3 = pad \<and> r = [] then Some [byt 0 (quad d0 d1 0 0)] else None)
          else (case b64_val c2 of
                  None \<Rightarrow> None
                | Some d2 \<Rightarrow>
                    if c3 = pad then
                      (if r = [] then Some [byt 0 (quad d0 d1 d2 0), byt 1 (quad d0 d1 d2 0)]
                       else None)
                    else (case (b64_val c3, b64_groups r) of
                            (Some d3, Some bs) \<Rightarrow>
                              Some (byt 0 (quad d0 d1 d2 d3) # byt 1 (quad d0 d1 d2 d3)
                                    # byt 2 (quad d0 d1 d2 d3) # bs)
                          | _ \<Rightarrow> None))
      | _ \<Rightarrow> None)"
| "b64_groups _ = None"

definition b64_decode :: "string \<Rightarrow> bytes option" where
  "b64_decode s = b64_groups (filter (\<lambda>c. c \<noteq> CHR 0x0A \<and> c \<noteq> CHR 0x0D) s)"

section \<open>The round trip\<close>

lemma b64_digits:
  "list_all2 (\<lambda>d c. b64_val c = Some d \<and> c \<noteq> pad \<and> c \<noteq> CHR 0x0A \<and> c \<noteq> CHR 0x0D)
     [0..<64] b64_alphabet"
  by (simp add: b64_alphabet_def b64_val_def pad_def upt_rec [of 0 "numeral k" for k]
      upt_rec [of "Suc 0" "numeral k" for k] numeral_2_eq_2 [symmetric])

lemma b64_digit:
  assumes "d < 64"
  shows "b64_val (b64_char d) = Some d \<and> b64_char d \<noteq> pad
    \<and> b64_char d \<noteq> CHR 0x0A \<and> b64_char d \<noteq> CHR 0x0D"
  using list_all2_nthD [OF b64_digits, of d] assms by (simp add: b64_char_def)

lemma b64_val_char [simp]: "d < 64 \<Longrightarrow> b64_val (b64_char d) = Some d"
  and b64_char_not_pad [simp]: "d < 64 \<Longrightarrow> b64_char d \<noteq> pad"
  and b64_char_not_lf [simp]: "d < 64 \<Longrightarrow> b64_char d \<noteq> CHR 0x0A"
  and b64_char_not_cr [simp]: "d < 64 \<Longrightarrow> b64_char d \<noteq> CHR 0x0D"
  using b64_digit by auto

lemma of_char_bound: "(of_char c :: nat) < 256"
proof -
  have "of_char c = (of_char c :: nat) mod 256" by simp
  then show ?thesis by (metis mod_less_divisor zero_less_numeral)
qed

lemma dig_bound [simp]: "dig i n < 64"
  by (simp add: dig_def)

lemma dig_step: "n div 64 ^ Suc k * 64 + n div 64 ^ k mod 64 = n div 64 ^ (k :: nat)" for n :: nat
  by (simp add: div_mult2_eq mult.commute [of 64] del: div_mult2_eq')

lemma quad_prefix:
  assumes "n < 16777216"
  shows "quad (dig 0 n) (dig 1 n) (dig 2 n) (dig 3 n) = n"
    and "quad (dig 0 n) (dig 1 n) (dig 2 n) 0 = n div 64 * 64"
    and "quad (dig 0 n) (dig 1 n) 0 0 = n div 4096 * 4096"
proof -
  have 0: "dig 0 n = n div 262144" using assms by (simp add: dig_def)
  have 1: "n div 262144 * 64 + dig 1 n = n div 4096"
    using dig_step [of n 2] by (simp add: dig_def)
  have 2: "n div 4096 * 64 + dig 2 n = n div 64"
    using dig_step [of n 1] by (simp add: dig_def)
  have 3: "n div 64 * 64 + dig 3 n = n"
    using dig_step [of n 0] by (simp add: dig_def)
  show "quad (dig 0 n) (dig 1 n) (dig 2 n) (dig 3 n) = n"
    "quad (dig 0 n) (dig 1 n) (dig 2 n) 0 = n div 64 * 64"
    "quad (dig 0 n) (dig 1 n) 0 0 = n div 4096 * 4096"
    unfolding quad_def 0 1 2 3 by simp_all
qed

lemma group_bytes:
  fixes a b c :: nat
  assumes "a < 256" "b < 256" "c < 256"
  shows "triple a b c < 16777216" "byt 0 (triple a b c) = char_of a"
    "byt 1 (triple a b c) = char_of b" "byt 2 (triple a b c) = char_of c"
proof -
  have g: "triple a b c = c + 256 * (b + 256 * a)" by (simp add: triple_def)
  have d1: "triple a b c div 256 = b + 256 * a" unfolding g using assms(3) by simp
  have d2: "triple a b c div 65536 = a"
  proof -
    have "triple a b c div 65536 = triple a b c div 256 div 256" by (simp add: div_mult2_eq [symmetric])
    also have "\<dots> = a" unfolding d1 using assms(2) by simp
    finally show ?thesis .
  qed
  show "triple a b c < 16777216" using assms by (simp add: triple_def)
  show "byt 0 (triple a b c) = char_of a" using assms(1) d2 by (simp add: byt_def)
  show "byt 1 (triple a b c) = char_of b" using assms(2) d1 by (simp add: byt_def)
  have "triple a b c mod 256 = c"
    unfolding g mod_mult_self2 using assms(3) by (rule mod_less)
  then show "byt 2 (triple a b c) = char_of c" by (simp add: byt_def)
qed

lemma group_short:
  "triple a 0 0 div 4096 * 4096 = triple a 0 0" "triple a b 0 div 64 * 64 = triple a b 0"
proof -
  have "(4096::nat) dvd triple a 0 0" "(64::nat) dvd triple a b 0"
    by (auto simp: triple_def intro!: dvd_add dvd_mult)
  then show "triple a 0 0 div 4096 * 4096 = triple a 0 0" "triple a b 0 div 64 * 64 = triple a b 0"
    by simp_all
qed

lemmas group_of_chars =
  group_bytes [OF of_char_bound of_char_bound of_char_bound]
  group_bytes [OF of_char_bound of_char_bound, of 0]
  group_bytes [OF of_char_bound, of 0 0]

lemma b64_encode_no_newline:
  "filter (\<lambda>c. c \<noteq> CHR 0x0A \<and> c \<noteq> CHR 0x0D) (b64_encode s) = b64_encode s"
  by (induction s rule: b64_encode.induct) (simp_all add: Let_def pad_def)

lemma b64_groups_encode: "b64_groups (b64_encode s) = Some s"
  by (induction s rule: b64_encode.induct)
     (simp_all add: Let_def quad_prefix group_of_chars group_short del: One_nat_def)

lemma b64_decode_encode [simp]: "b64_decode (b64_encode s) = Some s"
  by (simp add: b64_decode_def b64_encode_no_newline b64_groups_encode)

end
