(* ===== verification/GoPath.thy ===== *)
theory GoPath
  imports GoStrings
begin

text \<open>
  \<open>path/filepath\<close> of Go on Unix, as far as the program calls it: \<open>Clean\<close>, \<open>Join\<close>,
  \<open>Base\<close> and \<open>Dir\<close>, all purely lexical. A path is cut at its slashes and the elements
  are pushed on a stack; an element \<open>..\<close> pops the one before it, stays in front of a
  relative path, and is dropped at the root.
\<close>

definition slash :: char where "slash = CHR ''/''"

definition clean_step :: "bool \<Rightarrow> string list \<Rightarrow> string \<Rightarrow> string list" where
  "clean_step rooted st e =
     (if e = [] \<or> e = ''.'' then st
      else if e = ''..'' then
        (case st of
           [] \<Rightarrow> if rooted then [] else [e]
         | x # xs \<Rightarrow> if x = ''..'' then e # st else xs)
      else e # st)"

definition clean_stack :: "bool \<Rightarrow> string list \<Rightarrow> string list" where
  "clean_stack rooted es = foldl (clean_step rooted) [] es"

definition rooted :: "string \<Rightarrow> bool" where
  "rooted p \<longleftrightarrow> p \<noteq> [] \<and> hd p = slash"

definition render :: "bool \<Rightarrow> string list \<Rightarrow> string" where
  "render r st = (if r then slash # join_with [slash] (rev st)
                  else if st = [] then ''.'' else join_with [slash] (rev st))"

definition elements :: "string \<Rightarrow> string list" where
  "elements p = split_on slash p"

definition Clean :: "string \<Rightarrow> string" where
  "Clean p = (if p = [] then ''.'' else render (rooted p) (clean_stack (rooted p) (elements p)))"

definition path_Join :: "string list \<Rightarrow> string" where
  "path_Join es =
     (case dropWhile (\<lambda>e. e = []) es of
        [] \<Rightarrow> []
      | e # es' \<Rightarrow> Clean (join_with [slash] (e # es')))"

definition Base :: "string \<Rightarrow> string" where
  "Base p =
     (if p = [] then ''.''
      else let q = rev (dropWhile (\<lambda>c. c = slash) (rev p));
               r = last (elements q)
           in if r = [] then [slash] else r)"

definition Dir :: "string \<Rightarrow> string" where
  "Dir p = Clean (rev (dropWhile (\<lambda>c. c \<noteq> slash) (rev p)))"

section \<open>Lexical facts\<close>

text \<open>A plain name is an element that neither is skipped nor moves up.\<close>

definition plain_name :: "string \<Rightarrow> bool" where
  "plain_name e \<longleftrightarrow> e \<noteq> [] \<and> e \<noteq> ''.'' \<and> e \<noteq> ''..'' \<and> slash \<notin> set e"

lemma clean_step_plain [simp]: "plain_name e \<Longrightarrow> clean_step r st e = e # st"
  by (simp add: clean_step_def plain_name_def)

lemma clean_stack_append:
  "clean_stack r (xs @ ys) = foldl (clean_step r) (clean_stack r xs) ys"
  by (simp add: clean_stack_def)

lemma join_with_snoc:
  "xs \<noteq> [] \<Longrightarrow> join_with sep (xs @ [x]) = join_with sep xs @ sep @ x"
  by (induction sep xs rule: join_with.induct) auto

lemma join_with_append:
  "xs \<noteq> [] \<Longrightarrow> ys \<noteq> [] \<Longrightarrow> join_with sep (xs @ ys) = join_with sep xs @ sep @ join_with sep ys"
proof (induction sep xs rule: join_with.induct)
  case (2 sep x)
  then show ?case by (cases ys) auto
qed auto

lemma rooted_append [simp]: "p \<noteq> [] \<Longrightarrow> rooted (p @ q) = rooted p"
  by (simp add: rooted_def)

lemma elements_append:
  "elements (p @ slash # q) = elements p @ elements q"
  by (simp add: elements_def split_on_append)

lemma elements_plain: "slash \<notin> set e \<Longrightarrow> elements e = [e]"
  by (simp add: elements_def split_on_single)

lemma render_Cons:
  "render r (e # st) = (if st = [] then (if r then slash # e else e) else render r st @ slash # e)"
  by (simp add: render_def join_with_snoc)

text \<open>Appending a plain name to a path appends it to the cleaned path.\<close>

lemma clean_stack_snoc:
  "p \<noteq> [] \<Longrightarrow> plain_name e \<Longrightarrow>
   clean_stack (rooted (p @ slash # e)) (elements (p @ slash # e))
     = e # clean_stack (rooted p) (elements p)"
  by (simp add: elements_append elements_plain plain_name_def clean_stack_append
      clean_step_def)

lemma Clean_snoc:
  assumes "p \<noteq> []" "plain_name e" "clean_stack (rooted p) (elements p) \<noteq> []"
  shows "Clean (p @ slash # e) = Clean p @ slash # e"
  using assms by (simp add: Clean_def clean_stack_snoc render_Cons del: rooted_append)
    (simp add: rooted_def)

text \<open>No element of a cleaned path is empty or a dot, and in a rooted one none is \<open>..\<close>.\<close>

lemma clean_step_rooted_plain:
  "list_all plain_name st \<Longrightarrow> slash \<notin> set e \<Longrightarrow> list_all plain_name (clean_step True st e)"
  by (auto simp: clean_step_def plain_name_def split: list.splits)

lemma foldl_rooted_plain:
  "list_all plain_name st \<Longrightarrow> \<forall>e\<in>set es. slash \<notin> set e \<Longrightarrow>
   list_all plain_name (foldl (clean_step True) st es)"
  by (induction es arbitrary: st) (auto simp: clean_step_rooted_plain)

lemma elements_no_slash: "e \<in> set (elements p) \<Longrightarrow> slash \<notin> set e"
  unfolding elements_def by (rule split_on_no_sep)

lemma clean_stack_rooted_plain: "list_all plain_name (clean_stack True (elements p))"
  unfolding clean_stack_def by (rule foldl_rooted_plain) (auto dest: elements_no_slash)

lemma elements_join:
  "es \<noteq> [] \<Longrightarrow> \<forall>e\<in>set es. slash \<notin> set e \<Longrightarrow> elements (join_with [slash] es) = es"
proof (induction "[slash]" es rule: join_with.induct)
  case (2 x)
  then show ?case by (simp add: elements_plain)
next
  case (3 x y zs)
  then show ?case by (simp add: elements_append elements_plain)
qed auto

lemma foldl_plain:
  "list_all plain_name es \<Longrightarrow> foldl (clean_step r) st es = rev es @ st"
  by (induction es arbitrary: st) auto

text \<open>Cleaning a rooted path twice changes nothing more.\<close>

lemma Clean_rooted_idem:
  assumes "rooted p"
  shows "Clean (Clean p) = Clean p"
proof -
  define st where "st = clean_stack True (elements p)"
  have st: "list_all plain_name st"
    unfolding st_def by (rule clean_stack_rooted_plain)
  have c: "Clean p = slash # join_with [slash] (rev st)"
    using assms by (auto simp: Clean_def render_def st_def rooted_def)
  have e: "elements (slash # join_with [slash] (rev st)) = [] # (if st = [] then [[]] else rev st)"
  proof -
    have "elements ([] @ slash # join_with [slash] (rev st))
        = elements [] @ elements (join_with [slash] (rev st))"
      by (rule elements_append)
    moreover have "st \<noteq> [] \<Longrightarrow> elements (join_with [slash] (rev st)) = rev st"
      using st by (intro elements_join) (auto simp: list_all_iff plain_name_def)
    ultimately show ?thesis by (auto simp: elements_def)
  qed
  have "clean_stack True (elements (slash # join_with [slash] (rev st))) = st"
    using st by (auto simp: e clean_stack_def clean_step_def [of True "[]" "[]"] foldl_plain)
  then have "Clean (slash # join_with [slash] (rev st)) = slash # join_with [slash] (rev st)"
    by (simp add: Clean_def rooted_def render_def)
  then show ?thesis by (simp only: c)
qed

lemma Base_no_slash: "Base p = [slash] \<or> slash \<notin> set (Base p)"
proof -
  have "slash \<notin> set (last (elements q))" for q
    by (rule elements_no_slash [of _ q]) (simp add: elements_def)
  then show ?thesis by (auto simp: Base_def Let_def)
qed

lemma Base_nonempty [simp]: "Base p \<noteq> []"
  by (simp add: Base_def Let_def)

lemma Base_plain:
  "Base p \<noteq> ''.'' \<Longrightarrow> Base p \<noteq> ''..'' \<Longrightarrow> Base p \<noteq> [slash] \<Longrightarrow> plain_name (Base p)"
  using Base_no_slash [of p] by (auto simp: plain_name_def)

lemma Base_of_plain: "plain_name e \<Longrightarrow> Base e = e"
proof -
  assume e: "plain_name e"
  then have "dropWhile (\<lambda>c. c = slash) (rev e) = rev e"
    by (cases "rev e") (auto simp: plain_name_def)
  with e show ?thesis by (simp add: Base_def elements_plain plain_name_def)
qed

lemma last_elements_plain: "slash \<notin> set e \<Longrightarrow> last (elements (p @ slash # e)) = e"
  by (simp add: elements_append elements_plain)

text \<open>The base of a path that ends in a plain name is that name, whatever comes before.\<close>

lemma Base_snoc: "plain_name e \<Longrightarrow> Base (p @ slash # e) = e"
proof -
  assume e: "plain_name e"
  then have "dropWhile (\<lambda>c. c = slash) (rev (p @ slash # e)) = rev (p @ slash # e)"
    by (cases "rev e") (auto simp: plain_name_def)
  with e show ?thesis
    by (simp add: Base_def last_elements_plain plain_name_def del: rev_append rev.simps)
qed

end
