(* ===== verification/World.thy ===== *)
theory World
  imports Tables Broker GoBase64 GoPath "HOL-Library.Multiset"
begin

text \<open>
  The state the processes share and the calls that leave them. The record \<open>ext\<close> holds
  what the code under \<open>src/\<close> does not define: the libraries (UUIDs, JWT, MIME parsing,
  hashing), the clock, and the outcome of every call to a service. Every external call
  reads the counter \<open>ticks\<close> and moves it on, and its outcome is the parameter's value at
  that count, so a statement for every \<open>ext\<close> covers every pattern of failures. The record
  \<open>world\<close> holds what the services keep: tables, cache, broker, files, and the log of what
  was sent out. A failed call changes nothing but the counter.
\<close>

section \<open>Panics\<close>

text \<open>A call that may panic: the value it returns, or the fact that it panicked.\<close>

datatype 'a outcome = Returns 'a | Panics

section \<open>Libraries and services as parameters\<close>

datatype mime_part =
    PartEOF
  | PartError go_error
  | PartInline string bytes \<comment> \<open>content type and content\<close>
  | PartAttachment string string "(string \<times> string) list option" "string \<Rightarrow> string"
      "go_error + bytes"
      \<comment> \<open>file name, content type, parameters of the content type, other headers, content\<close>

record mime_reader =
  mr_Subject :: string
  mr_AddressList :: "string \<Rightarrow> go_error + string list"
  mr_part :: "nat \<Rightarrow> mime_part" \<comment> \<open>what the n-th call of \<open>NextPart\<close> yields\<close>

record jwt_token =
  jwt_hmac :: bool \<comment> \<open>whether the header names an HMAC method\<close>
  jwt_claims :: "(string \<times> jv) list option" \<comment> \<open>the claims, when they are an object\<close>

record ext =
  x_lower :: "string \<Rightarrow> string"
  x_uuid :: "nat \<Rightarrow> uuid"
  x_uuid_string :: "uuid \<Rightarrow> string"
  x_uuid_parse :: "string \<Rightarrow> go_error + uuid"
  x_pg_uuid :: "string \<Rightarrow> uuid option" \<comment> \<open>the identifier a text denotes in SQL\<close>
  x_clock :: "nat \<Rightarrow> int"
  x_date :: "int \<Rightarrow> nat \<times> nat \<times> nat"
  x_rfc3339_utc :: "int \<Rightarrow> string"
  x_rfc3339_local :: "int \<Rightarrow> string"
  x_json_time :: "int \<Rightarrow> string"
  x_db :: "nat \<Rightarrow> go_error option"
  x_tie :: "nat \<Rightarrow> uuid \<Rightarrow> nat" \<comment> \<open>how a query orders rows of equal age\<close>
  x_mq :: "nat \<Rightarrow> go_error option"
  x_kv :: "nat \<Rightarrow> go_error option"
  x_fs :: "nat \<Rightarrow> go_error option"
  x_http :: "nat \<Rightarrow> go_error + (nat \<times> payload)"
  x_bad_url :: "string \<Rightarrow> go_error option"
  x_sendgrid :: "nat \<Rightarrow> go_error + (int \<times> string)"
  x_json_text :: "payload \<Rightarrow> string"
  x_json_error :: "payload \<Rightarrow> go_error"
  x_base64_error :: "string \<Rightarrow> go_error"
  x_nonce :: "nat \<Rightarrow> go_error + bytes"
  x_aes :: "bytes \<Rightarrow> bytes \<Rightarrow> bytes"
  x_ghash :: "bytes \<Rightarrow> bytes \<Rightarrow> bytes"
  x_sha256 :: "bytes \<Rightarrow> bytes"
  x_jwt_sign :: "(string \<times> jv) list \<Rightarrow> string \<Rightarrow> go_error + string"
  x_jwt_decode :: "string \<Rightarrow> jwt_token option"
  x_jwt_verify :: "string \<Rightarrow> string \<Rightarrow> bool"
  x_jwt_current :: "int \<Rightarrow> (string \<times> jv) list \<Rightarrow> bool"
    \<comment> \<open>whether the registered time claims accept this moment\<close>
  x_is_email :: "string \<Rightarrow> bool"
  x_mime :: "bytes \<Rightarrow> go_error + mime_reader"

section \<open>Shared state\<close>

record oauth_service =
  os_tenantID :: string
  os_clientID :: string
  os_clientSecret :: string
  os_accessToken :: string
  os_expiresAt :: int

record sg_attachment =
  sga_Content :: string
  sga_Type :: string
  sga_Filename :: string
  sga_Disposition :: string

record sg_mail =
  sg_From :: string
  sg_Subject :: string
  sg_Tos :: "string list"
  sg_CCs :: "string list"
  sg_BCCs :: "string list"
  sg_Content :: "(string \<times> string) list"
  sg_Attachments :: "sg_attachment list"

datatype outbound =
    TokenPost string "(string \<times> string) list"
  | GraphPost string string jv \<comment> \<open>address, bearer token, request\<close>
  | SendGridPost sg_mail

record world =
  mails :: "mail list"
  tokens :: "client_token list"
  configs :: "email_sender_config list"
  cache :: "string \<Rightarrow> (payload \<times> int option) option"
  broker :: broker
  mq_conns :: nat
  mq_chans :: nat
  files :: "string \<Rightarrow> bytes option"
  timers :: "(go_int \<times> mail_job) list"
  oauth :: oauth_service
  active_jobs :: int
  is_shutdown :: bool
  outbox :: "outbound list"
  ticks :: nat

definition tick :: "(world, nat) state" where
  "tick = State (\<lambda>w. (ticks w, w\<lparr>ticks := Suc (ticks w)\<rparr>))"

lemma run_tick [simp]: "run_state tick w = (ticks w, w\<lparr>ticks := Suc (ticks w)\<rparr>)"
  by (simp add: tick_def)

definition time_Now :: "ext \<Rightarrow> (world, int) state" where
  "time_Now E = do { n \<leftarrow> tick; ret (x_clock E n) }"

definition uuid_New :: "ext \<Rightarrow> (world, uuid) state" where
  "uuid_New E = do { n \<leftarrow> tick; ret (x_uuid E n) }"

lemma run_time_Now [simp]:
  "run_state (time_Now E) w = (x_clock E (ticks w), w\<lparr>ticks := Suc (ticks w)\<rparr>)"
  by (simp add: time_Now_def)

lemma run_uuid_New [simp]:
  "run_state (uuid_New E) w = (x_uuid E (ticks w), w\<lparr>ticks := Suc (ticks w)\<rparr>)"
  by (simp add: uuid_New_def)

section \<open>The database\<close>

datatype gorm_error = ErrRecordNotFound | DBError go_error

fun gorm_text :: "gorm_error \<Rightarrow> go_error" where
  "gorm_text ErrRecordNotFound = ''record not found''"
| "gorm_text (DBError e) = e"

definition duplicate_key :: go_error where
  "duplicate_key = ''ERROR: duplicate key value violates unique constraint (SQLSTATE 23505)''"

text \<open>A statement: the outcome of the call, and the statement itself at the time of the call.\<close>

definition db_exec ::
  "ext \<Rightarrow> (int \<Rightarrow> (world, gorm_error + 'a) state) \<Rightarrow> (world, gorm_error + 'a) state" where
  "db_exec E stmt = do {
     n \<leftarrow> tick;
     case x_db E n of Some e \<Rightarrow> ret (Inl (DBError e)) | None \<Rightarrow> stmt (x_clock E n) }"

text \<open>
  \<open>Create\<close> fills the \<open>autoCreateTime\<close> and \<open>autoUpdateTime\<close> columns; \<open>Update\<close> and
  \<open>Updates\<close> set \<open>autoUpdateTime\<close> of the rows they change.
\<close>

definition stored_mail :: "int \<Rightarrow> mail \<Rightarrow> mail" where
  "stored_mail t m = m\<lparr>mail_CreatedAt := t, mail_UpdatedAt := t,
     mail_Attachments := map (\<lambda>a. a\<lparr>att_MailID := mail_ID m, att_CreatedAt := t\<rparr>) (mail_Attachments m)\<rparr>"

definition mails_Create :: "ext \<Rightarrow> mail \<Rightarrow> (world, gorm_error + mail) state" where
  "mails_Create E m = db_exec E (\<lambda>t. do {
     ms \<leftarrow> gets mails;
     if t_find mail_ID (mail_ID m) ms \<noteq> None then ret (Inl (DBError duplicate_key))
     else do {
       let m' = stored_mail t m;
       modify (\<lambda>w. w\<lparr>mails := t_insert m' (mails w)\<rparr>);
       ret (Inr m') } })"

text \<open>Without \<open>Preload\<close> a query does not load the attachments.\<close>

definition loaded :: "mail \<Rightarrow> mail" where
  "loaded m = m\<lparr>mail_Attachments := []\<rparr>"

text \<open>A text compared with a \<open>uuid\<close> column: a text that is no identifier matches nothing.\<close>

definition id_is :: "ext \<Rightarrow> string \<Rightarrow> uuid \<Rightarrow> bool" where
  "id_is E s i \<longleftrightarrow> x_pg_uuid E s = Some i"

definition mails_First :: "ext \<Rightarrow> (mail \<Rightarrow> bool) \<Rightarrow> (world, gorm_error + mail) state" where
  "mails_First E P = db_exec E (\<lambda>t. do {
     ms \<leftarrow> gets mails;
     ret (case t_first mail_ID P ms of None \<Rightarrow> Inl ErrRecordNotFound | Some m \<Rightarrow> Inr (loaded m)) })"

definition mails_Update ::
  "ext \<Rightarrow> (mail \<Rightarrow> bool) \<Rightarrow> (int \<Rightarrow> mail \<Rightarrow> mail) \<Rightarrow> (world, gorm_error + nat) state" where
  "mails_Update E P f = db_exec E (\<lambda>t. do {
     n \<leftarrow> gets (\<lambda>w. t_count P (mails w));
     modify (\<lambda>w. w\<lparr>mails := t_update P (\<lambda>m. (f t m)\<lparr>mail_UpdatedAt := t\<rparr>) (mails w)\<rparr>);
     ret (Inr n) })"

text \<open>
  \<open>Order("created_at DESC")\<close>, \<open>Offset\<close> and \<open>Limit\<close>; GORM writes no \<open>OFFSET\<close> unless it is
  positive and no \<open>LIMIT\<close> when it is negative. Rows of equal age come in any order, and in
  another one at the next query: \<open>tie\<close> is the choice of the database, by a number for each row.
\<close>

definition newest_first :: "('r \<Rightarrow> nat) \<Rightarrow> ('r \<Rightarrow> int) \<Rightarrow> 'r list \<Rightarrow> 'r list" where
  "newest_first tie created rs = rev (sort_key created (sort_key tie rs))"

lemma length_newest_first [simp]: "length (newest_first tie created rs) = length rs"
  by (simp add: newest_first_def)

lemma newest_first_mset: "mset (newest_first tie created rs) = mset rs"
  by (simp add: newest_first_def)

text \<open>With distinct ages the choice makes no difference.\<close>

lemma newest_first_distinct:
  assumes "distinct (map created rs)"
  shows "newest_first tie created rs = rev (sort_key created rs)"
proof -
  have "sort_key created (sort_key tie rs) = sort_key created rs"
  proof (rule sort_key_inj_key_eq)
    show "mset (sort_key tie rs) = mset (sort_key created rs)" by simp
    show "inj_on created (set (sort_key tie rs))" using assms by (simp add: distinct_map)
    show "sorted (map created (sort_key created rs))" by simp
  qed
  then show ?thesis by (simp add: newest_first_def)
qed

definition page_of :: "int \<Rightarrow> int \<Rightarrow> 'r list \<Rightarrow> 'r list" where
  "page_of offset limit rs =
     (let rest = (if 0 < offset then drop (nat offset) rs else rs) in
      if limit < 0 then rest else take (nat limit) rest)"

definition mails_Count :: "ext \<Rightarrow> (mail \<Rightarrow> bool) \<Rightarrow> (world, gorm_error + nat) state" where
  "mails_Count E P = db_exec E (\<lambda>t. gets (\<lambda>w. Inr (t_count P (mails w))))"

definition mails_Page ::
  "ext \<Rightarrow> (mail \<Rightarrow> bool) \<Rightarrow> int \<Rightarrow> int \<Rightarrow> (world, gorm_error + mail list) state" where
  "mails_Page E P offset limit = db_exec E (\<lambda>t. gets (\<lambda>w. Inr (map loaded
     (page_of offset limit
        (newest_first (\<lambda>m. x_tie E (ticks w) (mail_ID m)) mail_CreatedAt (filter P (mails w)))))))"

definition tokens_Create :: "ext \<Rightarrow> client_token \<Rightarrow> (world, gorm_error + client_token) state" where
  "tokens_Create E k = db_exec E (\<lambda>t. do {
     ts \<leftarrow> gets tokens;
     if t_find tok_ID (tok_ID k) ts \<noteq> None \<or> t_find tok_ClientID (tok_ClientID k) ts \<noteq> None
     then ret (Inl (DBError duplicate_key))
     else do {
       let k' = k\<lparr>tok_CreatedAt := t\<rparr>;
       modify (\<lambda>w. w\<lparr>tokens := t_insert k' (tokens w)\<rparr>);
       ret (Inr k') } })"

definition tokens_First ::
  "ext \<Rightarrow> (client_token \<Rightarrow> bool) \<Rightarrow> (world, gorm_error + client_token) state" where
  "tokens_First E P = db_exec E (\<lambda>t. do {
     ts \<leftarrow> gets tokens;
     ret (case t_first tok_ID P ts of None \<Rightarrow> Inl ErrRecordNotFound | Some k \<Rightarrow> Inr k) })"

definition tokens_Update ::
  "ext \<Rightarrow> (client_token \<Rightarrow> bool) \<Rightarrow> (client_token \<Rightarrow> client_token) \<Rightarrow> (world, gorm_error + nat) state" where
  "tokens_Update E P f = db_exec E (\<lambda>t. do {
     n \<leftarrow> gets (\<lambda>w. t_count P (tokens w));
     modify (\<lambda>w. w\<lparr>tokens := t_update P f (tokens w)\<rparr>);
     ret (Inr n) })"

definition tokens_Find :: "ext \<Rightarrow> (world, gorm_error + client_token list) state" where
  "tokens_Find E = db_exec E (\<lambda>t. gets (\<lambda>w. Inr
     (newest_first (\<lambda>k. x_tie E (ticks w) (tok_ID k)) tok_CreatedAt (tokens w))))"

text \<open>\<open>Save\<close> of a row with a primary key: an update of that row, an insert if there is none.\<close>

definition tokens_Save :: "ext \<Rightarrow> client_token \<Rightarrow> (world, gorm_error + unit) state" where
  "tokens_Save E k = db_exec E (\<lambda>t. do {
     modify (\<lambda>w. w\<lparr>tokens := t_save tok_ID k (tokens w)\<rparr>);
     ret (Inr ()) })"

definition config_key :: "email_sender_config \<Rightarrow> uuid \<times> string" where
  "config_key c = (cfg_ClientTokenID c, cfg_SenderEmail c)"

definition configs_Create ::
  "ext \<Rightarrow> email_sender_config \<Rightarrow> (world, gorm_error + email_sender_config) state" where
  "configs_Create E c = db_exec E (\<lambda>t. do {
     cs \<leftarrow> gets configs;
     if t_find cfg_ID (cfg_ID c) cs \<noteq> None \<or> t_find config_key (config_key c) cs \<noteq> None
     then ret (Inl (DBError duplicate_key))
     else do {
       let c' = c\<lparr>cfg_CreatedAt := t, cfg_UpdatedAt := t\<rparr>;
       modify (\<lambda>w. w\<lparr>configs := t_insert c' (configs w)\<rparr>);
       ret (Inr c') } })"

definition configs_First ::
  "ext \<Rightarrow> (email_sender_config \<Rightarrow> bool) \<Rightarrow> (world, gorm_error + email_sender_config) state" where
  "configs_First E P = db_exec E (\<lambda>t. do {
     cs \<leftarrow> gets configs;
     ret (case t_first cfg_ID P cs of None \<Rightarrow> Inl ErrRecordNotFound | Some c \<Rightarrow> Inr c) })"

definition configs_Find ::
  "ext \<Rightarrow> (email_sender_config \<Rightarrow> bool) \<Rightarrow> (world, gorm_error + email_sender_config list) state" where
  "configs_Find E P =
     db_exec E (\<lambda>t. gets (\<lambda>w. Inr
       (newest_first (\<lambda>c. x_tie E (ticks w) (cfg_ID c)) cfg_CreatedAt (filter P (configs w)))))"

definition configs_Save ::
  "ext \<Rightarrow> email_sender_config \<Rightarrow> (world, gorm_error + email_sender_config) state" where
  "configs_Save E c = db_exec E (\<lambda>t. do {
     let c' = c\<lparr>cfg_UpdatedAt := t\<rparr>;
     modify (\<lambda>w. w\<lparr>configs := t_save cfg_ID c' (configs w)\<rparr>);
     ret (Inr c') })"

text \<open>
  A row that \<open>mails.sender_config_id\<close> still references cannot be deleted (the foreign key
  of \<open>migrations/002_email_sender_configs.sql\<close>).
\<close>

definition foreign_key :: go_error where
  "foreign_key = ''ERROR: update or delete on table violates foreign key constraint (SQLSTATE 23503)''"

definition configs_Delete :: "ext \<Rightarrow> uuid \<Rightarrow> (world, gorm_error + nat) state" where
  "configs_Delete E i = db_exec E (\<lambda>t. do {
     ms \<leftarrow> gets mails;
     if list_ex (\<lambda>m. mail_SenderConfigID m = Some i) ms then ret (Inl (DBError foreign_key))
     else do {
       n \<leftarrow> gets (\<lambda>w. t_count (\<lambda>c. cfg_ID c = i) (configs w));
       modify (\<lambda>w. w\<lparr>configs := t_delete (\<lambda>c. cfg_ID c = i) (configs w)\<rparr>);
       ret (Inr n) } })"

section \<open>Cache, broker, files, HTTP\<close>

definition kv_Set :: "ext \<Rightarrow> string \<Rightarrow> payload \<Rightarrow> go_int \<Rightarrow> (world, go_error + unit) state" where
  "kv_Set E k v ttl = do {
     n \<leftarrow> tick;
     case x_kv E n of
       Some e \<Rightarrow> ret (Inl e)
     | None \<Rightarrow> do {
         modify (\<lambda>w. w\<lparr>cache := (cache w)(k \<mapsto>
           (v, if 0 < sint ttl then Some (x_clock E n + sint ttl) else None))\<rparr>);
         ret (Inr ()) } }"

datatype kv_error = KVNil | KVError go_error

definition kv_Get :: "ext \<Rightarrow> string \<Rightarrow> (world, kv_error + payload) state" where
  "kv_Get E k = do {
     n \<leftarrow> tick;
     case x_kv E n of
       Some e \<Rightarrow> ret (Inl (KVError e))
     | None \<Rightarrow> do {
         c \<leftarrow> gets cache;
         ret (case c k of
                None \<Rightarrow> Inl KVNil
              | Some (v, None) \<Rightarrow> Inr v
              | Some (v, Some t) \<Rightarrow> if x_clock E n < t then Inr v else Inl KVNil) } }"

definition mq_Publish :: "ext \<Rightarrow> string \<Rightarrow> message \<Rightarrow> (world, go_error option) state" where
  "mq_Publish E ex m = do {
     n \<leftarrow> tick;
     case x_mq E n of
       Some e \<Rightarrow> ret (Some e)
     | None \<Rightarrow> do { modify (\<lambda>w. w\<lparr>broker := publish_to ex m (broker w)\<rparr>); ret None } }"

text \<open>Any other call on the broker: opening, declaring, binding.\<close>

definition mq_call :: "ext \<Rightarrow> (world \<Rightarrow> world) \<Rightarrow> (world, go_error option) state" where
  "mq_call E f = do {
     n \<leftarrow> tick;
     case x_mq E n of Some e \<Rightarrow> ret (Some e) | None \<Rightarrow> do { modify f; ret None } }"

definition kv_Ping :: "ext \<Rightarrow> (world, go_error option) state" where
  "kv_Ping E = do { n \<leftarrow> tick; ret (x_kv E n) }"

definition db_Ping :: "ext \<Rightarrow> (world, go_error option) state" where
  "db_Ping E = do { n \<leftarrow> tick; ret (x_db E n) }"

definition mq_Ack :: "nat \<Rightarrow> (world, unit) state" where
  "mq_Ack tag = modify (\<lambda>w. w\<lparr>broker := ack tag (broker w)\<rparr>)"

definition mq_Nack :: "nat \<Rightarrow> bool \<Rightarrow> (world, unit) state" where
  "mq_Nack tag again = modify (\<lambda>w. w\<lparr>broker := nack tag again (broker w)\<rparr>)"

definition fs_MkdirAll :: "ext \<Rightarrow> string \<Rightarrow> (world, go_error + unit) state" where
  "fs_MkdirAll E p = do {
     n \<leftarrow> tick;
     ret (case x_fs E n of Some e \<Rightarrow> Inl e | None \<Rightarrow> Inr ()) }"

definition fs_WriteFile :: "ext \<Rightarrow> string \<Rightarrow> bytes \<Rightarrow> (world, go_error + unit) state" where
  "fs_WriteFile E p d = do {
     n \<leftarrow> tick;
     case x_fs E n of
       Some e \<Rightarrow> ret (Inl e)
     | None \<Rightarrow> do { modify (\<lambda>w. w\<lparr>files := (files w)(p \<mapsto> d)\<rparr>); ret (Inr ()) } }"

definition fs_ReadFile :: "ext \<Rightarrow> string \<Rightarrow> (world, go_error + bytes) state" where
  "fs_ReadFile E p = do {
     n \<leftarrow> tick;
     case x_fs E n of
       Some e \<Rightarrow> ret (Inl e)
     | None \<Rightarrow> do {
         fs \<leftarrow> gets files;
         ret (case fs p of
                None \<Rightarrow> Inl (''open '' @ p @ '': no such file or directory'')
              | Some d \<Rightarrow> Inr d) } }"

definition http_Do :: "ext \<Rightarrow> outbound \<Rightarrow> (world, go_error + (nat \<times> payload)) state" where
  "http_Do E req = do {
     n \<leftarrow> tick;
     modify (\<lambda>w. w\<lparr>outbox := outbox w @ [req]\<rparr>);
     ret (x_http E n) }"

definition sendgrid_Send :: "ext \<Rightarrow> sg_mail \<Rightarrow> (world, go_error + (int \<times> string)) state" where
  "sendgrid_Send E m = do {
     n \<leftarrow> tick;
     modify (\<lambda>w. w\<lparr>outbox := outbox w @ [SendGridPost m]\<rparr>);
     ret (x_sendgrid E n) }"

section \<open>When every service answers\<close>

definition up :: "ext \<Rightarrow> bool" where
  "up E \<longleftrightarrow> (\<forall>n. x_db E n = None \<and> x_kv E n = None \<and> x_mq E n = None)"

lemma mails_Update_up:
  "up E \<Longrightarrow> run_state (mails_Update E P f) w =
     (Inr (t_count P (mails w)), w\<lparr>ticks := Suc (ticks w),
        mails := t_update P (\<lambda>m. (f (x_clock E (ticks w)) m)\<lparr>mail_UpdatedAt := x_clock E (ticks w)\<rparr>) (mails w)\<rparr>)"
  by (simp add: mails_Update_def db_exec_def up_def)

lemma mq_Publish_up:
  "up E \<Longrightarrow> run_state (mq_Publish E ex m) w =
     (None, w\<lparr>ticks := Suc (ticks w), broker := publish_to ex m (broker w)\<rparr>)"
  by (simp add: mq_Publish_def up_def)

section \<open>Frames of the primitives\<close>

text \<open>
  Every primitive respects a frame that its own write respects: the premises ask for the
  field it writes and the counter, so that what remains of the frame of a handler is one
  trivial goal per primitive.
\<close>

abbreviation ticked :: "(world \<Rightarrow> world \<Rightarrow> bool) \<Rightarrow> bool" where
  "ticked R \<equiv> (\<forall>w n. R w (w\<lparr>ticks := n\<rparr>))"

lemma ticked_refl: "ticked R \<Longrightarrow> R w w"
proof -
  assume "ticked R"
  then have "R w (w\<lparr>ticks := ticks w\<rparr>)" by blast
  then show ?thesis by simp
qed

lemma modify_within [frames]: "(\<And>w. R w (f w)) \<Longrightarrow> within R (modify f)"
  by (simp add: within_def)

lemma tick_within [frames]: "ticked R \<Longrightarrow> within R tick"
  by (simp add: within_def)

lemma time_Now_within [frames]: "ticked R \<Longrightarrow> within R (time_Now E)"
  by (simp add: within_def time_Now_def)

lemma uuid_New_within [frames]: "ticked R \<Longrightarrow> within R (uuid_New E)"
  by (simp add: within_def uuid_New_def)

lemma mails_First_within [frames]: "ticked R \<Longrightarrow> within R (mails_First E P)"
  by (simp add: within_def mails_First_def db_exec_def split: option.splits)

lemma tokens_First_within [frames]: "ticked R \<Longrightarrow> within R (tokens_First E P)"
  by (simp add: within_def tokens_First_def db_exec_def split: option.splits)

lemma configs_First_within [frames]: "ticked R \<Longrightarrow> within R (configs_First E P)"
  by (simp add: within_def configs_First_def db_exec_def split: option.splits)

lemma Find_within [frames]:
  "ticked R \<Longrightarrow> within R (mails_Count E P)" "ticked R \<Longrightarrow> within R (mails_Page E P i j)"
  "ticked R \<Longrightarrow> within R (tokens_Find E)" "ticked R \<Longrightarrow> within R (configs_Find E Q)"
  by (simp_all add: within_def mails_Count_def mails_Page_def tokens_Find_def configs_Find_def
      db_exec_def split: option.splits)

lemma kv_Get_within [frames]: "ticked R \<Longrightarrow> within R (kv_Get E k)"
  by (simp add: within_def kv_Get_def split: option.splits)

lemma Ping_within [frames]: "ticked R \<Longrightarrow> within R (kv_Ping E)" "ticked R \<Longrightarrow> within R (db_Ping E)"
  by (simp_all add: within_def kv_Ping_def db_Ping_def)

lemma fs_ReadFile_within [frames]: "ticked R \<Longrightarrow> within R (fs_ReadFile E p)"
  by (simp add: within_def fs_ReadFile_def split: option.splits)

lemma fs_MkdirAll_within [frames]: "ticked R \<Longrightarrow> within R (fs_MkdirAll E p)"
  by (simp add: within_def fs_MkdirAll_def)

lemma mails_Create_within [frames]:
  "ticked R \<Longrightarrow> (\<And>w n t. t_find mail_ID (mail_ID m) (mails w) = None \<Longrightarrow>
     R w (w\<lparr>ticks := n, mails := t_insert (stored_mail t m) (mails w)\<rparr>)) \<Longrightarrow>
   within R (mails_Create E m)"
  by (simp add: within_def mails_Create_def db_exec_def Let_def split: option.splits)

lemma mails_Update_within [frames]:
  "ticked R \<Longrightarrow> (\<And>w n t. R w (w\<lparr>ticks := n, mails := t_update P (\<lambda>m. (f t m)\<lparr>mail_UpdatedAt := t\<rparr>) (mails w)\<rparr>)) \<Longrightarrow>
   within R (mails_Update E P f)"
  by (simp add: within_def mails_Update_def db_exec_def split: option.splits)

lemma tokens_Create_within [frames]:
  "ticked R \<Longrightarrow> (\<And>w n t. t_find tok_ID (tok_ID k) (tokens w) = None \<Longrightarrow>
     t_find tok_ClientID (tok_ClientID k) (tokens w) = None \<Longrightarrow>
     R w (w\<lparr>ticks := n, tokens := t_insert (k\<lparr>tok_CreatedAt := t\<rparr>) (tokens w)\<rparr>)) \<Longrightarrow>
   within R (tokens_Create E k)"
  by (simp add: within_def tokens_Create_def db_exec_def Let_def split: option.splits)

lemma tokens_Update_within [frames]:
  "ticked R \<Longrightarrow> (\<And>w n. R w (w\<lparr>ticks := n, tokens := t_update P f (tokens w)\<rparr>)) \<Longrightarrow>
   within R (tokens_Update E P f)"
  by (simp add: within_def tokens_Update_def db_exec_def split: option.splits)

lemma tokens_Save_within [frames]:
  "ticked R \<Longrightarrow> (\<And>w n. R w (w\<lparr>ticks := n, tokens := t_save tok_ID k (tokens w)\<rparr>)) \<Longrightarrow>
   within R (tokens_Save E k)"
  by (simp add: within_def tokens_Save_def db_exec_def split: option.splits)

lemma configs_Create_within [frames]:
  "ticked R \<Longrightarrow> (\<And>w n t. t_find cfg_ID (cfg_ID c) (configs w) = None \<Longrightarrow>
     t_find config_key (config_key c) (configs w) = None \<Longrightarrow>
     R w (w\<lparr>ticks := n, configs := t_insert (c\<lparr>cfg_CreatedAt := t, cfg_UpdatedAt := t\<rparr>) (configs w)\<rparr>)) \<Longrightarrow>
   within R (configs_Create E c)"
  by (simp add: within_def configs_Create_def db_exec_def Let_def split: option.splits)

lemma configs_Save_within [frames]:
  "ticked R \<Longrightarrow> (\<And>w n t. R w (w\<lparr>ticks := n, configs := t_save cfg_ID (c\<lparr>cfg_UpdatedAt := t\<rparr>) (configs w)\<rparr>)) \<Longrightarrow>
   within R (configs_Save E c)"
  by (simp add: within_def configs_Save_def db_exec_def Let_def split: option.splits)

lemma configs_Delete_within [frames]:
  "ticked R \<Longrightarrow> (\<And>w n. R w (w\<lparr>ticks := n, configs := t_delete (\<lambda>c. cfg_ID c = i) (configs w)\<rparr>)) \<Longrightarrow>
   within R (configs_Delete E i)"
  by (simp add: within_def configs_Delete_def db_exec_def split: option.splits)

lemma kv_Set_within [frames]:
  "ticked R \<Longrightarrow> (\<And>w n c. R w (w\<lparr>ticks := n, cache := c\<rparr>)) \<Longrightarrow> within R (kv_Set E k v ttl)"
  by (simp add: within_def kv_Set_def split: option.splits)

lemma mq_Publish_within [frames]:
  "ticked R \<Longrightarrow> (\<And>w n. R w (w\<lparr>ticks := n, broker := publish_to ex m (broker w)\<rparr>)) \<Longrightarrow>
   within R (mq_Publish E ex m)"
  by (simp add: within_def mq_Publish_def split: option.splits)

lemma mq_Ack_within [frames]:
  "(\<And>w. R w (w\<lparr>broker := ack tag (broker w)\<rparr>)) \<Longrightarrow> within R (mq_Ack tag)"
  by (simp add: within_def mq_Ack_def)

lemma mq_Nack_within [frames]:
  "(\<And>w. R w (w\<lparr>broker := nack tag again (broker w)\<rparr>)) \<Longrightarrow> within R (mq_Nack tag again)"
  by (simp add: within_def mq_Nack_def)

lemma fs_WriteFile_within [frames]:
  "ticked R \<Longrightarrow> (\<And>w n. R w (w\<lparr>ticks := n, files := (files w)(p \<mapsto> d)\<rparr>)) \<Longrightarrow>
   within R (fs_WriteFile E p d)"
  by (simp add: within_def fs_WriteFile_def split: option.splits)

lemma http_Do_within [frames]:
  "(\<And>w n. R w (w\<lparr>ticks := n, outbox := outbox w @ [req]\<rparr>)) \<Longrightarrow> within R (http_Do E req)"
  by (simp add: within_def http_Do_def)

lemma sendgrid_Send_within [frames]:
  "(\<And>w n. R w (w\<lparr>ticks := n, outbox := outbox w @ [SendGridPost m]\<rparr>)) \<Longrightarrow>
   within R (sendgrid_Send E m)"
  by (simp add: within_def sendgrid_Send_def)

section \<open>The tables as keyed stores\<close>

interpretation mail_rows: row_store mail_ID "t_find mail_ID" t_insert
    "\<lambda>k. t_update (\<lambda>r. mail_ID r = k)"
  by (rule row_store_list)

interpretation token_rows: row_store tok_ClientID "t_find tok_ClientID" t_insert
    "\<lambda>k. t_update (\<lambda>r. tok_ClientID r = k)"
  by (rule row_store_list)

interpretation config_rows: row_store cfg_ID "t_find cfg_ID" t_insert
    "\<lambda>k. t_update (\<lambda>r. cfg_ID r = k)"
  by (rule row_store_list)

section \<open>A row that may be marked as failed\<close>

lemma mails_Create_run:
  "run_state (mails_Create E m) w =
     (case x_db E (ticks w) of
        Some e \<Rightarrow> (Inl (DBError e), w\<lparr>ticks := Suc (ticks w)\<rparr>)
      | None \<Rightarrow>
          if t_find mail_ID (mail_ID m) (mails w) \<noteq> None
          then (Inl (DBError duplicate_key), w\<lparr>ticks := Suc (ticks w)\<rparr>)
          else (Inr (stored_mail (x_clock E (ticks w)) m),
                w\<lparr>ticks := Suc (ticks w), mails := t_insert (stored_mail (x_clock E (ticks w)) m) (mails w)\<rparr>))"
  by (simp add: mails_Create_def db_exec_def Let_def split: option.splits)

lemma mails_Update_mails:
  "run_state (mails_Update E P f) w = (r, w') \<Longrightarrow>
   broker w' = broker w \<and> (mails w' = mails w
     \<or> (\<exists>t. mails w' = t_update P (\<lambda>m. (f t m)\<lparr>mail_UpdatedAt := t\<rparr>) (mails w)))"
  by (auto simp: mails_Update_def db_exec_def split: option.splits)

text \<open>The new row of a mail that could not be queued, the update that marks it failed done or not.\<close>

lemma queued_or_failed:
  assumes "ms' = t_insert row ms \<or> (\<exists>t'. ms' = t_update (\<lambda>r. mail_ID r = i)
       (\<lambda>r. r\<lparr>mail_Status := MailStatusFailed, mail_UpdatedAt := t'\<rparr>) (t_insert row ms))"
    and "t_find mail_ID i ms = None" and "mail_ID row = i" and "mail_Status row = MailStatusQueued"
  shows "\<exists>m. (\<forall>k. t_find mail_ID k ms' = (if k = i then Some m else t_find mail_ID k ms))
     \<and> mail_Status m \<in> {MailStatusQueued, MailStatusFailed}"
  using assms(1)
proof
  assume "ms' = t_insert row ms"
  then show ?thesis using assms(2-4) by (intro exI [of _ row]) (simp add: mail_rows.find_add)
next
  assume "\<exists>t'. ms' = t_update (\<lambda>r. mail_ID r = i)
       (\<lambda>r. r\<lparr>mail_Status := MailStatusFailed, mail_UpdatedAt := t'\<rparr>) (t_insert row ms)"
  then obtain t' where u: "ms' = t_update (\<lambda>r. mail_ID r = i)
       (\<lambda>r. r\<lparr>mail_Status := MailStatusFailed, mail_UpdatedAt := t'\<rparr>) (t_insert row ms)" by blast
  show ?thesis using assms(2-3) unfolding u
    by (intro exI [of _ "row\<lparr>mail_Status := MailStatusFailed, mail_UpdatedAt := t'\<rparr>"])
      (simp add: mail_rows.find_update mail_rows.find_add)
qed

end
