(* ===== verification/Sample.thy ===== *)
theory Sample
  imports World
begin

text \<open>
  One concrete environment and one concrete state, on which the theorems with hypotheses
  are applied: every call succeeds, the clock counts seconds, identifiers are as long as
  the counter, and the libraries are simple functions that have the documented properties
  used as hypotheses (an identifier prints and parses to itself, a token is verified by the
  secret that signed it).
\<close>

definition sample_ext :: ext where
  "sample_ext =
     \<lparr>x_lower = (\<lambda>s. s),
      x_uuid = (\<lambda>n. replicate n CHR ''u''),
      x_uuid_string = (\<lambda>i. i),
      x_uuid_parse = (\<lambda>s. Inr s),
      x_pg_uuid = (\<lambda>s. Some s),
      x_clock = (\<lambda>n. int n * 1000000000),
      x_date = (\<lambda>t. (2024, 1, 31)),
      x_rfc3339_utc = (\<lambda>t. ''T''),
      x_rfc3339_local = (\<lambda>t. ''T''),
      x_json_time = (\<lambda>t. ''T''),
      x_db = (\<lambda>n. None),
      x_tie = (\<lambda>n i. 0),
      x_mq = (\<lambda>n. None),
      x_kv = (\<lambda>n. None),
      x_fs = (\<lambda>n. None),
      x_http = (\<lambda>n. Inr (200, Json (JO
         [(''access_token'', JS ''bearer''), (''expires_in'', JI 3600)]))),
      x_bad_url = (\<lambda>u. None),
      x_sendgrid = (\<lambda>n. Inr (202, [])),
      x_json_text = (\<lambda>p. ''{}''),
      x_json_error = (\<lambda>p. ''invalid''),
      x_base64_error = (\<lambda>s. ''illegal base64 data''),
      x_nonce = (\<lambda>n. Inr (replicate 12 CHR ''n'')),
      x_aes = (\<lambda>k b. replicate 16 CHR ''k''),
      x_ghash = (\<lambda>h d. replicate 16 CHR ''g''),
      x_sha256 = (\<lambda>d. replicate 32 CHR ''h''),
      x_jwt_sign = (\<lambda>c s. Inr ''jwt''),
      x_jwt_decode = (\<lambda>s. Some \<lparr>jwt_hmac = True,
         jwt_claims = Some [(''client_id'', JS s)]\<rparr>),
      x_jwt_verify = (\<lambda>t s. True),
      x_jwt_current = (\<lambda>t c. True),
      x_is_email = (\<lambda>s. CHR ''@'' \<in> set s),
      x_mime = (\<lambda>d. Inr \<lparr>mr_Subject = ''Hi'', mr_AddressList = (\<lambda>k. Inl ''missing''),
         mr_part = (\<lambda>n. PartEOF)\<rparr>)\<rparr>"

definition sample_oauth :: oauth_service where
  "sample_oauth =
     \<lparr>os_tenantID = ''tenant'', os_clientID = ''client'', os_clientSecret = ''secret'',
      os_accessToken = [], os_expiresAt = 0\<rparr>"

text \<open>No row, no file, nothing sent; the broker knows the three default queues.\<close>

definition sample_broker :: broker where
  "sample_broker =
     \<lparr>bk_queues = [''mail-queue'' \<mapsto> [], ''retry-queue'' \<mapsto> [], ''failed-mails'' \<mapsto> []],
      bk_dlx = [''mail-queue'' \<mapsto> ''dlx''],
      bk_exchanges = [''dlx''],
      bk_bindings = [(''dlx'', ''failed'', ''failed-mails'')],
      bk_unacked = [], bk_next_tag = 0\<rparr>"

definition sample_world :: world where
  "sample_world =
     \<lparr>mails = [], tokens = [], configs = [], cache = Map.empty, broker = sample_broker,
      mq_conns = 0, mq_chans = 0, files = Map.empty, timers = [], oauth = sample_oauth,
      active_jobs = 0, is_shutdown = False, outbox = [], ticks = 0\<rparr>"

definition sample_job :: mail_job where
  "sample_job =
     \<lparr>job_MailID = ''m1'', job_FromAddress = ''a@b.org'', job_ToAddresses = [''c@d.org''],
      job_CCAddresses = [], job_BCCAddresses = [], job_Subject = ''Hi'', job_Body = ''text'',
      job_HTML = [], job_Attachments = [], job_Metadata = [], job_RetryCount = 0,
      job_SenderConfigID = []\<rparr>"

lemma sample_job_valid [simp]: "valid_job sample_job"
  by (simp add: valid_job_def sample_job_def map_of_valid_def is_ascii_def)

lemma sample_up [simp]: "up sample_ext"
  by (simp add: up_def sample_ext_def)

text \<open>The fields one by one, so that a proof need not unfold the whole.\<close>

lemma sample_ext_fields [simp]:
  "x_lower sample_ext s = s" "x_uuid sample_ext n = replicate n CHR ''u''"
  "x_uuid_string sample_ext s = s" "x_uuid_parse sample_ext s = Inr s"
  "x_pg_uuid sample_ext s = Some s" "x_clock sample_ext n = int n * 1000000000"
  "x_date sample_ext t = (2024, 1, 31)" "x_rfc3339_utc sample_ext t = ''T''"
  "x_db sample_ext n = None" "x_mq sample_ext n = None" "x_kv sample_ext n = None"
  "x_fs sample_ext n = None" "x_bad_url sample_ext s = None" "x_sendgrid sample_ext n = Inr (202, [])"
  by (simp_all add: sample_ext_def)

lemma sample_world_fields [simp]:
  "mails sample_world = []" "tokens sample_world = []" "configs sample_world = []"
  "cache sample_world = Map.empty" "broker sample_world = sample_broker"
  "files sample_world = Map.empty" "timers sample_world = []" "oauth sample_world = sample_oauth"
  "active_jobs sample_world = 0" "is_shutdown sample_world = False" "outbox sample_world = []"
  "ticks sample_world = 0"
  by (simp_all add: sample_world_def)

lemma sample_job_fields [simp]:
  "job_MailID sample_job = ''m1''" "job_RetryCount sample_job = 0" "job_Attachments sample_job = []"
  by (simp_all add: sample_job_def)

lemmas sample_defs = sample_ext_def sample_world_def sample_oauth_def sample_broker_def
  sample_job_def

end
