(* ===== verification/Api.thy ===== *)
theory Api
  imports Sample Config
begin

text \<open>
  What the handlers see of a request and what they answer: the parts of Gin's context the
  code reads (header, body, path and query parameters, the values the middlewares set) and
  the answer as a status code with a JSON document. A map that Gin writes as an object keeps
  the order of the source. \<open>ShouldBindJSON\<close> decodes the first JSON value of the body and
  then checks the \<open>binding\<close> tags; the text of its error is a parameter.
\<close>

type_synonym response = "nat \<times> jv"

record request =
  rq_Authorization :: string
  rq_body :: payload
  rq_id :: string
  rq_query :: "string \<Rightarrow> string option"

text \<open>A value stored in the context: a decoded JSON value (\<open>JNull\<close> for \<open>nil\<close>) or strings.\<close>

datatype go_value = GoJson jv | GoStrings "string list"

type_synonym gin_values = "string \<Rightarrow> go_value option"

definition gin_error :: "nat \<Rightarrow> string \<Rightarrow> string \<Rightarrow> response" where
  "gin_error code err msg =
     (code, JO [(''success'', JB False), (''error'', json_string err), (''message'', json_string msg)])"

text \<open>A text outside ASCII, by the bytes of its UTF-8 encoding.\<close>

definition utf8 :: "nat list \<Rightarrow> string" where
  "utf8 bs = map char_of bs"

text \<open>The unchecked assertion \<open>v.(string)\<close>: \<open>None\<close> is the panic.\<close>

definition as_string :: "go_value option \<Rightarrow> string option" where
  "as_string v = (case v of Some (GoJson (JS s)) \<Rightarrow> Some s | _ \<Rightarrow> None)"

text \<open>Decoding and checking: the setter, the zero value, and the conjunction of the tags.\<close>

definition ShouldBindJSON ::
  "ext \<Rightarrow> (string \<Rightarrow> jv \<Rightarrow> 'r \<Rightarrow> 'r option) \<Rightarrow> 'r \<Rightarrow> ('r \<Rightarrow> bool) \<Rightarrow> payload \<Rightarrow> go_error + 'r" where
  "ShouldBindJSON E put zero valid body =
     (case body of
        Raw _ \<Rightarrow> Inl (x_json_error E body)
      | Json j \<Rightarrow>
          (case dec_struct put j zero of
             None \<Rightarrow> Inl (x_json_error E body)
           | Some r \<Rightarrow> if valid r then Inr r else Inl (x_json_error E body)))"

text \<open>
  A handler that panicked is answered by Gin's recovery with 500 and no body; what it had
  written stays.
\<close>

definition recovered :: "response outcome \<Rightarrow> response" where
  "recovered r = (case r of Returns a \<Rightarrow> a | Panics \<Rightarrow> (500, JNull))"

lemma jv_string_within:
  "(\<And>s. within R (f s)) \<Longrightarrow> within R m \<Longrightarrow> within R (case j of JS s \<Rightarrow> f s | _ \<Rightarrow> m)"
  by (cases j) auto

end
