(* ===== verification/Encryption.thy ===== *)
theory Encryption
  imports Sample
begin

text \<open>
  \<open>internal/services/encryption.go\<close>: AES-256-GCM with a random nonce in front and base64
  around. The mode is written out (counter mode from the second counter value on, the tag
  over the ciphertext without additional data); the block cipher and the hash of the tag
  are the parameters \<open>x_aes\<close> and \<open>x_ghash\<close>, the random source is \<open>x_nonce\<close>.
\<close>

unbundle bit_operations_syntax

section \<open>Galois counter mode\<close>

definition xor_byte :: "char \<Rightarrow> char \<Rightarrow> char" where
  "xor_byte c d = char_of ((of_char c :: nat) XOR of_char d)"

definition xor_bytes :: "bytes \<Rightarrow> bytes \<Rightarrow> bytes" where
  "xor_bytes a b = map (\<lambda>(c, d). xor_byte c d) (zip a b)"

definition be32 :: "nat \<Rightarrow> bytes" where
  "be32 n = map (\<lambda>k. char_of (n div 2 ^ k mod 256)) [24, 16, 8, 0]"

definition gcm_nonce_size :: nat where "gcm_nonce_size = 12"

definition gcm_tag_size :: nat where "gcm_tag_size = 16"

definition gcm_keystream :: "ext \<Rightarrow> bytes \<Rightarrow> bytes \<Rightarrow> nat \<Rightarrow> bytes" where
  "gcm_keystream E key nonce len =
     take len (concat (map (\<lambda>i. x_aes E key (nonce @ be32 (i + 2))) [0..<(len + 15) div 16]))"

definition gcm_crypt :: "ext \<Rightarrow> bytes \<Rightarrow> bytes \<Rightarrow> bytes \<Rightarrow> bytes" where
  "gcm_crypt E key nonce d = xor_bytes d (gcm_keystream E key nonce (length d))"

definition gcm_tag :: "ext \<Rightarrow> bytes \<Rightarrow> bytes \<Rightarrow> bytes \<Rightarrow> bytes" where
  "gcm_tag E key nonce ct =
     xor_bytes (x_ghash E (x_aes E key (replicate 16 (char_of (0 :: nat)))) ct)
       (x_aes E key (nonce @ be32 1))"

definition gcm_Seal :: "ext \<Rightarrow> bytes \<Rightarrow> bytes \<Rightarrow> bytes \<Rightarrow> bytes" where
  "gcm_Seal E key nonce plain =
     (let ct = gcm_crypt E key nonce plain in ct @ gcm_tag E key nonce ct)"

definition gcm_Open :: "ext \<Rightarrow> bytes \<Rightarrow> bytes \<Rightarrow> bytes \<Rightarrow> go_error + bytes" where
  "gcm_Open E key nonce d =
     (if length d < gcm_tag_size then Inl ''cipher: message authentication failed''
      else
        let ct = take (length d - gcm_tag_size) d; tag = drop (length d - gcm_tag_size) d in
        if tag = gcm_tag E key nonce ct then Inr (gcm_crypt E key nonce ct)
        else Inl ''cipher: message authentication failed'')"

section \<open>The service\<close>

text \<open>The service is its key.\<close>

definition NewEncryptionService :: "string \<Rightarrow> go_error + bytes" where
  "NewEncryptionService key =
     (if length key \<noteq> 32 then Inl ''encryption key must be 32 bytes'' else Inr key)"

text \<open>\<open>aes.NewCipher\<close> accepts keys of 16, 24 and 32 bytes.\<close>

definition aes_NewCipher :: "bytes \<Rightarrow> go_error option" where
  "aes_NewCipher key =
     (if length key = 16 \<or> length key = 24 \<or> length key = 32 then None
      else Some (''crypto/aes: invalid key size '' @ dec_nat (length key)))"

definition Encrypt :: "ext \<Rightarrow> bytes \<Rightarrow> string \<Rightarrow> (world, go_error + string) state" where
  "Encrypt E key plaintext =
     (case aes_NewCipher key of
        Some e \<Rightarrow> ret (Inl e)
      | None \<Rightarrow> do {
          n \<leftarrow> tick;
          ret (case x_nonce E n of
                 Inl e \<Rightarrow> Inl e
               | Inr nonce \<Rightarrow> Inr (b64_encode (nonce @ gcm_Seal E key nonce plaintext))) })"

definition Decrypt :: "ext \<Rightarrow> bytes \<Rightarrow> string \<Rightarrow> go_error + string" where
  "Decrypt E key ciphertext =
     (case b64_decode ciphertext of
        None \<Rightarrow> Inl (x_base64_error E ciphertext)
      | Some d \<Rightarrow>
          (case aes_NewCipher key of
             Some e \<Rightarrow> Inl e
           | None \<Rightarrow>
               if length d < gcm_nonce_size then Inl ''ciphertext too short''
               else gcm_Open E key (take gcm_nonce_size d) (drop gcm_nonce_size d)))"

section \<open>Decrypting what was encrypted\<close>

text \<open>
  The sizes the libraries promise: blocks and hashes of 16 bytes, nonces of the size asked
  for.
\<close>

definition cipher_sizes :: "ext \<Rightarrow> bool" where
  "cipher_sizes E \<longleftrightarrow>
     (\<forall>k b. length (x_aes E k b) = 16) \<and> (\<forall>h d. length (x_ghash E h d) = 16)
     \<and> (\<forall>n nonce. x_nonce E n = Inr nonce \<longrightarrow> length nonce = gcm_nonce_size)"

lemma xor_byte_twice [simp]: "xor_byte (xor_byte c d) d = c"
proof -
  have "take_bit 8 ((of_char c :: nat) XOR of_char d) = of_char c XOR of_char d"
  proof -
    have "take_bit 8 (of_char x :: nat) = of_char x" for x by (simp add: take_bit_eq_mod)
    then show ?thesis by (simp only: take_bit_xor)
  qed
  then have "(of_char (xor_byte c d) :: nat) = of_char c XOR of_char d"
    by (simp add: xor_byte_def take_bit_eq_mod)
  then show ?thesis by (simp add: xor_byte_def xor.assoc)
qed

lemma xor_bytes_twice: "length a \<le> length b \<Longrightarrow> xor_bytes (xor_bytes a b) b = a"
  by (induction a b rule: list_induct2') (simp_all add: xor_bytes_def)

lemma length_xor_bytes [simp]: "length (xor_bytes a b) = min (length a) (length b)"
  by (simp add: xor_bytes_def)

lemma length_concat_blocks: "(\<And>i. length (f i) = 16) \<Longrightarrow> length (concat (map f xs)) = 16 * length xs"
  by (induction xs) auto

lemma length_keystream:
  assumes "cipher_sizes E"
  shows "length (gcm_keystream E key nonce len) = len"
proof -
  have "length (concat (map (\<lambda>i. x_aes E key (nonce @ be32 (i + 2))) [0..<(len + 15) div 16]))
      = 16 * ((len + 15) div 16)"
    using assms by (subst length_concat_blocks) (auto simp: cipher_sizes_def)
  moreover have "len \<le> 16 * ((len + 15) div 16)" by linarith
  ultimately show ?thesis unfolding gcm_keystream_def by (simp add: min_def)
qed

lemma length_crypt [simp]: "cipher_sizes E \<Longrightarrow> length (gcm_crypt E key nonce d) = length d"
  by (simp add: gcm_crypt_def length_keystream)

lemma gcm_crypt_twice: "cipher_sizes E \<Longrightarrow> gcm_crypt E key nonce (gcm_crypt E key nonce d) = d"
  by (simp add: gcm_crypt_def length_keystream xor_bytes_twice)

lemma length_tag [simp]: "cipher_sizes E \<Longrightarrow> length (gcm_tag E key nonce ct) = gcm_tag_size"
  by (simp add: gcm_tag_def cipher_sizes_def gcm_tag_size_def)

lemma gcm_Open_Seal: "cipher_sizes E \<Longrightarrow> gcm_Open E key nonce (gcm_Seal E key nonce p) = Inr p"
  by (simp add: gcm_Open_def gcm_Seal_def Let_def gcm_crypt_twice)

lemma Encrypt_run:
  "run_state (Encrypt E key p) w =
     (case aes_NewCipher key of
        Some e \<Rightarrow> (Inl e, w)
      | None \<Rightarrow>
          (case x_nonce E (ticks w) of
             Inl e \<Rightarrow> Inl e
           | Inr nonce \<Rightarrow> Inr (b64_encode (nonce @ gcm_Seal E key nonce p)),
           w\<lparr>ticks := Suc (ticks w)\<rparr>))"
  by (simp add: Encrypt_def split: option.splits)

lemma Encrypt_within [frames]: "ticked R \<Longrightarrow> within R (Encrypt E key p)"
  by (simp add: within_def Encrypt_run ticked_refl split: option.splits)

lemma Decrypt_Encrypt:
  assumes "cipher_sizes E" and "run_state (Encrypt E key p) w = (Inr c, w')"
  shows "Decrypt E key c = Inr p"
proof -
  from assms(2) obtain nonce where n: "aes_NewCipher key = None" "x_nonce E (ticks w) = Inr nonce"
    "c = b64_encode (nonce @ gcm_Seal E key nonce p)"
    by (auto simp: Encrypt_run split: option.splits sum.splits)
  moreover from n(2) assms(1) have "length nonce = gcm_nonce_size" by (auto simp: cipher_sizes_def)
  ultimately show ?thesis using gcm_Open_Seal [OF assms(1)] by (simp add: Decrypt_def)
qed

text \<open>
  C22: with a key the service accepts, encryption fails only for want of random bytes; what it
  yields decrypts under the same key to exactly the plaintext, and it is the base64 form of
  the nonce, a ciphertext as long as the plaintext and a tag of sixteen bytes.
\<close>

theorem Encrypt_roundtrip:
  assumes "cipher_sizes E" and "NewEncryptionService k = Inr key"
    and "run_state (Encrypt E key p) w = (r, w')"
  shows "case r of
      Inl e \<Rightarrow> x_nonce E (ticks w) = Inl e
    | Inr c \<Rightarrow> Decrypt E key c = Inr p
        \<and> (\<exists>d. b64_decode c = Some d \<and> length d = gcm_nonce_size + length p + gcm_tag_size)"
proof -
  have key: "aes_NewCipher key = None"
    using assms(2) by (auto simp: NewEncryptionService_def aes_NewCipher_def split: if_splits)
  show ?thesis
  proof (cases "x_nonce E (ticks w)")
    case (Inl e)
    then show ?thesis using assms(3) key by (cases r) (auto simp: Encrypt_run)
  next
    case (Inr nonce)
    then have r: "r = Inr (b64_encode (nonce @ gcm_Seal E key nonce p))"
      using assms(3) key by (auto simp: Encrypt_run)
    moreover have "length nonce = gcm_nonce_size" using Inr assms(1) by (auto simp: cipher_sizes_def)
    moreover have "Decrypt E key (b64_encode (nonce @ gcm_Seal E key nonce p)) = Inr p"
      using assms(1,3) r by (auto intro: Decrypt_Encrypt)
    ultimately show ?thesis using assms(1) by (simp add: gcm_Seal_def Let_def)
  qed
qed

lemma sample_cipher_sizes [simp]: "cipher_sizes sample_ext"
  by (simp add: cipher_sizes_def sample_ext_def gcm_nonce_size_def)

definition sample_key :: bytes where "sample_key = replicate 32 CHR ''K''"

lemma length_sample_key [simp]: "length sample_key = 32" by (simp add: sample_key_def)

theorem Encrypt_roundtrip_witness:
  "\<exists>c. fst (run_state (Encrypt sample_ext sample_key ''s3cret'') sample_world) = Inr c
     \<and> Decrypt sample_ext sample_key c = Inr ''s3cret''"
proof -
  let ?r = "run_state (Encrypt sample_ext sample_key ''s3cret'') sample_world"
  have "\<exists>c. fst ?r = Inr c"
    by (simp add: Encrypt_run aes_NewCipher_def sample_ext_def)
  then obtain c where "fst ?r = Inr c" by blast
  moreover from this have "?r = (Inr c, snd ?r)" by (metis prod.collapse)
  ultimately show ?thesis
    using Encrypt_roundtrip [of sample_ext sample_key sample_key "''s3cret''" sample_world "Inr c" "snd ?r"]
    by (auto simp: NewEncryptionService_def)
qed

text \<open>
  Decryption accepts only what carries a matching tag: a result means that the text is
  base64 of at least twenty-eight bytes whose last sixteen are the tag of the bytes between
  nonce and tag. Anything else is an error.
\<close>

lemma Decrypt_authentic:
  "(\<exists>p. Decrypt E key c = Inr p) \<longleftrightarrow>
     aes_NewCipher key = None \<and>
     (\<exists>nonce ct. b64_decode c = Some (nonce @ ct @ gcm_tag E key nonce ct)
        \<and> length nonce = gcm_nonce_size \<and> length (gcm_tag E key nonce ct) = gcm_tag_size)"
proof (cases "b64_decode c")
  case None
  then show ?thesis by (simp add: Decrypt_def)
next
  case (Some d)
  show ?thesis
  proof
    assume "\<exists>p. Decrypt E key c = Inr p"
    then have *: "aes_NewCipher key = None" "gcm_nonce_size + gcm_tag_size \<le> length d"
      "drop (length d - gcm_nonce_size - gcm_tag_size) (drop gcm_nonce_size d)
         = gcm_tag E key (take gcm_nonce_size d)
             (take (length d - gcm_nonce_size - gcm_tag_size) (drop gcm_nonce_size d))"
      using Some by (auto simp: Decrypt_def gcm_Open_def Let_def split: option.splits if_splits)
    let ?n = "take gcm_nonce_size d"
    let ?c = "take (length d - gcm_nonce_size - gcm_tag_size) (drop gcm_nonce_size d)"
    have "d = ?n @ ?c @ gcm_tag E key ?n ?c"
      by (subst *(3) [symmetric]) (simp only: append_take_drop_id)
    moreover have "length (gcm_tag E key ?n ?c) = gcm_tag_size"
      using *(2) by (subst *(3) [symmetric]) simp
    ultimately show "aes_NewCipher key = None \<and>
      (\<exists>nonce ct. b64_decode c = Some (nonce @ ct @ gcm_tag E key nonce ct)
        \<and> length nonce = gcm_nonce_size \<and> length (gcm_tag E key nonce ct) = gcm_tag_size)"
      using Some *(1,2) by (intro conjI exI [of _ ?n] exI [of _ ?c]) auto
  next
    assume "aes_NewCipher key = None \<and>
      (\<exists>nonce ct. b64_decode c = Some (nonce @ ct @ gcm_tag E key nonce ct)
        \<and> length nonce = gcm_nonce_size \<and> length (gcm_tag E key nonce ct) = gcm_tag_size)"
    then obtain nonce ct where "aes_NewCipher key = None"
      "b64_decode c = Some (nonce @ ct @ gcm_tag E key nonce ct)"
      "length nonce = gcm_nonce_size" "length (gcm_tag E key nonce ct) = gcm_tag_size" by blast
    then show "\<exists>p. Decrypt E key c = Inr p" by (simp add: Decrypt_def gcm_Open_def Let_def)
  qed
qed

end
