(* ===== verification/SenderConfig.thy ===== *)
theory SenderConfig
  imports Encryption Config
begin

text \<open>
  \<open>internal/services/email_sender_config_service.go\<close>: the OAuth settings a client stores per
  sender address, the secret encrypted. The service is the key of its encryption service;
  the optional service of the handlers and the worker is an optional key.
\<close>

section \<open>The operations\<close>

definition Create ::
  "ext \<Rightarrow> config \<Rightarrow> bytes \<Rightarrow> uuid \<Rightarrow> create_sender_config_request \<Rightarrow>
   (world, go_error + email_sender_config) state" where
  "Create E cfg key clientTokenID req =
     (if \<not> org_sender E cfg (csr_SenderEmail req)
      then ret (Inl ''sender_email must be organization domain'')
      else do {
        r \<leftarrow> Encrypt E key (csr_MSClientSecret req);
        case r of
          Inl _ \<Rightarrow> ret (Inl ''failed to encrypt client secret'')
        | Inr encryptedSecret \<Rightarrow> do {
            i \<leftarrow> uuid_New E;
            r \<leftarrow> configs_Create E
              \<lparr>cfg_ID = i,
               cfg_ClientTokenID = clientTokenID,
               cfg_SenderEmail = ToLower (x_lower E) (csr_SenderEmail req),
               cfg_MSTenantID = csr_MSTenantID req,
               cfg_MSClientID = csr_MSClientID req,
               cfg_MSClientSecretEncrypted = encryptedSecret,
               cfg_IsActive = True,
               cfg_CreatedAt = 0,
               cfg_UpdatedAt = 0\<rparr>;
            ret (case r of
                   Inl err \<Rightarrow>
                     if Contains (gorm_text err) ''duplicate key''
                        \<or> Contains (gorm_text err) ''unique constraint''
                     then Inl ''sender_email already exists for this client''
                     else Inl (gorm_text err)
                 | Inr c \<Rightarrow> Inr c) } })"

definition GetByID :: "ext \<Rightarrow> uuid \<Rightarrow> (world, go_error + email_sender_config) state" where
  "GetByID E i = do {
     r \<leftarrow> configs_First E (\<lambda>c. cfg_ID c = i);
     ret (map_sum gorm_text id r) }"

definition GetBySenderEmail :: "ext \<Rightarrow> uuid \<Rightarrow> string \<Rightarrow> (world, go_error + email_sender_config) state" where
  "GetBySenderEmail E clientTokenID senderEmail = do {
     let email = ToLower (x_lower E) senderEmail;
     r \<leftarrow> configs_First E (\<lambda>c. cfg_ClientTokenID c = clientTokenID \<and> cfg_SenderEmail c = email
            \<and> cfg_IsActive c);
     ret (map_sum gorm_text id r) }"

definition GetBySenderEmailOnly :: "ext \<Rightarrow> string \<Rightarrow> (world, go_error + email_sender_config) state" where
  "GetBySenderEmailOnly E senderEmail = do {
     let email = ToLower (x_lower E) senderEmail;
     r \<leftarrow> configs_First E (\<lambda>c. cfg_SenderEmail c = email \<and> cfg_IsActive c);
     ret (map_sum gorm_text id r) }"

definition ListByClientTokenID :: "ext \<Rightarrow> uuid \<Rightarrow> (world, go_error + email_sender_config list) state" where
  "ListByClientTokenID E clientTokenID = do {
     r \<leftarrow> configs_Find E (\<lambda>c. cfg_ClientTokenID c = clientTokenID);
     ret (map_sum gorm_text id r) }"

definition Update ::
  "ext \<Rightarrow> bytes \<Rightarrow> uuid \<Rightarrow> update_sender_config_request \<Rightarrow>
   (world, go_error + email_sender_config) state" where
  "Update E key i req = do {
     r \<leftarrow> configs_First E (\<lambda>c. cfg_ID c = i);
     case r of
       Inl err \<Rightarrow> ret (Inl (gorm_text err))
     | Inr c0 \<Rightarrow> do {
         let c1 = (if usr_MSTenantID req \<noteq> [] then c0\<lparr>cfg_MSTenantID := usr_MSTenantID req\<rparr> else c0);
         let c2 = (if usr_MSClientID req \<noteq> [] then c1\<lparr>cfg_MSClientID := usr_MSClientID req\<rparr> else c1);
         s \<leftarrow> (if usr_MSClientSecret req \<noteq> [] then do {
                 r \<leftarrow> Encrypt E key (usr_MSClientSecret req);
                 ret (case r of Inl _ \<Rightarrow> None
                      | Inr encryptedSecret \<Rightarrow> Some (c2\<lparr>cfg_MSClientSecretEncrypted := encryptedSecret\<rparr>)) }
              else ret (Some c2));
         case s of
           None \<Rightarrow> ret (Inl ''failed to encrypt client secret'')
         | Some c3 \<Rightarrow> do {
             let c4 = (case usr_IsActive req of None \<Rightarrow> c3 | Some b \<Rightarrow> c3\<lparr>cfg_IsActive := b\<rparr>);
             r \<leftarrow> configs_Save E c4;
             ret (map_sum gorm_text id r) } } }"

text \<open>\<open>RowsAffected\<close> is 0 after an error, and it is looked at first.\<close>

definition Delete :: "ext \<Rightarrow> uuid \<Rightarrow> (world, go_error option) state" where
  "Delete E i = do {
     r \<leftarrow> configs_Delete E i;
     let rowsAffected = (case r of Inl _ \<Rightarrow> 0 | Inr n \<Rightarrow> n);
     if rowsAffected = 0 then ret (Some ''config not found'')
     else ret (case r of Inl err \<Rightarrow> Some (gorm_text err) | Inr _ \<Rightarrow> None) }"

definition DecryptSecret :: "ext \<Rightarrow> bytes \<Rightarrow> email_sender_config \<Rightarrow> go_error + string" where
  "DecryptSecret E key c = Decrypt E key (cfg_MSClientSecretEncrypted c)"

definition GetDecryptedConfig ::
  "ext \<Rightarrow> bytes \<Rightarrow> uuid \<Rightarrow> (world, go_error + email_sender_config \<times> string) state" where
  "GetDecryptedConfig E key i = do {
     r \<leftarrow> GetByID E i;
     ret (case r of
            Inl err \<Rightarrow> Inl err
          | Inr c \<Rightarrow>
              (case DecryptSecret E key c of
                 Inl err \<Rightarrow> Inl err
               | Inr secret \<Rightarrow> Inr (c, secret))) }"

section \<open>Frames\<close>

lemma lookups_within [frames]:
  "ticked R \<Longrightarrow> frame_rel R \<Longrightarrow> within R (GetByID E i)"
  "ticked R \<Longrightarrow> frame_rel R \<Longrightarrow> within R (GetBySenderEmail E c s)"
  "ticked R \<Longrightarrow> frame_rel R \<Longrightarrow> within R (GetBySenderEmailOnly E s)"
  "ticked R \<Longrightarrow> frame_rel R \<Longrightarrow> within R (ListByClientTokenID E c)"
  "ticked R \<Longrightarrow> frame_rel R \<Longrightarrow> within R (GetDecryptedConfig E key i)"
  unfolding GetDecryptedConfig_def GetByID_def GetBySenderEmail_def GetBySenderEmailOnly_def
    ListByClientTokenID_def
  by (intro frames frame_rel.rules [of R]; assumption)+

section \<open>The table stays consistent\<close>

definition configs_ok :: "world \<Rightarrow> bool" where
  "configs_ok w \<longleftrightarrow> t_keys_unique cfg_ID (configs w) \<and> t_keys_unique config_key (configs w)"

lemma configs_First_run:
  "run_state (configs_First E P) w =
     (case x_db E (ticks w) of
        Some e \<Rightarrow> Inl (DBError e)
      | None \<Rightarrow> (case t_first cfg_ID P (configs w) of None \<Rightarrow> Inl ErrRecordNotFound | Some c \<Rightarrow> Inr c),
      w\<lparr>ticks := Suc (ticks w)\<rparr>)"
  by (simp add: configs_First_def db_exec_def split: option.splits)

lemma configs_Save_run:
  "run_state (configs_Save E c) w =
     (case x_db E (ticks w) of
        Some e \<Rightarrow> (Inl (DBError e), w\<lparr>ticks := Suc (ticks w)\<rparr>)
      | None \<Rightarrow> (let c' = c\<lparr>cfg_UpdatedAt := x_clock E (ticks w)\<rparr> in
          (Inr c', w\<lparr>ticks := Suc (ticks w), configs := t_save cfg_ID c' (configs w)\<rparr>)))"
  by (simp add: configs_Save_def db_exec_def Let_def split: option.splits)

lemma configs_Create_run:
  "run_state (configs_Create E c) w =
     (case x_db E (ticks w) of
        Some e \<Rightarrow> (Inl (DBError e), w\<lparr>ticks := Suc (ticks w)\<rparr>)
      | None \<Rightarrow>
          if t_find cfg_ID (cfg_ID c) (configs w) \<noteq> None
             \<or> t_find config_key (config_key c) (configs w) \<noteq> None
          then (Inl (DBError duplicate_key), w\<lparr>ticks := Suc (ticks w)\<rparr>)
          else (let c' = c\<lparr>cfg_CreatedAt := x_clock E (ticks w), cfg_UpdatedAt := x_clock E (ticks w)\<rparr> in
            (Inr c', w\<lparr>ticks := Suc (ticks w), configs := t_insert c' (configs w)\<rparr>)))"
  by (simp add: configs_Create_def db_exec_def Let_def split: option.splits)



text \<open>Saving a row under its own keys.\<close>

lemma t_replace_same_keys:
  assumes "t_keys_unique cfg_ID t" "c \<in> set t" "cfg_ID c' = cfg_ID c" "config_key c' = config_key c"
  shows "map cfg_ID (t_save cfg_ID c' t) = map cfg_ID t
    \<and> map config_key (t_save cfg_ID c' t) = map config_key t"
proof -
  have "x = c" if "x \<in> set t" "cfg_ID x = cfg_ID c" for x
    using assms(1,2) that by (auto simp: t_keys_unique_def distinct_map inj_on_def)
  then show ?thesis using assms by (auto simp: t_save_def t_update_def t_find_None)
qed

text \<open>The row \<open>Update\<close> saves, before the time stamp, when the secret became \<open>e\<close>.\<close>

definition updated_row ::
  "update_sender_config_request \<Rightarrow> string \<Rightarrow> email_sender_config \<Rightarrow> email_sender_config" where
  "updated_row req e c =
     c\<lparr>cfg_MSTenantID := (if usr_MSTenantID req \<noteq> [] then usr_MSTenantID req else cfg_MSTenantID c),
       cfg_MSClientID := (if usr_MSClientID req \<noteq> [] then usr_MSClientID req else cfg_MSClientID c),
       cfg_MSClientSecretEncrypted := e,
       cfg_IsActive := (case usr_IsActive req of None \<Rightarrow> cfg_IsActive c | Some b \<Rightarrow> b)\<rparr>"

lemma updated_row_keys [simp]:
  "cfg_ID (updated_row req e c) = cfg_ID c" "config_key (updated_row req e c) = config_key c"
  "cfg_MSClientSecretEncrypted (updated_row req e c) = e"
  by (simp_all add: updated_row_def config_key_def)

lemma Update_ok:
  assumes "run_state (Update E key i req) w = (Inr c', w')"
  obtains c e t where "c \<in> set (configs w)" "cfg_ID c = i"
    "t_first cfg_ID (\<lambda>c. cfg_ID c = i) (configs w) = Some c"
    "c' = (updated_row req e c)\<lparr>cfg_UpdatedAt := t\<rparr>"
    "configs w' = t_save cfg_ID c' (configs w)"
    "if usr_MSClientSecret req = [] then e = cfg_MSClientSecretEncrypted c
     else \<exists>v v'. run_state (Encrypt E key (usr_MSClientSecret req)) v = (Inr e, v')"
proof -
  from assms obtain c where c: "x_db E (ticks w) = None"
    "t_first cfg_ID (\<lambda>c. cfg_ID c = i) (configs w) = Some c"
    by (auto simp: Update_def configs_First_run split: option.splits)
  note in_table = t_first_Some [OF c(2)]
  let ?w = "w\<lparr>ticks := Suc (ticks w)\<rparr>"
  show thesis
  proof (cases "usr_MSClientSecret req = []")
    case True
    then show thesis using assms c in_table
      by (intro that [of c "x_clock E (Suc (ticks w))" "cfg_MSClientSecretEncrypted c"])
         (auto simp: Update_def configs_First_run configs_Save_run updated_row_def Let_def
            split: option.splits if_splits)
  next
    case False
    obtain r v where r: "run_state (Encrypt E key (usr_MSClientSecret req)) ?w = (r, v)" by fastforce
    then have v: "configs v = configs w"
      using within_same [OF Encrypt_within [of "same configs"] r] by (simp add: same_def)
    from assms c False r obtain e where e: "r = Inr e"
      by (cases r) (auto simp: Update_def configs_First_run Let_def split: if_splits)
    show thesis using assms c in_table False r e v
      by (intro that [of c "x_clock E (ticks v)" e])
         (auto simp: Update_def configs_First_run configs_Save_run updated_row_def Let_def
            split: option.splits if_splits)
  qed
qed




definition sample_request :: create_sender_config_request where
  "sample_request =
     \<lparr>csr_SenderEmail = ''Ann@PTC-nec.com.tw'', csr_MSTenantID = ''t'', csr_MSClientID = ''i'',
      csr_MSClientSecret = ''s3cret''\<rparr>"


section \<open>What was stored is found\<close>

lemma Create_ok:
  assumes "run_state (Create E cfg key cl req) w = (Inr c, w')"
  obtains e v v' where "org_sender E cfg (csr_SenderEmail req)"
    "run_state (Encrypt E key (csr_MSClientSecret req)) v = (Inr e, v')"
    "cfg_MSClientSecretEncrypted c = e" "cfg_ClientTokenID c = cl" "cfg_IsActive c"
    "cfg_SenderEmail c = ToLower (x_lower E) (csr_SenderEmail req)"
    "configs w' = t_insert c (configs w)"
    "t_find cfg_ID (cfg_ID c) (configs w) = None" "t_find config_key (config_key c) (configs w) = None"
proof -
  have suffix: "org_sender E cfg (csr_SenderEmail req)"
    using assms by (auto simp: Create_def split: if_splits)
  obtain r v where r: "run_state (Encrypt E key (csr_MSClientSecret req)) w = (r, v)" by fastforce
  then have v: "configs v = configs w"
    using within_same [OF Encrypt_within [of "same configs"] r] by (simp add: same_def)
  from assms suffix r obtain e where e: "r = Inr e" by (cases r) (auto simp: Create_def)
  show thesis using assms suffix r e v
    by (intro that [of w e v])
       (auto simp: Create_def uuid_New_def configs_Create_run Let_def config_key_def
          split: option.splits if_splits)
qed

text \<open>
  C35: a setting that was created is found by its client under its address in any spelling of
  upper and lower case, is found by its identifier, and its secret is the one that was given,
  until the table changes.
\<close>

theorem Create_then_lookup:
  assumes "run_state (Create E cfg key cl req) w = (Inr c, w1)"
    and "cipher_sizes E" and "configs w2 = configs w1" and "x_db E (ticks w2) = None"
    and "ToLower (x_lower E) email = ToLower (x_lower E) (csr_SenderEmail req)"
  shows "fst (run_state (GetBySenderEmail E cl email) w2) = Inr c
    \<and> fst (run_state (GetDecryptedConfig E key (cfg_ID c)) w2) = Inr (c, csr_MSClientSecret req)"
proof -
  from Create_ok [OF assms(1)] obtain e v v' where
    enc: "run_state (Encrypt E key (csr_MSClientSecret req)) v = (Inr e, v')"
    and c: "cfg_MSClientSecretEncrypted c = e" "cfg_ClientTokenID c = cl" "cfg_IsActive c"
      "cfg_SenderEmail c = ToLower (x_lower E) (csr_SenderEmail req)"
    and new: "configs w1 = t_insert c (configs w)"
      "cfg_ID c \<notin> cfg_ID ` set (configs w)" "config_key c \<notin> config_key ` set (configs w)"
    by (metis t_find_None)
  have "filter (\<lambda>x. cfg_ClientTokenID x = cl \<and> cfg_SenderEmail x = ToLower (x_lower E) email \<and> cfg_IsActive x)
      (configs w1) = [c]"
    using new c assms(5) by (auto simp: t_insert_def filter_empty_conv config_key_def image_iff)
  moreover have "filter (\<lambda>x. cfg_ID x = cfg_ID c) (configs w1) = [c]"
    using new by (auto simp: t_insert_def filter_empty_conv image_iff)
  moreover have "DecryptSecret E key c = Inr (csr_MSClientSecret req)"
    using Decrypt_Encrypt [OF assms(2) enc] c(1) by (simp add: DecryptSecret_def)
  ultimately show ?thesis using assms(3,4)
    by (simp add: GetBySenderEmail_def GetDecryptedConfig_def GetByID_def configs_First_run
        t_first_single Let_def)
qed

lemma sample_request_suffix:
  "org_sender sample_ext default_config (csr_SenderEmail sample_request)"
  by code_simp

lemma sample_created:
  "\<exists>c w1. run_state (Create sample_ext default_config sample_key ''k'' sample_request) sample_world = (Inr c, w1)"
  using sample_request_suffix
  by (simp add: Create_def Encrypt_run aes_NewCipher_def uuid_New_def configs_Create_run Let_def
      sample_ext_def sample_world_def t_find_def)

theorem Create_then_lookup_witness:
  "\<exists>c w1. run_state (Create sample_ext default_config sample_key ''k'' sample_request) sample_world = (Inr c, w1)
     \<and> fst (run_state (GetBySenderEmail sample_ext ''k'' ''ann@ptc-nec.com.tw'') w1) = Inr c"
proof -
  obtain c w1 where
    r: "run_state (Create sample_ext default_config sample_key ''k'' sample_request) sample_world = (Inr c, w1)"
    using sample_created by blast
  have "ToLower (x_lower sample_ext) ''ann@ptc-nec.com.tw''
      = ToLower (x_lower sample_ext) (csr_SenderEmail sample_request)" by code_simp
  with Create_then_lookup [OF r, of w1 "''ann@ptc-nec.com.tw''"] r show ?thesis
    by (auto simp: sample_ext_def [THEN arg_cong [where f = x_db]])
qed

text \<open>
  An update changes the fields that were given and no others, and the secret read back
  afterwards is the new one, or the old one when none was given.
\<close>

lemma Update_then_lookup:
  assumes "run_state (Update E key i req) w = (Inr c', w1)"
    and "cipher_sizes E" and "configs_ok w" and "t_find cfg_ID i (configs w) = Some c"
    and "DecryptSecret E key c = Inr old"
    and "configs w2 = configs w1" and "x_db E (ticks w2) = None"
  shows "fst (run_state (GetDecryptedConfig E key i) w2)
      = Inr (c', if usr_MSClientSecret req = [] then old else usr_MSClientSecret req)
    \<and> (\<exists>e t. c' = (updated_row req e c)\<lparr>cfg_UpdatedAt := t\<rparr>)
    \<and> (\<forall>j. j \<noteq> i \<longrightarrow> t_find cfg_ID j (configs w1) = t_find cfg_ID j (configs w))"
proof -
  have "t_first cfg_ID (\<lambda>c. cfg_ID c = i) (configs w) = Some c"
    using assms(3,4) by (simp add: configs_ok_def t_first_unique)
  with Update_ok [OF assms(1)] obtain e t where
    c: "c \<in> set (configs w)" "cfg_ID c = i" "c' = (updated_row req e c)\<lparr>cfg_UpdatedAt := t\<rparr>"
    and tab: "configs w1 = t_save cfg_ID c' (configs w)"
    and e: "if usr_MSClientSecret req = [] then e = cfg_MSClientSecretEncrypted c
     else \<exists>v v'. run_state (Encrypt E key (usr_MSClientSecret req)) v = (Inr e, v')"
    by (metis option.inject)
  have id: "cfg_ID c' = i" and key: "config_key c' = config_key c"
    using c by (simp_all add: updated_row_def config_key_def)
  have "t_keys_unique cfg_ID (configs w1)"
    using t_replace_same_keys [OF _ c(1) _ key] assms(3) id c(2)
    by (simp add: tab t_keys_unique_def configs_ok_def)
  then have "t_first cfg_ID (\<lambda>c. cfg_ID c = i) (configs w1) = Some c'"
    by (simp add: t_first_unique tab t_find_save id)
  moreover have "DecryptSecret E key c'
      = Inr (if usr_MSClientSecret req = [] then old else usr_MSClientSecret req)"
    using e assms(2,5) c(3) by (auto simp: DecryptSecret_def split: if_splits dest: Decrypt_Encrypt)
  ultimately show ?thesis using assms(6,7) c(2,3)
    by (auto simp: GetDecryptedConfig_def GetByID_def configs_First_run tab t_find_save id)
qed

definition sample_update :: update_sender_config_request where
  "sample_update =
     \<lparr>usr_MSTenantID = [], usr_MSClientID = [], usr_MSClientSecret = ''n3w'', usr_IsActive = None\<rparr>"

definition sample_encrypted :: string where
  "sample_encrypted =
     b64_encode (replicate 12 CHR ''n'' @ gcm_Seal sample_ext sample_key (replicate 12 CHR ''n'') ''s3cret'')"

lemma Update_then_lookup_witness:
  "let w = sample_world\<lparr>configs := [sample_config_row\<lparr>cfg_MSClientSecretEncrypted := sample_encrypted\<rparr>]\<rparr>;
       w1 = snd (run_state (Update sample_ext sample_key ''c1'' sample_update) w) in
   \<exists>c'. fst (run_state (GetDecryptedConfig sample_ext sample_key ''c1'') w1) = Inr (c', ''n3w'')"
proof -
  let ?c = "sample_config_row\<lparr>cfg_MSClientSecretEncrypted := sample_encrypted\<rparr>"
  let ?w = "sample_world\<lparr>configs := [?c]\<rparr>"
  have id: "cfg_ID sample_config_row = ''c1''" by (simp add: sample_config_row_def)
  have secret: "usr_MSClientSecret sample_update = ''n3w''" by (simp add: sample_update_def)
  have "\<exists>c' w1. run_state (Update sample_ext sample_key ''c1'' sample_update) ?w = (Inr c', w1)"
    by (simp add: Update_def configs_First_run configs_Save_run Encrypt_run aes_NewCipher_def
        sample_ext_def t_first_def id sample_update_def Let_def)
  then obtain c' w1 where
    r: "run_state (Update sample_ext sample_key ''c1'' sample_update) ?w = (Inr c', w1)" by blast
  have "run_state (Encrypt sample_ext sample_key ''s3cret'') sample_world
      = (Inr sample_encrypted, sample_world\<lparr>ticks := Suc (ticks sample_world)\<rparr>)"
    by (simp add: Encrypt_run aes_NewCipher_def sample_encrypted_def sample_ext_def)
  from Decrypt_Encrypt [OF sample_cipher_sizes this]
  have "DecryptSecret sample_ext sample_key ?c = Inr ''s3cret''" by (simp add: DecryptSecret_def)
  from Update_then_lookup [OF r _ _ _ this, of w1] show ?thesis
    by (auto simp: r configs_ok_def t_keys_unique_def t_find_def id secret
        sample_ext_def [THEN arg_cong [where f = x_db]])
qed

text \<open>
  Deleting a setting removes exactly the row with that identifier, when it is there, no
  mail refers to it and the database answers. In every other case, a database error and a
  violated foreign key included, the table stays as it was and the error reads
  \<open>config not found\<close>.
\<close>

lemma Delete_outcome:
  "let (r, w') = run_state (Delete E i) w in
   if x_db E (ticks w) = None \<and> t_find cfg_ID i (configs w) \<noteq> None
      \<and> (\<forall>m\<in>set (mails w). mail_SenderConfigID m \<noteq> Some i)
   then r = None \<and> configs w' = filter (\<lambda>c. cfg_ID c \<noteq> i) (configs w)
   else r = Some ''config not found'' \<and> configs w' = configs w"
proof -
  have "t_delete (\<lambda>c. cfg_ID c = i) (configs w) = configs w"
    if "t_find cfg_ID i (configs w) = None"
    using that by (auto simp: t_delete_def t_find_None filter_id_conv)
  then show ?thesis
    by (auto simp: Delete_def configs_Delete_def db_exec_def t_count_find t_delete_def list_ex_iff
        split: option.splits)
qed

lemma Delete_outcome_witness:
  "fst (run_state (Delete sample_ext ''c1'')
     (sample_world\<lparr>configs := [sample_config_row],
        mails := []\<rparr>)) = None"
  using Delete_outcome [of sample_ext "''c1''" "sample_world\<lparr>configs := [sample_config_row], mails := []\<rparr>"]
  by (auto simp: sample_ext_def sample_config_row_def t_find_def)

end
