(* ===== verification/KeyDB.thy ===== *)
theory KeyDB
  imports Sample Config
begin

text \<open>
  \<open>internal/services/keydb_service.go\<close>: the status cache, one JSON entry per mail under
  \<open>mail:status:<id>\<close>, kept for the configured time. \<open>json.Marshal\<close> of the entry cannot
  fail, so the error branch after it does not occur.
\<close>

definition status_key :: "string \<Rightarrow> string" where
  "status_key mailID = ''mail:status:'' @ mailID"

definition NewKeyDBService :: "ext \<Rightarrow> (world, go_error + unit) state" where
  "NewKeyDBService E = do {
     err \<leftarrow> kv_Ping E;
     ret (case err of Some e \<Rightarrow> Inl (''failed to connect to KeyDB: '' @ e) | None \<Rightarrow> Inr ()) }"

definition SetStatus ::
  "ext \<Rightarrow> config \<Rightarrow> string \<Rightarrow> string \<Rightarrow> go_int \<Rightarrow> string \<Rightarrow> (world, go_error + unit) state" where
  "SetStatus E cfg mailID status retryCount errorMsg = do {
     let key = status_key mailID;
     now \<leftarrow> time_Now E;
     let statusCache =
       \<lparr>msc_MailID = mailID,
        msc_Status = status,
        msc_RetryCount = retryCount,
        msc_LastUpdated = x_rfc3339_utc E now,
        msc_ErrorMessage = errorMsg\<rparr>;
     kv_Set E key (Json (marshal_status statusCache)) (co_KeyDBStatusTTL cfg) }"

definition GetStatus_kv :: "ext \<Rightarrow> string \<Rightarrow> (world, go_error + mail_status_cache) state" where
  "GetStatus_kv E mailID = do {
     let key = status_key mailID;
     r \<leftarrow> kv_Get E key;
     ret (case r of
            Inl KVNil \<Rightarrow> Inl ''status not found''
          | Inl (KVError e) \<Rightarrow> Inl (''failed to get status: '' @ e)
          | Inr data \<Rightarrow>
              (case unmarshal_status data of
                 None \<Rightarrow> Inl (''failed to unmarshal status: '' @ x_json_error E data)
               | Some status \<Rightarrow> Inr status)) }"

definition Ping :: "ext \<Rightarrow> (world, bool) state" where
  "Ping E = do { err \<leftarrow> kv_Ping E; ret (err = None) }"

section \<open>Frames\<close>

lemma SetStatus_within [frames]:
  "ticked R \<Longrightarrow> (\<And>w n c. R w (w\<lparr>ticks := n, cache := c\<rparr>)) \<Longrightarrow>
   within R (SetStatus E cfg i s n e)"
  by (simp add: within_def SetStatus_def time_Now_def kv_Set_def Let_def split: option.splits)

lemma GetStatus_kv_within [frames]: "ticked R \<Longrightarrow> within R (GetStatus_kv E i)"
  by (simp add: within_def GetStatus_kv_def kv_Get_def Let_def split: option.splits)

section \<open>What is stored is read back\<close>

text \<open>The cache entry of a mail, whatever its age.\<close>

definition cached_status :: "string \<Rightarrow> world \<Rightarrow> string option" where
  "cached_status mailID w =
     (case cache w (status_key mailID) of
        None \<Rightarrow> None
      | Some (p, _) \<Rightarrow> map_option msc_Status (unmarshal_status p))"

definition valid_status_args :: "ext \<Rightarrow> string \<Rightarrow> string \<Rightarrow> string \<Rightarrow> bool" where
  "valid_status_args E i s e \<longleftrightarrow>
     valid_utf8 i \<and> valid_utf8 s \<and> valid_utf8 e \<and> (\<forall>t. valid_utf8 (x_rfc3339_utc E t))"

lemma SetStatus_ok:
  assumes "x_kv E (Suc (ticks w)) = None"
  shows "run_state (SetStatus E cfg i s n e) w =
    (Inr (),
     w\<lparr>ticks := Suc (Suc (ticks w)),
       cache := (cache w)(status_key i \<mapsto>
         (Json (marshal_status
            \<lparr>msc_MailID = i, msc_Status = s, msc_RetryCount = n,
             msc_LastUpdated = x_rfc3339_utc E (x_clock E (ticks w)), msc_ErrorMessage = e\<rparr>),
          if 0 < sint (co_KeyDBStatusTTL cfg)
          then Some (x_clock E (Suc (ticks w)) + sint (co_KeyDBStatusTTL cfg)) else None))\<rparr>)"
  using assms by (simp add: SetStatus_def time_Now_def kv_Set_def Let_def)

lemma SetStatus_failed:
  assumes "x_kv E (Suc (ticks w)) = Some err"
  shows "run_state (SetStatus E cfg i s n e) w = (Inl err, w\<lparr>ticks := Suc (Suc (ticks w))\<rparr>)"
  using assms by (simp add: SetStatus_def time_Now_def kv_Set_def Let_def)

text \<open>The entry that is stored.\<close>

definition status_entry :: "ext \<Rightarrow> config \<Rightarrow> string \<Rightarrow> string \<Rightarrow> go_int \<Rightarrow> string \<Rightarrow> nat \<Rightarrow> payload \<times> int option" where
  "status_entry E cfg i s n e t =
     (Json (marshal_status \<lparr>msc_MailID = i, msc_Status = s, msc_RetryCount = n,
         msc_LastUpdated = x_rfc3339_utc E (x_clock E t), msc_ErrorMessage = e\<rparr>),
      if 0 < sint (co_KeyDBStatusTTL cfg)
      then Some (x_clock E (Suc t) + sint (co_KeyDBStatusTTL cfg)) else None)"

lemma SetStatus_up:
  "up E \<Longrightarrow> run_state (SetStatus E cfg i s n e) w =
     (Inr (), w\<lparr>ticks := Suc (Suc (ticks w)),
        cache := (cache w)(status_key i \<mapsto> status_entry E cfg i s n e (ticks w))\<rparr>)"
  by (simp add: SetStatus_ok up_def status_entry_def)

lemma status_entry_status [simp]:
  "map_option msc_Status (unmarshal_status (fst (status_entry E cfg i s n e t))) = Some (to_valid_utf8 s)"
  by (simp add: status_entry_def unmarshal_status_def marshal_status_def put_status_def
      zero_status_def ascii_lower_def omit_if_def)

lemma cached_status_entry:
  "cache w (status_key i) = Some (status_entry E cfg i s n e t) \<Longrightarrow>
   cached_status i w = Some (to_valid_utf8 s)"
  using status_entry_status [of E cfg i s n e t]
  by (simp add: cached_status_def case_prod_unfold)

lemma cached_literal:
  "cache w (status_key i) = Some (status_entry E cfg i s n e t) \<Longrightarrow> is_ascii s \<Longrightarrow>
   cached_status i w = Some s"
  by (simp add: cached_status_entry)

text \<open>
  A status that was stored is the one read back until the configured time has passed,
  whatever else happened to other entries; afterwards it is not found.
\<close>

lemma SetStatus_GetStatus:
  assumes "valid_status_args E i s e"
    and "run_state (SetStatus E cfg i s n e) w = (Inr (), w1)"
    and "cache w2 (status_key i) = cache w1 (status_key i)"
    and "x_kv E (ticks w2) = None"
    and "0 < sint (co_KeyDBStatusTTL cfg)"
  shows "fst (run_state (GetStatus_kv E i) w2) =
    (if x_clock E (ticks w2) < x_clock E (Suc (ticks w)) + sint (co_KeyDBStatusTTL cfg)
     then Inr \<lparr>msc_MailID = i, msc_Status = s, msc_RetryCount = n,
               msc_LastUpdated = x_rfc3339_utc E (x_clock E (ticks w)), msc_ErrorMessage = e\<rparr>
     else Inl ''status not found'')"
proof (cases "x_kv E (Suc (ticks w))")
  case None
  from SetStatus_ok [OF this, of cfg i s n e] assms(2) have w1:
    "cache w1 (status_key i) = Some (Json (marshal_status
       \<lparr>msc_MailID = i, msc_Status = s, msc_RetryCount = n,
        msc_LastUpdated = x_rfc3339_utc E (x_clock E (ticks w)), msc_ErrorMessage = e\<rparr>),
       Some (x_clock E (Suc (ticks w)) + sint (co_KeyDBStatusTTL cfg)))"
    using assms(5) by auto
  have "unmarshal_status (Json (marshal_status
       \<lparr>msc_MailID = i, msc_Status = s, msc_RetryCount = n,
        msc_LastUpdated = x_rfc3339_utc E (x_clock E (ticks w)), msc_ErrorMessage = e\<rparr>)) =
     Some \<lparr>msc_MailID = i, msc_Status = s, msc_RetryCount = n,
        msc_LastUpdated = x_rfc3339_utc E (x_clock E (ticks w)), msc_ErrorMessage = e\<rparr>"
    using assms(1) by (intro unmarshal_marshal_status) (simp add: valid_status_args_def)
  then show ?thesis
    using assms(3,4) w1 by (simp add: GetStatus_kv_def kv_Get_def Let_def)
next
  case (Some err)
  with SetStatus_failed [OF this, of cfg i s n e] assms(2) show ?thesis by simp
qed

lemma SetStatus_GetStatus_witness:
  "map_sum id msc_Status (fst (run_state (GetStatus_kv sample_ext ''m1'')
      (snd (run_state (SetStatus sample_ext default_config ''m1'' ''sent'' 0 []) sample_world))))
   = Inr ''sent''"
proof -
  let ?w = "snd (run_state (SetStatus sample_ext default_config ''m1'' ''sent'' 0 []) sample_world)"
  have "run_state (SetStatus sample_ext default_config ''m1'' ''sent'' 0 []) sample_world = (Inr (), ?w)"
    and t: "ticks ?w = 2"
    by (simp_all add: SetStatus_ok sample_ext_def sample_world_def)
  moreover have "valid_status_args sample_ext ''m1'' ''sent'' []"
    by (simp add: valid_status_args_def sample_ext_def is_ascii_def)
  ultimately show ?thesis
    using SetStatus_GetStatus [of sample_ext "''m1''" "''sent''" "[]" default_config 0 sample_world ?w ?w]
    by (simp add: t sample_ext_def sample_world_def)
qed

text \<open>What writing a status leaves: the entry, or nothing when the cache fails.\<close>

definition status_written :: "ext \<Rightarrow> config \<Rightarrow> string \<Rightarrow> string \<Rightarrow> world \<Rightarrow> world \<Rightarrow> bool" where
  "status_written E cfg i s w w' \<longleftrightarrow> cache w' = cache w
     \<or> (\<exists>t. cache w' = (cache w)(status_key i \<mapsto> status_entry E cfg i s 0 [] t))"

lemma SetStatus_store:
  "run_state (SetStatus E cfg i s 0 []) w = (r, w') \<Longrightarrow>
   broker w' = broker w \<and> mails w' = mails w \<and> status_written E cfg i s w w'"
  by (cases "x_kv E (Suc (ticks w))")
     (auto simp: SetStatus_ok SetStatus_failed status_written_def status_entry_def)

end
