(* ===== verification/SenderConfigHandler.thy ===== *)
theory SenderConfigHandler
  imports Api SenderConfig KeyDB
begin

text \<open>
  \<open>internal/api/handlers/sender_config_handler.go\<close> over the service of the theory
  \<open>SenderConfig\<close>, and \<open>internal/api/handlers/health_handler.go\<close>. The five handlers exist only
  when the service does, so that its key is no option here.
\<close>

section \<open>Requests and answers\<close>

definition put_create_sender_config ::
  "string \<Rightarrow> jv \<Rightarrow> create_sender_config_request \<Rightarrow> create_sender_config_request option" where
  "put_create_sender_config k j r =
     (if k = ''sender_email'' then map_option (\<lambda>v. r\<lparr>csr_SenderEmail := v\<rparr>) (dec_string j (csr_SenderEmail r))
      else if k = ''ms_tenant_id'' then map_option (\<lambda>v. r\<lparr>csr_MSTenantID := v\<rparr>) (dec_string j (csr_MSTenantID r))
      else if k = ''ms_client_id'' then map_option (\<lambda>v. r\<lparr>csr_MSClientID := v\<rparr>) (dec_string j (csr_MSClientID r))
      else if k = ''ms_client_secret'' then
        map_option (\<lambda>v. r\<lparr>csr_MSClientSecret := v\<rparr>) (dec_string j (csr_MSClientSecret r))
      else Some r)"

definition zero_create_sender_config :: create_sender_config_request where
  "zero_create_sender_config =
     \<lparr>csr_SenderEmail = [], csr_MSTenantID = [], csr_MSClientID = [], csr_MSClientSecret = []\<rparr>"

definition valid_create_sender_config :: "ext \<Rightarrow> create_sender_config_request \<Rightarrow> bool" where
  "valid_create_sender_config E r \<longleftrightarrow>
     csr_SenderEmail r \<noteq> [] \<and> x_is_email E (csr_SenderEmail r) \<and> csr_MSTenantID r \<noteq> []
     \<and> csr_MSClientID r \<noteq> [] \<and> csr_MSClientSecret r \<noteq> []"

fun dec_bool_ptr :: "jv \<Rightarrow> bool option option" where
  "dec_bool_ptr (JB b) = Some (Some b)"
| "dec_bool_ptr JNull = Some None"
| "dec_bool_ptr _ = None"

definition put_update_sender_config ::
  "string \<Rightarrow> jv \<Rightarrow> update_sender_config_request \<Rightarrow> update_sender_config_request option" where
  "put_update_sender_config k j r =
     (if k = ''ms_tenant_id'' then map_option (\<lambda>v. r\<lparr>usr_MSTenantID := v\<rparr>) (dec_string j (usr_MSTenantID r))
      else if k = ''ms_client_id'' then map_option (\<lambda>v. r\<lparr>usr_MSClientID := v\<rparr>) (dec_string j (usr_MSClientID r))
      else if k = ''ms_client_secret'' then
        map_option (\<lambda>v. r\<lparr>usr_MSClientSecret := v\<rparr>) (dec_string j (usr_MSClientSecret r))
      else if k = ''is_active'' then map_option (\<lambda>v. r\<lparr>usr_IsActive := v\<rparr>) (dec_bool_ptr j)
      else Some r)"

definition zero_update_sender_config :: update_sender_config_request where
  "zero_update_sender_config =
     \<lparr>usr_MSTenantID = [], usr_MSClientID = [], usr_MSClientSecret = [], usr_IsActive = None\<rparr>"

definition marshal_sender_config :: "ext \<Rightarrow> sender_config_response \<Rightarrow> jv" where
  "marshal_sender_config E r = JO
     [(''id'', JS (x_uuid_string E (scr_ID r))),
      (''client_token_id'', JS (x_uuid_string E (scr_ClientTokenID r))),
      (''sender_email'', json_string (scr_SenderEmail r)),
      (''ms_tenant_id'', json_string (scr_MSTenantID r)),
      (''ms_client_id'', json_string (scr_MSClientID r)),
      (''ms_client_secret'', json_string (scr_MSClientSecret r)),
      (''is_active'', JB (scr_IsActive r)),
      (''created_at'', JS (x_json_time E (scr_CreatedAt r))),
      (''updated_at'', JS (x_json_time E (scr_UpdatedAt r)))]"

definition sender_config_answer :: "ext \<Rightarrow> nat \<Rightarrow> email_sender_config \<Rightarrow> string \<Rightarrow> response" where
  "sender_config_answer E code c secret =
     (code, JO [(''success'', JB True), (''data'', marshal_sender_config E (ToResponse c secret))])"

section \<open>The handlers\<close>

text \<open>The client of the request, or the answer (or panic) that ends it.\<close>

definition request_client :: "ext \<Rightarrow> gin_values \<Rightarrow> (response + uuid) outcome" where
  "request_client E ctx =
     (case ctx ''client_token_id'' of
        None \<Rightarrow> Returns (Inl (gin_error 401 ''unauthorized'' ''Client token ID not found''))
      | Some v \<Rightarrow>
          (case as_string (Some v) of
             None \<Rightarrow> Panics
           | Some s \<Rightarrow>
               (case x_uuid_parse E s of
                  Inl _ \<Rightarrow> Returns (Inl (gin_error 400 ''invalid_client_token_id'' ''Invalid client token ID''))
                | Inr i \<Rightarrow> Returns (Inr i))))"

definition CreateSenderConfig ::
  "ext \<Rightarrow> config \<Rightarrow> bytes \<Rightarrow> gin_values \<Rightarrow> payload \<Rightarrow> (world, response outcome) state" where
  "CreateSenderConfig E cfg key ctx body =
     (case request_client E ctx of
        Panics \<Rightarrow> ret Panics
      | Returns (Inl answer) \<Rightarrow> ret (Returns answer)
      | Returns (Inr clientTokenID) \<Rightarrow>
          (case ShouldBindJSON E put_create_sender_config zero_create_sender_config
                  (valid_create_sender_config E) body of
             Inl err \<Rightarrow> ret (Returns (gin_error 400 ''validation_error'' err))
           | Inr req \<Rightarrow> do {
               r \<leftarrow> Create E cfg key clientTokenID req;
               ret (Returns (case r of
                 Inl err \<Rightarrow> gin_error 400 ''create_error'' err
               | Inr c \<Rightarrow> sender_config_answer E 201 c (csr_MSClientSecret req))) }))"

definition ListSenderConfigs :: "ext \<Rightarrow> gin_values \<Rightarrow> (world, response outcome) state" where
  "ListSenderConfigs E ctx =
     (case request_client E ctx of
        Panics \<Rightarrow> ret Panics
      | Returns (Inl answer) \<Rightarrow> ret (Returns answer)
      | Returns (Inr clientTokenID) \<Rightarrow> do {
          r \<leftarrow> ListByClientTokenID E clientTokenID;
          ret (Returns (case r of
            Inl err \<Rightarrow> gin_error 500 ''list_error'' err
          | Inr cs \<Rightarrow> (200, JO
              [(''success'', JB True), (''total'', JI (int (length cs))),
               (''data'', JA (map (\<lambda>c. marshal_sender_config E (ToResponse c [])) cs))]))) })"

definition with_config_id ::
  "ext \<Rightarrow> string \<Rightarrow> (uuid \<Rightarrow> (world, response) state) \<Rightarrow> (world, response) state" where
  "with_config_id E configID f =
     (case x_uuid_parse E configID of
        Inl _ \<Rightarrow> ret (gin_error 400 ''invalid_id'' ''Invalid config ID'')
      | Inr i \<Rightarrow> f i)"

definition GetSenderConfig :: "ext \<Rightarrow> string \<Rightarrow> (world, response) state" where
  "GetSenderConfig E configID = with_config_id E configID (\<lambda>i. do {
     r \<leftarrow> GetByID E i;
     ret (case r of
            Inl _ \<Rightarrow> gin_error 404 ''not_found'' ''Sender config not found''
          | Inr c \<Rightarrow> sender_config_answer E 200 c []) })"

definition UpdateSenderConfig ::
  "ext \<Rightarrow> bytes \<Rightarrow> string \<Rightarrow> payload \<Rightarrow> (world, response) state" where
  "UpdateSenderConfig E key configID body = with_config_id E configID (\<lambda>i.
     case ShouldBindJSON E put_update_sender_config zero_update_sender_config (\<lambda>_. True) body of
       Inl err \<Rightarrow> ret (gin_error 400 ''validation_error'' err)
     | Inr req \<Rightarrow> do {
         r \<leftarrow> Update E key i req;
         ret (case r of
                Inl err \<Rightarrow> gin_error 400 ''update_error'' err
              | Inr c \<Rightarrow> sender_config_answer E 200 c []) })"

definition DeleteSenderConfig :: "ext \<Rightarrow> string \<Rightarrow> (world, response) state" where
  "DeleteSenderConfig E configID = with_config_id E configID (\<lambda>i. do {
     err \<leftarrow> Delete E i;
     ret (case err of
            Some e \<Rightarrow> gin_error 404 ''delete_error'' e
          | None \<Rightarrow> (200, JO [(''success'', JB True),
              (''message'', JS (''Sender config '' @ utf8 [229, 183, 178, 229, 136, 170, 233, 153, 164]))])) })"

section \<open>Health\<close>

text \<open>
  Getting the handle of the connection pool cannot fail for the driver in use; the entry of
  RabbitMQ is a constant. The time limit of five seconds is part of the outcome of the pings.
\<close>

definition Health :: "ext \<Rightarrow> (world, response) state" where
  "Health E = do {
     db \<leftarrow> db_Ping E;
     kv \<leftarrow> Ping E;
     let ok = (\<lambda>b. JS (if b then ''ok'' else ''error''));
     let degraded = (db \<noteq> None \<or> \<not> kv);
     ret (if degraded then 503 else 200, JO
       [(''status'', JS (if degraded then ''degraded'' else ''healthy'')),
        (''version'', JS ''1.0.0''),
        (''services'', JO
          [(''postgresql'', ok (db = None)), (''keydb'', ok kv), (''rabbitmq'', ok True)])]) }"

end
