(* ===== verification/Auth.thy ===== *)
theory Auth
  imports Api
begin

text \<open>
  Who may call the API: \<open>internal/api/middlewares/auth.go\<close> (the JWT check and the permission
  check), \<open>internal/api/handlers/auth_handler.go\<close> (token management) and
  \<open>internal/services/admin_token_service.go\<close> (the administrator's token). The JWT library is
  a parameter: what a text decodes to, whether a secret verifies it, whether its time claims
  accept a moment, and signing. Writing the token to the log is not modelled.
\<close>

section \<open>The middlewares\<close>

definition claim :: "(string \<times> jv) list \<Rightarrow> string \<Rightarrow> jv" where
  "claim claims k = (case map_of claims k of None \<Rightarrow> JNull | Some v \<Rightarrow> v)"

definition invalid_token :: response where
  "invalid_token = gin_error 401 ''invalid_token'' ''Invalid or expired token''"

definition JWTAuth :: "ext \<Rightarrow> config \<Rightarrow> string \<Rightarrow> (world, response + gin_values) state" where
  "JWTAuth E cfg authHeader =
     (if authHeader = [] then
        ret (Inl (gin_error 401 ''missing_token'' ''Authorization header is required''))
      else
        let parts = split_once CHR '' '' authHeader in
        if length parts \<noteq> 2 \<or> ToLower (x_lower E) (parts ! 0) \<noteq> ''bearer'' then
          ret (Inl (gin_error 401 ''invalid_token_format'' ''Authorization header must be Bearer token''))
        else
          let tokenString = parts ! 1 in
          case x_jwt_decode E tokenString of
            None \<Rightarrow> ret (Inl invalid_token)
          | Some token \<Rightarrow>
              if \<not> jwt_hmac token \<or> \<not> x_jwt_verify E tokenString (co_JWTSecret cfg)
              then ret (Inl invalid_token)
              else (case jwt_claims token of
                None \<Rightarrow> ret (Inl (gin_error 401 ''invalid_claims'' ''Invalid token claims''))
              | Some claims \<Rightarrow> do {
                  now \<leftarrow> time_Now E;
                  if \<not> x_jwt_current E now claims then ret (Inl invalid_token)
                  else (case claim claims ''client_id'' of
                    JS clientID \<Rightarrow>
                      if clientID = [] then
                        ret (Inl (gin_error 401 ''invalid_client'' ''Token missing client_id''))
                      else do {
                        r \<leftarrow> tokens_First E (\<lambda>k. tok_ClientID k = clientID \<and> tok_IsActive k);
                        ret (case r of
                          Inl _ \<Rightarrow> Inl (gin_error 401 ''token_revoked'' ''Token has been revoked or is inactive'')
                        | Inr clientToken \<Rightarrow> Inr
                            [''client_id'' \<mapsto> GoJson (JS clientID),
                             ''client_name'' \<mapsto> GoJson (claim claims ''client_name''),
                             ''department'' \<mapsto> GoJson (claim claims ''department''),
                             ''permissions'' \<mapsto> GoJson (claim claims ''permissions''),
                             ''client_token_id'' \<mapsto> GoJson (JS (x_uuid_string E (tok_ID clientToken)))]) }
                  | _ \<Rightarrow> ret (Inl (gin_error 401 ''invalid_client'' ''Token missing client_id''))) }))"

text \<open>The strings among the elements of the claim; any other value counts as no permission.\<close>

fun string_elements :: "jv list \<Rightarrow> string list" where
  "string_elements [] = []"
| "string_elements (JS s # js) = s # string_elements js"
| "string_elements (_ # js) = string_elements js"

definition permissions_of :: "go_value \<Rightarrow> string list" where
  "permissions_of v =
     (case v of
        GoJson (JA js) \<Rightarrow> string_elements js
      | GoStrings ss \<Rightarrow> ss
      | _ \<Rightarrow> [])"

definition RequirePermission :: "string \<Rightarrow> gin_values \<Rightarrow> response option" where
  "RequirePermission permission ctx =
     (case ctx ''permissions'' of
        None \<Rightarrow> Some (gin_error 403 ''no_permissions'' ''No permissions found'')
      | Some v \<Rightarrow>
          if list_ex (\<lambda>p. p = permission \<or> p = ''admin'') (permissions_of v) then None
          else Some (gin_error 403 ''permission_denied''
                 ''You don't have permission to access this resource''))"

section \<open>Token management\<close>

definition hex_digit :: "nat \<Rightarrow> char" where
  "hex_digit n = ''0123456789abcdef'' ! n"

definition hex_encode :: "bytes \<Rightarrow> string" where
  "hex_encode d = concat (map (\<lambda>c. [hex_digit (of_char c div 16), hex_digit (of_char c mod 16)]) d)"

definition put_create_token :: "string \<Rightarrow> jv \<Rightarrow> create_token_request \<Rightarrow> create_token_request option" where
  "put_create_token k j r =
     (if k = ''client_name'' then map_option (\<lambda>v. r\<lparr>ctr_ClientName := v\<rparr>) (dec_string j (ctr_ClientName r))
      else if k = ''department'' then map_option (\<lambda>v. r\<lparr>ctr_Department := v\<rparr>) (dec_string j (ctr_Department r))
      else if k = ''permissions'' then map_option (\<lambda>v. r\<lparr>ctr_Permissions := v\<rparr>) (dec_strings j)
      else Some r)"

definition zero_create_token :: create_token_request where
  "zero_create_token = \<lparr>ctr_ClientName = [], ctr_Department = [], ctr_Permissions = []\<rparr>"

definition valid_create_token :: "create_token_request \<Rightarrow> bool" where
  "valid_create_token r \<longleftrightarrow> ctr_ClientName r \<noteq> [] \<and> 1 \<le> length (ctr_Permissions r)"

definition token_claims ::
  "ext \<Rightarrow> uuid \<Rightarrow> int \<Rightarrow> string \<Rightarrow> string \<Rightarrow> string \<Rightarrow> string list \<Rightarrow> (string \<times> jv) list" where
  "token_claims E subj now clientID clientName department permissions =
     [(''iss'', JS ''mail-proxy-system''),
      (''sub'', JS (x_uuid_string E subj)),
      (''iat'', JI (now div 1000000000)),
      (''client_id'', json_string clientID),
      (''client_name'', json_string clientName),
      (''department'', json_string department),
      (''permissions'', json_strings permissions)]"

text \<open>\<open>fmt.Sprintf("client_%s", uuid.New().String()[:8])\<close>\<close>

definition new_client_id :: "ext \<Rightarrow> uuid \<Rightarrow> string" where
  "new_client_id E u = ''client_'' @ take 8 (x_uuid_string E u)"

definition CreateToken :: "ext \<Rightarrow> config \<Rightarrow> payload \<Rightarrow> (world, response) state" where
  "CreateToken E cfg body =
     (case ShouldBindJSON E put_create_token zero_create_token valid_create_token body of
        Inl err \<Rightarrow> ret (gin_error 400 ''validation_error'' err)
      | Inr req \<Rightarrow> do {
          u \<leftarrow> uuid_New E;
          let clientID = new_client_id E u;
          now \<leftarrow> time_Now E;
          subj \<leftarrow> uuid_New E;
          case x_jwt_sign E (token_claims E subj now clientID (ctr_ClientName req)
                 (ctr_Department req) (ctr_Permissions req)) (co_JWTSecret cfg) of
            Inl _ \<Rightarrow> ret (gin_error 500 ''token_generation_error'' ''Failed to generate token'')
          | Inr tokenString \<Rightarrow> do {
              i \<leftarrow> uuid_New E;
              r \<leftarrow> tokens_Create E
                \<lparr>tok_ID = i, tok_ClientID = clientID, tok_ClientName = ctr_ClientName req,
                 tok_Department = ctr_Department req, tok_Permissions = ctr_Permissions req,
                 tok_TokenHash = hex_encode (x_sha256 E tokenString), tok_CreatedAt = 0,
                 tok_RevokedAt = None, tok_IsActive = True\<rparr>;
              ret (case r of
                Inl _ \<Rightarrow> gin_error 500 ''database_error'' ''Failed to save token''
              | Inr clientToken \<Rightarrow> (201, JO
                  [(''token'', json_string tokenString),
                   (''client_id'', json_string clientID),
                   (''created_at'', JS (x_json_time E (tok_CreatedAt clientToken)))])) } })"

definition marshal_client_token :: "ext \<Rightarrow> client_token \<Rightarrow> jv" where
  "marshal_client_token E k = JO (
     [(''id'', JS (x_uuid_string E (tok_ID k))),
      (''client_id'', json_string (tok_ClientID k)),
      (''client_name'', json_string (tok_ClientName k))]
     @ omit_if (tok_Department k = []) ''department'' (json_string (tok_Department k))
     @ [(''permissions'', json_strings (tok_Permissions k)),
        (''created_at'', JS (x_json_time E (tok_CreatedAt k)))]
     @ (case tok_RevokedAt k of None \<Rightarrow> [] | Some t \<Rightarrow> [(''revoked_at'', JS (x_json_time E t))])
     @ [(''is_active'', JB (tok_IsActive k))])"

text \<open>By client identifier, or also by row identifier when the text parses as one.\<close>

definition token_selected :: "ext \<Rightarrow> string \<Rightarrow> client_token \<Rightarrow> bool" where
  "token_selected E tokenID k \<longleftrightarrow>
     tok_ClientID k = tokenID
     \<or> ((case x_uuid_parse E tokenID of Inr _ \<Rightarrow> True | Inl _ \<Rightarrow> False) \<and> id_is E tokenID (tok_ID k))"

definition GetToken :: "ext \<Rightarrow> string \<Rightarrow> (world, response) state" where
  "GetToken E tokenID = do {
     r \<leftarrow> tokens_First E (token_selected E tokenID);
     ret (case r of
            Inl _ \<Rightarrow> gin_error 404 ''not_found'' ''Token not found''
          | Inr clientToken \<Rightarrow> (200, marshal_client_token E clientToken)) }"

definition RevokeToken :: "ext \<Rightarrow> string \<Rightarrow> (world, response) state" where
  "RevokeToken E tokenID = do {
     now \<leftarrow> time_Now E;
     r \<leftarrow> tokens_Update E (token_selected E tokenID)
       (\<lambda>k. k\<lparr>tok_IsActive := False, tok_RevokedAt := Some now\<rparr>);
     let rowsAffected = (case r of Inl _ \<Rightarrow> 0 | Inr n \<Rightarrow> n);
     ret (if rowsAffected = 0 then gin_error 404 ''not_found'' ''Token not found''
          else (200, JO [(''success'', JB True), (''message'',
            JS (''Token '' @ utf8 [229, 183, 178, 230, 146, 164, 233, 138, 183]))])) }"

text \<open>An error of the query is not looked at: the list is then empty.\<close>

definition ListTokens :: "ext \<Rightarrow> (world, response) state" where
  "ListTokens E = do {
     r \<leftarrow> tokens_Find E;
     let ts = (case r of Inl _ \<Rightarrow> [] | Inr ts \<Rightarrow> ts);
     ret (200, JO [(''total'', JI (int (length ts))), (''data'', JA (map (marshal_client_token E) ts))]) }"

section \<open>The administrator's token\<close>

definition MISAdminClientID :: string where "MISAdminClientID = ''mis-admin''"

definition MISAdminDepartment :: string where "MISAdminDepartment = ''MIS''"

definition generateJWTToken :: "ext \<Rightarrow> config \<Rightarrow> (world, go_error + string) state" where
  "generateJWTToken E cfg = do {
     now \<leftarrow> time_Now E;
     subj \<leftarrow> uuid_New E;
     ret (x_jwt_sign E (token_claims E subj now MISAdminClientID (co_AdminTokenName cfg)
            MISAdminDepartment [''admin'']) (co_JWTSecret cfg)) }"

definition createNewToken :: "ext \<Rightarrow> config \<Rightarrow> (world, go_error option) state" where
  "createNewToken E cfg = do {
     r \<leftarrow> generateJWTToken E cfg;
     case r of
       Inl e \<Rightarrow> ret (Some e)
     | Inr tokenString \<Rightarrow> do {
         i \<leftarrow> uuid_New E;
         r \<leftarrow> tokens_Create E
           \<lparr>tok_ID = i, tok_ClientID = MISAdminClientID, tok_ClientName = co_AdminTokenName cfg,
            tok_Department = MISAdminDepartment, tok_Permissions = [''admin''],
            tok_TokenHash = hex_encode (x_sha256 E tokenString), tok_CreatedAt = 0,
            tok_RevokedAt = None, tok_IsActive = True\<rparr>;
         ret (case r of Inl e \<Rightarrow> Some (gorm_text e) | Inr _ \<Rightarrow> None) } }"

definition regenerateToken :: "ext \<Rightarrow> config \<Rightarrow> client_token \<Rightarrow> (world, go_error option) state" where
  "regenerateToken E cfg existingToken = do {
     r \<leftarrow> generateJWTToken E cfg;
     case r of
       Inl e \<Rightarrow> ret (Some e)
     | Inr tokenString \<Rightarrow> do {
         r \<leftarrow> tokens_Save E (existingToken\<lparr>
             tok_TokenHash := hex_encode (x_sha256 E tokenString),
             tok_IsActive := True,
             tok_RevokedAt := None,
             tok_ClientName := co_AdminTokenName cfg\<rparr>);
         ret (case r of Inl e \<Rightarrow> Some (gorm_text e) | Inr _ \<Rightarrow> None) } }"

definition InitializeAdminToken :: "ext \<Rightarrow> config \<Rightarrow> (world, go_error option) state" where
  "InitializeAdminToken E cfg =
     (if \<not> co_InitAdminToken cfg then ret None
      else do {
        r \<leftarrow> tokens_First E (\<lambda>k. tok_ClientID k = MISAdminClientID);
        case r of
          Inr existingToken \<Rightarrow>
            if tok_IsActive existingToken then ret None
            else regenerateToken E cfg existingToken
        | Inl err \<Rightarrow>
            if err \<noteq> ErrRecordNotFound then ret (Some (gorm_text err))
            else createNewToken E cfg })"

section \<open>What the middlewares guarantee\<close>

lemma tokens_First_run:
  "run_state (tokens_First E P) w =
     (case x_db E (ticks w) of
        Some e \<Rightarrow> Inl (DBError e)
      | None \<Rightarrow> (case t_first tok_ID P (tokens w) of None \<Rightarrow> Inl ErrRecordNotFound | Some c \<Rightarrow> Inr c),
      w\<lparr>ticks := Suc (ticks w)\<rparr>)"
  by (simp add: tokens_First_def db_exec_def split: option.splits)

text \<open>The context of an accepted request.\<close>

definition token_ctx :: "ext \<Rightarrow> (string \<times> jv) list \<Rightarrow> string \<Rightarrow> client_token \<Rightarrow> gin_values" where
  "token_ctx E claims clientID row =
     [''client_id'' \<mapsto> GoJson (JS clientID),
      ''client_name'' \<mapsto> GoJson (claim claims ''client_name''),
      ''department'' \<mapsto> GoJson (claim claims ''department''),
      ''permissions'' \<mapsto> GoJson (claim claims ''permissions''),
      ''client_token_id'' \<mapsto> GoJson (JS (x_uuid_string E (tok_ID row)))]"

text \<open>A header with a token whose signature and time claims are good, and its claims.\<close>

definition bearer :: "ext \<Rightarrow> config \<Rightarrow> string \<Rightarrow> int \<Rightarrow> (string \<times> jv) list \<Rightarrow> bool" where
  "bearer E cfg header now claims \<longleftrightarrow>
     (\<exists>scheme t tok. header = scheme @ CHR '' '' # t \<and> ToLower (x_lower E) scheme = ''bearer''
        \<and> CHR '' '' \<notin> set scheme
        \<and> x_jwt_decode E t = Some tok \<and> jwt_hmac tok \<and> jwt_claims tok = Some claims
        \<and> x_jwt_verify E t (co_JWTSecret cfg) \<and> x_jwt_current E now claims)"

lemma split_once_head: "split_once c s = [a, b] \<Longrightarrow> c \<notin> set a \<and> s = a @ c # b"
  by (induction s arbitrary: a) (auto split: if_splits list.splits)

lemma JWTAuth_bearer:
  assumes "bearer E cfg header (x_clock E (ticks w)) claims"
  shows "run_state (JWTAuth E cfg header) w =
    (case claim claims ''client_id'' of
       JS cid \<Rightarrow>
         if cid = [] then (Inl (gin_error 401 ''invalid_client'' ''Token missing client_id''), w\<lparr>ticks := Suc (ticks w)\<rparr>)
         else (let r = run_state (tokens_First E (\<lambda>k. tok_ClientID k = cid \<and> tok_IsActive k)) (w\<lparr>ticks := Suc (ticks w)\<rparr>) in
           (case fst r of
              Inl _ \<Rightarrow> Inl (gin_error 401 ''token_revoked'' ''Token has been revoked or is inactive'')
            | Inr row \<Rightarrow> Inr (token_ctx E claims cid row), snd r))
     | _ \<Rightarrow> (Inl (gin_error 401 ''invalid_client'' ''Token missing client_id''), w\<lparr>ticks := Suc (ticks w)\<rparr>))"
proof -
  from assms obtain scheme t tok where h: "header = scheme @ CHR '' '' # t"
    "ToLower (x_lower E) scheme = ''bearer''" "CHR '' '' \<notin> set scheme"
    "x_jwt_decode E t = Some tok" "jwt_hmac tok" "jwt_claims tok = Some claims"
    "x_jwt_verify E t (co_JWTSecret cfg)" "x_jwt_current E (x_clock E (ticks w)) claims"
    by (auto simp: bearer_def)
  then have "split_once CHR '' '' header = [scheme, t]" by (simp add: split_once_found)
  then show ?thesis using h
    by (simp add: JWTAuth_def Let_def tokens_First_run token_ctx_def split: jv.splits option.splits sum.splits)
qed

lemma JWTAuth_not_bearer:
  assumes "\<forall>claims. \<not> bearer E cfg header (x_clock E (ticks w)) claims"
  shows "\<exists>resp. fst (run_state (JWTAuth E cfg header) w) = Inl resp \<and> fst resp = 401"
proof (cases "split_once CHR '' '' header")
  case (Cons scheme rest)
  note c1 = Cons
  show ?thesis
  proof (cases rest)
    case (Cons t more)
    show ?thesis
    proof (cases "more = [] \<and> ToLower (x_lower E) scheme = ''bearer''")
      case True
      then have s: "split_once CHR '' '' header = [scheme, t]" using c1 Cons by simp
      have h: "CHR '' '' \<notin> set scheme" "header = scheme @ CHR '' '' # t"
        using split_once_head [OF s] by simp_all
      have nb: "\<not> x_jwt_current E (x_clock E (ticks w)) claims"
        if "x_jwt_decode E t = Some tok" "jwt_hmac tok" "jwt_claims tok = Some claims"
          "x_jwt_verify E t (co_JWTSecret cfg)" for tok claims
        using assms [THEN spec, of claims] h True that unfolding bearer_def by blast
      have "header \<noteq> []" using h(2) by simp
      then show ?thesis using True nb
        by (simp add: JWTAuth_def Let_def s gin_error_def invalid_token_def split: option.splits)
    qed (use c1 Cons in \<open>auto simp: JWTAuth_def Let_def gin_error_def\<close>)
  qed (use c1 in \<open>simp add: JWTAuth_def Let_def gin_error_def\<close>)
qed (simp add: JWTAuth_def Let_def gin_error_def)

lemma JWTAuth_within [frames]: "frame_rel R \<Longrightarrow> ticked R \<Longrightarrow> within R (JWTAuth E cfg header)"
  unfolding JWTAuth_def Let_def
  by (intro frames frame_rel.rules [of R] jv_string_within)

lemma JWTAuth_ok:
  "fst (run_state (JWTAuth E cfg header) w) = Inr ctx \<longleftrightarrow>
   (\<exists>claims clientID row. bearer E cfg header (x_clock E (ticks w)) claims
      \<and> claim claims ''client_id'' = JS clientID \<and> clientID \<noteq> []
      \<and> x_db E (Suc (ticks w)) = None
      \<and> t_first tok_ID (\<lambda>k. tok_ClientID k = clientID \<and> tok_IsActive k) (tokens w) = Some row
      \<and> ctx = token_ctx E claims clientID row)"
  (is "?l \<longleftrightarrow> ?r")
proof
  assume l: ?l
  then obtain claims where b: "bearer E cfg header (x_clock E (ticks w)) claims"
    using JWTAuth_not_bearer [of E cfg header w] by fastforce
  from l [unfolded JWTAuth_bearer [OF b]] b show ?r
    by (auto simp: tokens_First_run Let_def split: jv.splits if_splits option.splits)
next
  assume ?r
  then show ?l by (auto simp: JWTAuth_bearer tokens_First_run Let_def)
qed

text \<open>
  C13: a request gets past the check exactly when its header carries a bearer token (the scheme
  in any case) that decodes, names an HMAC method, is verified by the configured secret and
  is within its time claims, whose \<open>client_id\<close> is a text other than the empty one, and the
  database answers with an active row of that client. The handler then sees the claims and
  the identifier of that row.
\<close>

theorem JWTAuth_exact:
  "fst (run_state (JWTAuth E cfg header) w) = Inr ctx \<longleftrightarrow>
   (\<exists>claims clientID row. bearer E cfg header (x_clock E (ticks w)) claims
      \<and> claim claims ''client_id'' = JS clientID \<and> clientID \<noteq> []
      \<and> x_db E (Suc (ticks w)) = None
      \<and> t_first tok_ID (\<lambda>k. tok_ClientID k = clientID \<and> tok_IsActive k) (tokens w) = Some row
      \<and> ctx = token_ctx E claims clientID row)"
  by (rule JWTAuth_ok)

lemma revoked_row:
  assumes "run_state (RevokeToken E tokenID) w = (resp, w1)" and "fst resp = 200"
    and "k1 \<in> set (tokens w1)" and "token_selected E tokenID k1"
  shows "\<not> tok_IsActive k1"
proof -
  have "tokens w1 = map (\<lambda>k. if token_selected E tokenID k
      then k\<lparr>tok_IsActive := False, tok_RevokedAt := Some (x_clock E (ticks w))\<rparr> else k) (tokens w)"
    using assms(1,2)
    by (cases "x_db E (Suc (ticks w))")
       (auto simp: RevokeToken_def tokens_Update_def db_exec_def Let_def gin_error_def t_update_def)
  with assms(3) obtain k where "k1 = (if token_selected E tokenID k
      then k\<lparr>tok_IsActive := False, tok_RevokedAt := Some (x_clock E (ticks w))\<rparr> else k)"
    unfolding in_set_conv_nth by fastforce
  with assms(4) show ?thesis by (cases "token_selected E tokenID k") simp_all
qed

lemma revoked_tokens:
  assumes "run_state (RevokeToken E tokenID) w = (resp, w1)"
  shows "map (\<lambda>k. (tok_ClientID k, tok_ID k)) (tokens w1) = map (\<lambda>k. (tok_ClientID k, tok_ID k)) (tokens w)"
proof -
  have "within (same (\<lambda>w. map (\<lambda>k. (tok_ClientID k, tok_ID k)) (tokens w))) (RevokeToken E tokenID)"
    unfolding RevokeToken_def Let_def
    by (intro frames same.rules) (simp_all add: same_def t_update_def)
  then show ?thesis using assms by (rule within_same)
qed

text \<open>
  C29: after a revocation was confirmed, no header whatever gets a request of that client past
  the check, as long as the table is not changed again: neither when the token was named by
  its client identifier nor by its row identifier.
\<close>

theorem revoked_is_rejected:
  assumes "run_state (RevokeToken E tokenID) w = (resp, w1)" and "fst resp = 200"
    and "t_keys_unique tok_ClientID (tokens w)" and "k \<in> set (tokens w)" and "token_selected E tokenID k"
    and "tokens w2 = tokens w1" and "fst (run_state (JWTAuth E cfg header) w2) = Inr ctx"
  shows "ctx ''client_id'' \<noteq> Some (GoJson (JS (tok_ClientID k)))"
proof
  assume c: "ctx ''client_id'' = Some (GoJson (JS (tok_ClientID k)))"
  from assms(7) [unfolded JWTAuth_ok] obtain claims clientID row where
    f: "t_first tok_ID (\<lambda>k. tok_ClientID k = clientID \<and> tok_IsActive k) (tokens w2) = Some row"
    and ctx: "ctx = token_ctx E claims clientID row" by blast
  from c ctx have "clientID = tok_ClientID k" by (simp add: token_ctx_def)
  with t_first_Some [OF f] have row: "row \<in> set (tokens w1)" "tok_ClientID row = tok_ClientID k" "tok_IsActive row"
    by (simp_all add: assms(6))
  note keys = revoked_tokens [OF assms(1)]
  have "(tok_ClientID k, tok_ID k) \<in> set (map (\<lambda>k. (tok_ClientID k, tok_ID k)) (tokens w1))"
    unfolding keys using assms(4) by simp
  then obtain k1 where k1: "k1 \<in> set (tokens w1)" "tok_ClientID k1 = tok_ClientID k" "tok_ID k1 = tok_ID k"
    by auto
  have "map tok_ClientID (tokens w1) = map tok_ClientID (tokens w)"
    using arg_cong [OF keys, of "map fst"] by (simp add: comp_def)
  then have "distinct (map tok_ClientID (tokens w1))"
    using assms(3) by (simp add: t_keys_unique_def)
  with row k1 have "row = k1" by (metis (no_types, lifting) distinct_map inj_onD)
  moreover have "\<not> tok_IsActive k1"
    using revoked_row [OF assms(1,2) k1(1)] k1 assms(5) by (simp add: token_selected_def)
  ultimately show False using row(3) by simp
qed

definition sample_token :: client_token where
  "sample_token =
     \<lparr>tok_ID = ''t1'', tok_ClientID = ''c'', tok_ClientName = ''C'', tok_Department = [],
      tok_Permissions = [''mail:send''], tok_TokenHash = [], tok_CreatedAt = 0,
      tok_RevokedAt = None, tok_IsActive = True\<rparr>"

theorem revoked_is_rejected_witness:
  "fst (run_state (JWTAuth sample_ext default_config ''Bearer c'')
     (snd (run_state (RevokeToken sample_ext ''c'') (sample_world\<lparr>tokens := [sample_token]\<rparr>)))) \<noteq>
   Inr (token_ctx sample_ext [(''client_id'', JS ''c'')] ''c'' sample_token)"
proof
  let ?w = "sample_world\<lparr>tokens := [sample_token]\<rparr>"
  let ?r = "run_state (RevokeToken sample_ext ''c'') ?w"
  assume a: "fst (run_state (JWTAuth sample_ext default_config ''Bearer c'') (snd ?r)) =
    Inr (token_ctx sample_ext [(''client_id'', JS ''c'')] ''c'' sample_token)"
  have r: "?r = (fst ?r, snd ?r)" by simp
  have "fst (fst ?r) = 200"
    by (simp add: RevokeToken_def tokens_Update_def db_exec_def Let_def t_count_def token_selected_def
        sample_token_def)
  from revoked_is_rejected [OF r this _ _ _ refl a, of sample_token]
  show False by (simp add: t_keys_unique_def token_selected_def sample_token_def token_ctx_def)
qed

text \<open>
  The documented behaviour of the JWT library and of UUIDs: a signed token decodes to its
  claims, names an HMAC method, is verified by the secret that signed it and is ASCII; claims
  without \<open>exp\<close> and \<open>nbf\<close> are accepted at any time; identifiers are printed in ASCII.
\<close>

definition jwt_library :: "ext \<Rightarrow> bool" where
  "jwt_library E \<longleftrightarrow>
     (\<forall>claims secret s. x_jwt_sign E claims secret = Inr s \<longrightarrow>
        x_jwt_decode E s = Some \<lparr>jwt_hmac = True, jwt_claims = Some claims\<rparr>
        \<and> x_jwt_verify E s secret \<and> is_ascii s)
     \<and> (\<forall>t claims. map_of claims ''exp'' = None \<and> map_of claims ''nbf'' = None \<longrightarrow> x_jwt_current E t claims)
     \<and> (\<forall>u. is_ascii (x_uuid_string E u))"

lemma string_elements_strings [simp]: "string_elements (map json_string ss) = map to_valid_utf8 ss"
  by (induction ss) (simp_all add: json_string_def)

lemma list_ex_two: "list_ex (\<lambda>p. p = q \<or> p = a) xs \<longleftrightarrow> q \<in> set xs \<or> a \<in> set xs"
  by (auto simp: list_ex_iff)

lemma is_ascii_take: "is_ascii s \<Longrightarrow> is_ascii (take n s)"
  by (auto simp: is_ascii_def list_all_iff dest: in_set_takeD)

lemma bearer_of_signed:
  assumes "jwt_library E" "x_jwt_sign E (token_claims E u t c n d ps) (co_JWTSecret cfg) = Inr s"
  shows "bearer E cfg (''Bearer '' @ s) now (token_claims E u t c n d ps)"
proof -
  have "is_ascii ''Bearer''" "map ascii_lower ''Bearer'' = ''bearer''" by code_simp+
  then have "ToLower (x_lower E) ''Bearer'' = ''bearer''" by (simp only: ToLower_ascii)
  moreover have "x_jwt_current E now (token_claims E u t c n d ps)"
    using assms(1) by (simp add: jwt_library_def token_claims_def)
  ultimately show ?thesis
    using assms unfolding bearer_def jwt_library_def
    by (intro exI [of _ "''Bearer''"] exI [of _ s]
          exI [of _ "\<lparr>jwt_hmac = True, jwt_claims = Some (token_claims E u t c n d ps)\<rparr>"]) simp
qed

lemma CreateToken_ok:
  assumes "run_state (CreateToken E cfg body) w = ((201, answer), w1)"
  obtains req s u t cid row where
    "ShouldBindJSON E put_create_token zero_create_token valid_create_token body = Inr req"
    "x_jwt_sign E (token_claims E u t cid (ctr_ClientName req) (ctr_Department req) (ctr_Permissions req))
       (co_JWTSecret cfg) = Inr s"
    "cid = new_client_id E (x_uuid E (ticks w))"
    "answer = JO [(''token'', json_string s), (''client_id'', json_string cid),
       (''created_at'', JS (x_json_time E (tok_CreatedAt row)))]"
    "tokens w1 = t_insert row (tokens w)" "tok_ClientID row = cid" "tok_IsActive row"
    "t_find tok_ClientID cid (tokens w) = None" "tok_Permissions row = ctr_Permissions req"
proof -
  obtain req where req:
    "ShouldBindJSON E put_create_token zero_create_token valid_create_token body = Inr req"
    using assms
    by (cases "ShouldBindJSON E put_create_token zero_create_token valid_create_token body")
       (auto simp: CreateToken_def gin_error_def)
  let ?cid = "new_client_id E (x_uuid E (ticks w))"
  let ?claims = "token_claims E (x_uuid E (Suc (Suc (ticks w)))) (x_clock E (Suc (ticks w))) ?cid
    (ctr_ClientName req) (ctr_Department req) (ctr_Permissions req)"
  obtain s where s: "x_jwt_sign E ?claims (co_JWTSecret cfg) = Inr s"
    using assms req
    by (cases "x_jwt_sign E ?claims (co_JWTSecret cfg)") (auto simp: CreateToken_def Let_def gin_error_def)
  let ?row = "\<lparr>tok_ID = x_uuid E (Suc (Suc (Suc (ticks w)))), tok_ClientID = ?cid,
    tok_ClientName = ctr_ClientName req, tok_Department = ctr_Department req,
    tok_Permissions = ctr_Permissions req, tok_TokenHash = hex_encode (x_sha256 E s),
    tok_CreatedAt = x_clock E (Suc (Suc (Suc (Suc (ticks w))))), tok_RevokedAt = None, tok_IsActive = True\<rparr>"
  have "answer = JO [(''token'', json_string s), (''client_id'', json_string ?cid),
       (''created_at'', JS (x_json_time E (tok_CreatedAt ?row)))]
    \<and> tokens w1 = t_insert ?row (tokens w) \<and> t_find tok_ClientID ?cid (tokens w) = None"
    using assms req s
    by (cases "x_db E (Suc (Suc (Suc (Suc (ticks w)))))")
       (auto simp: CreateToken_def Let_def gin_error_def tokens_Create_def db_exec_def split: if_splits)
  then show thesis by (intro that [OF req s refl, of ?row]) simp_all
qed

text \<open>
  C30: the token of a successful creation works: as a bearer token it passes the check as long
  as the table is not changed, and it carries exactly the permissions that were asked for,
  \<open>admin\<close> standing for all of them.
\<close>

theorem created_token_works:
  assumes "jwt_library E" and "run_state (CreateToken E cfg body) w = ((201, JO answer), w1)"
    and "tokens w2 = tokens w1" and "x_db E (Suc (ticks w2)) = None"
  shows "\<exists>req s ctx. map_of answer ''token'' = Some (JS s)
    \<and> ShouldBindJSON E put_create_token zero_create_token valid_create_token body = Inr req
    \<and> fst (run_state (JWTAuth E cfg (''Bearer '' @ s)) w2) = Inr ctx
    \<and> (\<forall>p. RequirePermission p ctx = None \<longleftrightarrow>
          p \<in> set (map to_valid_utf8 (ctr_Permissions req))
          \<or> ''admin'' \<in> set (map to_valid_utf8 (ctr_Permissions req)))"
proof -
  from CreateToken_ok [OF assms(2)] obtain req s u t cid row where
    req: "ShouldBindJSON E put_create_token zero_create_token valid_create_token body = Inr req"
    and s: "x_jwt_sign E (token_claims E u t cid (ctr_ClientName req) (ctr_Department req) (ctr_Permissions req))
       (co_JWTSecret cfg) = Inr s"
    and cid: "cid = new_client_id E (x_uuid E (ticks w))"
    and answer: "JO answer = JO [(''token'', json_string s), (''client_id'', json_string cid),
       (''created_at'', JS (x_json_time E (tok_CreatedAt row)))]"
    and tab: "tokens w1 = t_insert row (tokens w)" "tok_ClientID row = cid" "tok_IsActive row"
       "t_find tok_ClientID cid (tokens w) = None" by metis
  let ?claims = "token_claims E u t cid (ctr_ClientName req) (ctr_Department req) (ctr_Permissions req)"
  have "is_ascii ''client_''" by code_simp
  moreover have "is_ascii (x_uuid_string E (x_uuid E (ticks w)))" using assms(1) by (simp add: jwt_library_def)
  ultimately have "is_ascii cid"
    unfolding cid new_client_id_def by (simp only: is_ascii_append is_ascii_take)
  then have c: "claim ?claims ''client_id'' = JS cid"
    by (simp add: token_claims_def claim_def json_string_def)
  have "filter (\<lambda>k. tok_ClientID k = cid \<and> tok_IsActive k) (tokens w2) = [row]"
    using tab assms(3) by (auto simp: t_insert_def filter_empty_conv t_find_None image_iff)
  then have "t_first tok_ID (\<lambda>k. tok_ClientID k = cid \<and> tok_IsActive k) (tokens w2) = Some row"
    by (rule t_first_single)
  moreover have "cid \<noteq> []" by (simp add: cid new_client_id_def)
  ultimately have "fst (run_state (JWTAuth E cfg (''Bearer '' @ s)) w2) = Inr (token_ctx E ?claims cid row)"
    using bearer_of_signed [OF assms(1) s, of "x_clock E (ticks w2)"] c assms(4)
    unfolding JWTAuth_ok by blast
  moreover have "map_of answer ''token'' = Some (JS s)"
    using answer assms(1) s by (auto simp: json_string_def jwt_library_def)
  moreover have "RequirePermission p (token_ctx E ?claims cid row) = None \<longleftrightarrow>
      p \<in> set (map to_valid_utf8 (ctr_Permissions req)) \<or> ''admin'' \<in> set (map to_valid_utf8 (ctr_Permissions req))" for p
    by (simp add: RequirePermission_def token_ctx_def token_claims_def claim_def permissions_of_def
        json_strings_def list_ex_two del: set_map)
  ultimately show ?thesis using req by blast
qed

definition sample_claims :: "(string \<times> jv) list" where
  "sample_claims = token_claims sample_ext ''uu'' 1000000000 ''client_'' ''App'' ''IT'' [''mail:send'']"

definition signing_ext :: ext where
  "signing_ext = sample_ext\<lparr>x_jwt_sign := \<lambda>c k. if c = sample_claims then Inr ''jwt'' else Inl ''unknown'',
       x_jwt_decode := \<lambda>s. if s = ''jwt'' then Some \<lparr>jwt_hmac = True, jwt_claims = Some sample_claims\<rparr> else None,
       x_uuid_string := \<lambda>i. if is_ascii i then i else []\<rparr>"

lemma signing_library: "jwt_library signing_ext"
proof -
  have "is_ascii ''jwt''" "is_ascii []" by code_simp+
  then show ?thesis by (simp add: jwt_library_def signing_ext_def sample_ext_def)
qed

definition sample_token_body :: payload where
  "sample_token_body = Json (JO [(''client_name'', JS ''App''), (''department'', JS ''IT''),
     (''permissions'', JA [JS ''mail:send''])])"

lemma sample_token_bound:
  "ShouldBindJSON signing_ext put_create_token zero_create_token valid_create_token sample_token_body
     = Inr \<lparr>ctr_ClientName = ''App'', ctr_Department = ''IT'', ctr_Permissions = [''mail:send'']\<rparr>"
  by (simp add: ShouldBindJSON_def sample_token_body_def put_create_token_def zero_create_token_def
      valid_create_token_def ascii_lower_def)

lemma signing_fields [simp]:
  "x_uuid signing_ext n = replicate n CHR ''u''" "x_clock signing_ext n = int n * 1000000000"
  "x_uuid_string signing_ext i = (if is_ascii i then i else [])" "x_db signing_ext n = None"
  by (simp_all add: signing_ext_def)

lemma signing_created:
  "\<exists>answer w1. run_state (CreateToken signing_ext default_config sample_token_body) sample_world
     = ((201, JO answer), w1)"
proof -
  have a: "is_ascii ''uu''" "is_ascii []" by code_simp+
  then have "token_claims signing_ext ''uu'' 1000000000 ''client_'' ''App'' ''IT'' [''mail:send''] = sample_claims"
    by (simp add: token_claims_def sample_claims_def)
  then have k: "x_jwt_sign signing_ext
      (token_claims signing_ext ''uu'' 1000000000 ''client_'' ''App'' ''IT'' [''mail:send'']) k = Inr ''jwt''" for k
    by (simp add: signing_ext_def)
  have u: "x_uuid signing_ext 0 = []" "x_uuid signing_ext (Suc (Suc 0)) = ''uu''"
    "x_clock signing_ext (Suc 0) = 1000000000" "new_client_id signing_ext [] = ''client_''"
    using a by (simp_all add: new_client_id_def)
  show ?thesis
    by (simp add: CreateToken_def sample_token_bound Let_def tokens_Create_def db_exec_def u k t_find_def
        del: signing_fields(1-3)) 
qed

theorem created_token_works_witness:
  "\<exists>s ctx. fst (run_state (JWTAuth signing_ext default_config (''Bearer '' @ s))
       (snd (run_state (CreateToken signing_ext default_config sample_token_body) sample_world))) = Inr ctx
     \<and> RequirePermission ''mail:send'' ctx = None \<and> RequirePermission ''mail:read'' ctx \<noteq> None"
proof -
  obtain answer w1 where
    r: "run_state (CreateToken signing_ext default_config sample_token_body) sample_world = ((201, JO answer), w1)"
    using signing_created by blast
  have v: "to_valid_utf8 ''mail:send'' = ''mail:send''" by code_simp
  from created_token_works [OF signing_library r refl signing_fields(4)] obtain req s ctx where
    req: "ShouldBindJSON signing_ext put_create_token zero_create_token valid_create_token sample_token_body = Inr req"
    and ctx: "fst (run_state (JWTAuth signing_ext default_config (''Bearer '' @ s)) w1) = Inr ctx"
    and p: "\<And>p. RequirePermission p ctx = None \<longleftrightarrow> p \<in> set (map to_valid_utf8 (ctr_Permissions req))
      \<or> ''admin'' \<in> set (map to_valid_utf8 (ctr_Permissions req))" by metis
  have perms: "map to_valid_utf8 (ctr_Permissions req) = [''mail:send'']"
    using req by (simp add: sample_token_bound) (use v in auto)
  have "RequirePermission ''mail:send'' ctx = None" "RequirePermission ''mail:read'' ctx \<noteq> None"
    by (simp_all add: p perms)
  with ctx show ?thesis unfolding r snd_conv by blast
qed

section \<open>The administrator's token at startup\<close>

lemma regenerateToken_ok:
  assumes "run_state (regenerateToken E cfg k) w = (None, w1)"
  obtains h where "tokens w1 = t_save tok_ID (k\<lparr>tok_TokenHash := h, tok_IsActive := True,
      tok_RevokedAt := None, tok_ClientName := co_AdminTokenName cfg\<rparr>) (tokens w)"
  using assms
  by (auto simp: regenerateToken_def generateJWTToken_def tokens_Save_def db_exec_def
      split: sum.splits option.splits)

lemma createNewToken_ok:
  assumes "run_state (createNewToken E cfg) w = (None, w1)"
  obtains k where "tokens w1 = t_insert k (tokens w)" "tok_ClientID k = MISAdminClientID" "tok_IsActive k"
    "tok_Permissions k = [''admin'']"
  using assms
  by (auto simp: createNewToken_def generateJWTToken_def tokens_Create_def db_exec_def Let_def
      split: sum.splits option.splits if_splits)

lemma filter_map_stable:
  "(\<And>x. P (g x) = P x) \<Longrightarrow> filter P (map g xs) = map g (filter P xs)"
  by (induction xs) auto

lemma InitializeAdminToken_ok:
  assumes "run_state (InitializeAdminToken E cfg) w = (None, w1)" and "co_InitAdminToken cfg"
    and "t_keys_unique tok_ID (tokens w)" and "t_keys_unique tok_ClientID (tokens w)"
  shows "\<exists>k. filter (\<lambda>k. tok_ClientID k = MISAdminClientID) (tokens w1) = [k] \<and> tok_IsActive k"
proof (cases "t_first tok_ID (\<lambda>k. tok_ClientID k = MISAdminClientID) (tokens w)")
  case None
  then have db: "x_db E (ticks w) = None"
    and c: "run_state (createNewToken E cfg) (w\<lparr>ticks := Suc (ticks w)\<rparr>) = (None, w1)"
    using assms(1,2) by (auto simp: InitializeAdminToken_def tokens_First_run split: option.splits)
  have none: "\<forall>k\<in>set (tokens w). tok_ClientID k \<noteq> MISAdminClientID" using None by (simp add: t_first_None)
  from createNewToken_ok [OF c] obtain k where
    "tokens w1 = t_insert k (tokens w)" "tok_ClientID k = MISAdminClientID" "tok_IsActive k" by auto
  then show ?thesis using none by (auto simp: t_insert_def filter_empty_conv)
next
  case (Some k)
  note in_table = t_first_Some [OF Some]
  then have one: "filter (\<lambda>x. tok_ClientID x = MISAdminClientID) (tokens w) = [k]"
    using filter_unique [of tok_ClientID "tokens w" k] assms(4) by (simp add: t_keys_unique_def)
  show ?thesis
  proof (cases "tok_IsActive k")
    case True
    then have "tokens w1 = tokens w" using assms(1,2) Some
      by (auto simp: InitializeAdminToken_def tokens_First_run split: option.splits)
    then show ?thesis using one True by simp
  next
    case False
    then have "run_state (regenerateToken E cfg k) (w\<lparr>ticks := Suc (ticks w)\<rparr>) = (None, w1)"
      using assms(1,2) Some by (auto simp: InitializeAdminToken_def tokens_First_run split: option.splits)
    from regenerateToken_ok [OF this] obtain h where w1: "tokens w1 = t_save tok_ID (k\<lparr>tok_TokenHash := h,
      tok_IsActive := True, tok_RevokedAt := None, tok_ClientName := co_AdminTokenName cfg\<rparr>) (tokens w)"
      (is "_ = t_save tok_ID ?k _") by auto
    have "x = k" if "x \<in> set (tokens w)" "tok_ID x = tok_ID k" for x
      using that in_table assms(3) by (auto simp: t_keys_unique_def distinct_map inj_on_def)
    then have "tokens w1 = map (\<lambda>x. if x = k then ?k else x) (tokens w)"
      using in_table by (auto simp: w1 t_save_def t_update_def t_find_None)
    then have "filter (\<lambda>x. tok_ClientID x = MISAdminClientID) (tokens w1)
        = map (\<lambda>x. if x = k then ?k else x) (filter (\<lambda>x. tok_ClientID x = MISAdminClientID) (tokens w))"
      using in_table by (simp add: filter_map_stable)
    then show ?thesis using one by simp
  qed
qed

text \<open>
  A start that reports no error leaves exactly one administrator's row, and it is active;
  a second start then finds it and writes nothing.
\<close>

lemma InitializeAdminToken_idempotent:
  assumes "run_state (InitializeAdminToken E cfg) w = (None, w1)" and "co_InitAdminToken cfg"
    and "t_keys_unique tok_ID (tokens w)" and "t_keys_unique tok_ClientID (tokens w)"
    and "tokens w2 = tokens w1" and "x_db E (ticks w2) = None"
  shows "(\<exists>k. filter (\<lambda>k. tok_ClientID k = MISAdminClientID) (tokens w1) = [k] \<and> tok_IsActive k)
    \<and> run_state (InitializeAdminToken E cfg) w2 = (None, w2\<lparr>ticks := Suc (ticks w2)\<rparr>)"
proof -
  from InitializeAdminToken_ok [OF assms(1-4)] obtain k where
    k: "filter (\<lambda>k. tok_ClientID k = MISAdminClientID) (tokens w1) = [k]" "tok_IsActive k" by blast
  then have "t_first tok_ID (\<lambda>k. tok_ClientID k = MISAdminClientID) (tokens w2) = Some k"
    by (simp add: assms(5) t_first_single)
  then show ?thesis using k assms(2,6) by (simp add: InitializeAdminToken_def tokens_First_run)
qed

text \<open>
  C38: the check never looks at the stored hash. Once the administrator's row is active again,
  every token with the administrator's \<open>client_id\<close> that the secret verifies is accepted, so
  also one that was issued before the row was revoked.
\<close>

theorem old_admin_token_revives:
  assumes "run_state (InitializeAdminToken E cfg) w = (None, w1)" and "co_InitAdminToken cfg"
    and "t_keys_unique tok_ID (tokens w)" and "t_keys_unique tok_ClientID (tokens w)"
    and "tokens w2 = tokens w1" and "x_db E (Suc (ticks w2)) = None"
    and "bearer E cfg header (x_clock E (ticks w2)) claims"
    and "claim claims ''client_id'' = JS MISAdminClientID"
  shows "\<exists>row. fst (run_state (JWTAuth E cfg header) w2) = Inr (token_ctx E claims MISAdminClientID row)"
proof -
  from InitializeAdminToken_ok [OF assms(1-4)] obtain k where
    k: "filter (\<lambda>k. tok_ClientID k = MISAdminClientID) (tokens w1) = [k]" "tok_IsActive k" by blast
  then have "filter (\<lambda>k. tok_ClientID k = MISAdminClientID \<and> tok_IsActive k) (tokens w2) = [k]"
    by (simp add: assms(5) flip: filter_filter)
  then have "t_first tok_ID (\<lambda>k. tok_ClientID k = MISAdminClientID \<and> tok_IsActive k) (tokens w2) = Some k"
    by (rule t_first_single)
  moreover have "MISAdminClientID \<noteq> []" by (simp add: MISAdminClientID_def)
  ultimately show ?thesis using assms(6-8) unfolding JWTAuth_ok by blast
qed

definition admin_claims :: "(string \<times> jv) list" where
  "admin_claims = token_claims sample_ext ''uu'' 1000000000 ''mis-admin'' ''MIS Admin'' ''MIS'' [''admin'']"

text \<open>An environment whose secret verifies the text \<open>jwt\<close> as an administrator's token.\<close>

definition admin_ext :: ext where
  "admin_ext = sample_ext\<lparr>x_jwt_decode := \<lambda>s. Some \<lparr>jwt_hmac = True, jwt_claims = Some admin_claims\<rparr>\<rparr>"

lemma admin_started:
  "\<exists>w1. run_state (InitializeAdminToken admin_ext default_config) sample_world = (None, w1)"
  by (simp add: InitializeAdminToken_def tokens_First_run createNewToken_def generateJWTToken_def
      tokens_Create_def db_exec_def t_first_def t_find_def Let_def admin_ext_def sample_ext_def)

lemma InitializeAdminToken_idempotent_witness:
  "\<exists>w1 w2. run_state (InitializeAdminToken admin_ext default_config) sample_world = (None, w1)
     \<and> run_state (InitializeAdminToken admin_ext default_config) w1 = (None, w2) \<and> tokens w2 = tokens w1"
proof -
  obtain w1 where r: "run_state (InitializeAdminToken admin_ext default_config) sample_world = (None, w1)"
    using admin_started by blast
  from InitializeAdminToken_idempotent [OF r, of w1] r show ?thesis
    by (simp add: t_keys_unique_def admin_ext_def)
qed

theorem old_admin_token_revives_witness:
  "\<exists>w1 row. run_state (InitializeAdminToken admin_ext default_config) sample_world = (None, w1)
     \<and> fst (run_state (JWTAuth admin_ext default_config ''bearer jwt'') w1)
         = Inr (token_ctx admin_ext admin_claims MISAdminClientID row)"
proof -
  obtain w1 where r: "run_state (InitializeAdminToken admin_ext default_config) sample_world = (None, w1)"
    using admin_started by blast
  have l: "ToLower (x_lower admin_ext) ''bearer'' = ''bearer''"
  proof -
    have "is_ascii ''bearer''" "map ascii_lower ''bearer'' = ''bearer''" by code_simp+
    then show ?thesis by (simp only: ToLower_ascii)
  qed
  have "bearer admin_ext default_config ''bearer jwt'' now admin_claims" for now
    unfolding bearer_def
    by (intro exI [of _ "''bearer''"] exI [of _ "''jwt''"]
          exI [of _ "\<lparr>jwt_hmac = True, jwt_claims = Some admin_claims\<rparr>"])
       (use l in \<open>simp add: admin_ext_def sample_ext_def\<close>)
  moreover have "claim admin_claims ''client_id'' = JS MISAdminClientID"
  proof -
    have "to_valid_utf8 ''mis-admin'' = ''mis-admin''" by code_simp
    then show ?thesis by (simp add: claim_def admin_claims_def token_claims_def json_string_def MISAdminClientID_def)
  qed
  ultimately show ?thesis
    using old_admin_token_revives [OF r, of w1 "''bearer jwt''" admin_claims] r
    by (auto simp: t_keys_unique_def admin_ext_def)
qed

end
