(* ===== verification/Storage.thy ===== *)
theory Storage
  imports Sample Config
begin

text \<open>
  Where attachments are kept: both the API and the SMTP receiver write a file under
  \<open>AttachmentPath/YYYY/MM/DD/<mail id>/<name>\<close> after creating its directory.
\<close>

definition date_path :: "ext \<Rightarrow> int \<Rightarrow> string" where
  "date_path E t =
     (case x_date E t of (y, m, d) \<Rightarrow>
        zero_padded 4 y @ [slash] @ zero_padded 2 m @ [slash] @ zero_padded 2 d)"

definition storage_path :: "ext \<Rightarrow> config \<Rightarrow> int \<Rightarrow> uuid \<Rightarrow> string \<Rightarrow> string" where
  "storage_path E cfg t mailID name =
     path_Join [co_AttachmentPath cfg, date_path E t, x_uuid_string E mailID, name]"

datatype store_error = MkdirFailed go_error | WriteFailed go_error

text \<open>The time is read, the directory made, the file written; yields the path.\<close>

definition store_file :: "ext \<Rightarrow> config \<Rightarrow> uuid \<Rightarrow> string \<Rightarrow> bytes \<Rightarrow> (world, store_error + string) state" where
  "store_file E cfg mailID name content = do {
     t \<leftarrow> time_Now E;
     let p = storage_path E cfg t mailID name;
     r \<leftarrow> fs_MkdirAll E (Dir p);
     case r of
       Inl e \<Rightarrow> ret (Inl (MkdirFailed e))
     | Inr _ \<Rightarrow> do {
         r \<leftarrow> fs_WriteFile E p content;
         ret (case r of Inl e \<Rightarrow> Inl (WriteFailed e) | Inr _ \<Rightarrow> Inr p) } }"

lemma store_file_run:
  "run_state (store_file E cfg i name content) w =
     (let p = storage_path E cfg (x_clock E (ticks w)) i name in
      case x_fs E (Suc (ticks w)) of
        Some e \<Rightarrow> (Inl (MkdirFailed e), w\<lparr>ticks := Suc (Suc (ticks w))\<rparr>)
      | None \<Rightarrow>
          (case x_fs E (Suc (Suc (ticks w))) of
             Some e \<Rightarrow> (Inl (WriteFailed e), w\<lparr>ticks := Suc (Suc (Suc (ticks w)))\<rparr>)
           | None \<Rightarrow> (Inr p, w\<lparr>ticks := Suc (Suc (Suc (ticks w))), files := (files w)(p \<mapsto> content)\<rparr>)))"
  by (simp add: store_file_def Let_def fs_MkdirAll_def fs_WriteFile_def split: option.splits)

lemma store_file_within [frames]:
  "ticked R \<Longrightarrow> (\<And>w n f. R w (w\<lparr>ticks := n, files := f\<rparr>)) \<Longrightarrow> within R (store_file E cfg i name c)"
  by (simp add: within_def store_file_run Let_def split: option.splits)

section \<open>Where the files end up\<close>

lemma digits_plain:
  assumes "s \<noteq> []" and d: "\<And>c. c \<in> set s \<Longrightarrow> is_digit c"
  shows "plain_name s"
proof -
  have "\<not> is_digit CHR ''.''" "\<not> is_digit slash" by (simp_all add: is_digit_def slash_def)
  then have "CHR ''.'' \<notin> set s" "slash \<notin> set s" using d by blast+
  with assms(1) show ?thesis by (auto simp: plain_name_def)
qed

lemma zero_padded_plain: "plain_name (zero_padded k n)"
  by (rule digits_plain) (auto dest: zero_padded_digits)

lemma date_path_elements: "\<exists>y m d. date_path E t = y @ slash # m @ slash # d \<and> list_all plain_name [y, m, d]"
proof -
  obtain y m d where "x_date E t = (y, m, d)" by (cases "x_date E t")
  then have "date_path E t = zero_padded 4 y @ slash # zero_padded 2 m @ slash # zero_padded 2 d"
    by (simp add: date_path_def)
  then show ?thesis
    by (intro exI [of _ "zero_padded 4 y"] exI [of _ "zero_padded 2 m"] exI [of _ "zero_padded 2 d"])
      (simp add: zero_padded_plain)
qed

lemma date_path_nonempty [simp]: "date_path E t \<noteq> []"
  using date_path_elements [of E t] by auto

definition stored_under :: "ext \<Rightarrow> config \<Rightarrow> int \<Rightarrow> uuid \<Rightarrow> string" where
  "stored_under E cfg t i = co_AttachmentPath cfg @ slash # date_path E t @ slash # x_uuid_string E i"

lemma storage_path_Clean:
  "co_AttachmentPath cfg \<noteq> [] \<Longrightarrow> storage_path E cfg t i name = Clean (stored_under E cfg t i @ slash # name)"
  by (simp add: storage_path_def path_Join_def stored_under_def)

lemma stored_under_stack:
  assumes "co_AttachmentPath cfg \<noteq> []" and "plain_name (x_uuid_string E i)"
  shows "\<exists>y m d. clean_stack (rooted (stored_under E cfg t i)) (elements (stored_under E cfg t i)) =
     x_uuid_string E i # d # m # y # clean_stack (rooted (co_AttachmentPath cfg)) (elements (co_AttachmentPath cfg))
     \<and> date_path E t = y @ slash # m @ slash # d"
proof -
  from date_path_elements obtain y m d where d: "date_path E t = y @ slash # m @ slash # d"
    "list_all plain_name [y, m, d]" by blast
  then have "elements (stored_under E cfg t i) = elements (co_AttachmentPath cfg) @ [y, m, d, x_uuid_string E i]"
    using assms(2) by (simp add: stored_under_def elements_append elements_plain plain_name_def)
  moreover have "rooted (stored_under E cfg t i) = rooted (co_AttachmentPath cfg)"
    using assms(1) by (simp add: stored_under_def)
  ultimately show ?thesis using d assms(2) by (auto simp: clean_stack_append)
qed

text \<open>A plain name stays in the directory of its mail.\<close>

lemma storage_path_plain:
  assumes "co_AttachmentPath cfg \<noteq> []" and "plain_name (x_uuid_string E i)" and "plain_name name"
  shows "storage_path E cfg t i name = Clean (stored_under E cfg t i) @ slash # name"
  unfolding storage_path_Clean [OF assms(1)]
  by (rule Clean_snoc) (use assms stored_under_stack [OF assms(1,2), of t] in \<open>auto simp: stored_under_def\<close>)

lemma climb:
  "length st \<le> n \<Longrightarrow> list_all plain_name st \<Longrightarrow> foldl (clean_step True) st (replicate n ''..'') = []"
proof (induction n arbitrary: st)
  case (Suc n)
  then show ?case
    by (cases st) (auto simp: clean_step_def plain_name_def)
qed simp

text \<open>With enough steps up any absolute path is reached.\<close>

lemma storage_path_anywhere:
  assumes root: "rooted (co_AttachmentPath cfg)"
    and es: "es \<noteq> []" "list_all plain_name es"
  shows "\<exists>name. storage_path E cfg t i name = slash # join_with [slash] es"
proof -
  let ?p = "stored_under E cfg t i" and ?st = "clean_stack True (elements (stored_under E cfg t i))"
  have ne: "co_AttachmentPath cfg \<noteq> []" using root by (auto simp: rooted_def)
  have rp: "rooted (?p @ slash # name)" for name using root by (auto simp: rooted_def stored_under_def)
  let ?up = "replicate (Suc (length ?st)) ''..'' @ es"
  have "elements (join_with [slash] ?up) = ?up"
  proof (rule elements_join)
    have "slash \<notin> set ''..''" by (simp add: slash_def)
    then have "\<forall>e\<in>set (replicate k ''..''). slash \<notin> set e" for k by simp
    moreover have "\<forall>e\<in>set es. slash \<notin> set e" using es(2) by (simp add: list_all_iff plain_name_def)
    ultimately show "\<forall>e\<in>set ?up. slash \<notin> set e" unfolding set_append by blast
  qed (simp add: es(1))
  then have "clean_stack True (elements (?p @ slash # join_with [slash] ?up)) = rev es"
    using climb [of ?st "Suc (length ?st)"] clean_stack_rooted_plain [of ?p] es
    by (simp add: elements_append clean_stack_append foldl_plain del: replicate.simps)
  then have "storage_path E cfg t i (join_with [slash] ?up) = slash # join_with [slash] es"
    using rp by (simp add: storage_path_Clean [OF ne] Clean_def render_def del: replicate.simps)
  then show ?thesis by blast
qed

section \<open>The frame of storing\<close>

text \<open>Saving attachments writes files only.\<close>

definition but_files :: "world \<Rightarrow> world" where
  "but_files w = w\<lparr>ticks := 0, files := Map.empty\<rparr>"

lemma but_files_fields:
  assumes "but_files w' = but_files w"
  shows "mails w' = mails w" "broker w' = broker w" "cache w' = cache w" "tokens w' = tokens w"
    "configs w' = configs w" "outbox w' = outbox w"
  using arg_cong [OF assms, of mails] arg_cong [OF assms, of broker] arg_cong [OF assms, of cache]
    arg_cong [OF assms, of tokens] arg_cong [OF assms, of configs] arg_cong [OF assms, of outbox]
  by (simp_all add: but_files_def)

end
