(* ===== verification/Queue.thy ===== *)
theory Queue
  imports Sample Config
begin

text \<open>
  \<open>internal/services/queue_service.go\<close>: opening the broker connection, declaring the
  topology, and the three publishing operations. \<open>json.Marshal\<close> of a job cannot fail, so
  the error branch after it does not occur. The read-write lock is not modelled: every
  operation under it is one step.
\<close>

definition plain_message :: "string \<Rightarrow> mail_job \<Rightarrow> message" where
  "plain_message key job =
     \<lparr>msg_RoutingKey = key,
      msg_Body = Json (marshal_job job),
      msg_ContentType = ''application/json'',
      msg_Persistent = True,
      msg_Headers = []\<rparr>"

definition on_broker :: "(broker \<Rightarrow> broker) \<Rightarrow> world \<Rightarrow> world" where
  "on_broker f w = w\<lparr>broker := f (broker w)\<rparr>"

definition declareQueues :: "ext \<Rightarrow> config \<Rightarrow> (world, go_error option) state" where
  "declareQueues E cfg = do {
     err \<leftarrow> mq_call E (on_broker (exchange_declare ''dlx''));
     case err of Some e \<Rightarrow> ret (Some (''failed to declare DLX: '' @ e)) | None \<Rightarrow> do {
     err \<leftarrow> mq_call E (on_broker (queue_declare (co_MailQueueName cfg) (Some ''dlx'')));
     case err of Some e \<Rightarrow> ret (Some (''failed to declare mail queue: '' @ e)) | None \<Rightarrow> do {
     err \<leftarrow> mq_call E (on_broker (queue_declare (co_RetryQueueName cfg) None));
     case err of Some e \<Rightarrow> ret (Some (''failed to declare retry queue: '' @ e)) | None \<Rightarrow> do {
     err \<leftarrow> mq_call E (on_broker (queue_declare (co_FailedQueueName cfg) None));
     case err of Some e \<Rightarrow> ret (Some (''failed to declare failed queue: '' @ e)) | None \<Rightarrow> do {
     err \<leftarrow> mq_call E (on_broker (queue_bind (co_FailedQueueName cfg) ''failed'' ''dlx''));
     case err of
       Some e \<Rightarrow> ret (Some (''failed to bind failed queue: '' @ e))
     | None \<Rightarrow> ret None } } } } }"

definition close_channel :: "(world, unit) state" where
  "close_channel = modify (\<lambda>w. w\<lparr>mq_chans := mq_chans w - 1\<rparr>)"

definition close_conn :: "(world, unit) state" where
  "close_conn = modify (\<lambda>w. w\<lparr>mq_conns := mq_conns w - 1\<rparr>)"

definition NewQueueService :: "ext \<Rightarrow> config \<Rightarrow> (world, go_error + unit) state" where
  "NewQueueService E cfg = do {
     err \<leftarrow> mq_call E (\<lambda>w. w\<lparr>mq_conns := Suc (mq_conns w)\<rparr>);
     case err of
       Some e \<Rightarrow> ret (Inl (''failed to connect to RabbitMQ: '' @ e))
     | None \<Rightarrow> do {
         err \<leftarrow> mq_call E (\<lambda>w. w\<lparr>mq_chans := Suc (mq_chans w)\<rparr>);
         case err of
           Some e \<Rightarrow> do { close_conn; ret (Inl (''failed to open channel: '' @ e)) }
         | None \<Rightarrow> do {
             err \<leftarrow> declareQueues E cfg;
             case err of
               Some e \<Rightarrow> do { close_channel; close_conn; ret (Inl e) }
             | None \<Rightarrow> ret (Inr ()) } } }"

definition PublishMail :: "ext \<Rightarrow> config \<Rightarrow> mail_job \<Rightarrow> (world, go_error option) state" where
  "PublishMail E cfg job = mq_Publish E [] (plain_message (co_MailQueueName cfg) job)"

definition PublishRetry :: "ext \<Rightarrow> config \<Rightarrow> mail_job \<Rightarrow> go_int \<Rightarrow> (world, go_error option) state" where
  "PublishRetry E cfg job delayMs =
     mq_Publish E [] ((plain_message (co_RetryQueueName cfg) job)
       \<lparr>msg_Headers := [(''x-retry-count'', job_RetryCount job), (''x-delay'', delayMs)]\<rparr>)"

definition PublishFailed :: "ext \<Rightarrow> config \<Rightarrow> mail_job \<Rightarrow> (world, go_error option) state" where
  "PublishFailed E cfg job = mq_Publish E [] (plain_message (co_FailedQueueName cfg) job)"

definition QueueService_Close :: "(world, unit) state" where
  "QueueService_Close = do { close_channel; close_conn }"

section \<open>Frames\<close>

lemma mq_call_within [frames]:
  "ticked R \<Longrightarrow> (\<And>w n. R w (f (w\<lparr>ticks := n\<rparr>))) \<Longrightarrow> within R (mq_call E f)"
  by (simp add: within_def mq_call_def split: option.splits)

lemma PublishMail_within [frames]:
  "ticked R \<Longrightarrow> (\<And>w n. R w (w\<lparr>ticks := n,
     broker := publish_to [] (plain_message (co_MailQueueName cfg) job) (broker w)\<rparr>)) \<Longrightarrow>
   within R (PublishMail E cfg job)"
  unfolding PublishMail_def by (rule mq_Publish_within)

section \<open>Publishing\<close>

definition declared :: "string \<Rightarrow> world \<Rightarrow> bool" where
  "declared q w \<longleftrightarrow> bk_queues (broker w) q \<noteq> None"

definition waiting :: "world \<Rightarrow> string \<Rightarrow> message list" where
  "waiting w q = queue_of (broker w) q"

lemma PublishMail_run:
  "run_state (PublishMail E cfg job) w =
    (case x_mq E (ticks w) of
       Some e \<Rightarrow> (Some e, w\<lparr>ticks := Suc (ticks w)\<rparr>)
     | None \<Rightarrow> (None, w\<lparr>ticks := Suc (ticks w),
         broker := publish_to [] (plain_message (co_MailQueueName cfg) job) (broker w)\<rparr>))"
  by (simp add: PublishMail_def mq_Publish_def split: option.splits)

text \<open>
  Publishing a job either reports the error of the broker and leaves every queue as it
  was, or appends to the mail queue, and to no other, one persistent message whose body
  decodes to that very job.
\<close>

lemma PublishMail_queue:
  assumes "valid_job job" and "declared (co_MailQueueName cfg) w"
    and "run_state (PublishMail E cfg job) w = (r, w')"
  shows "case r of
      Some e \<Rightarrow> waiting w' q = waiting w q
    | None \<Rightarrow> \<exists>m. unmarshal_job (msg_Body m) = Some job \<and> msg_Persistent m
        \<and> waiting w' q = waiting w q @ (if q = co_MailQueueName cfg then [m] else [])"
proof (cases "x_mq E (ticks w)")
  case None
  let ?m = "plain_message (co_MailQueueName cfg) job"
  have "queue_of (publish_to [] ?m (broker w)) q
      = queue_of (broker w) q @ (if q = co_MailQueueName cfg then [?m] else [])"
    using assms(2) by (simp add: publish_default declared_def plain_message_def)
  moreover have "unmarshal_job (msg_Body ?m) = Some job"
    using assms(1) by (simp add: plain_message_def unmarshal_marshal_job)
  moreover have "msg_Persistent ?m" by (simp add: plain_message_def)
  ultimately show ?thesis
    using None assms(3) by (auto simp: PublishMail_run waiting_def intro!: exI [of _ ?m])
next
  case (Some e)
  with assms(3) have "r = Some e" "w' = w\<lparr>ticks := Suc (ticks w)\<rparr>"
    by (simp_all add: PublishMail_run)
  then show ?thesis by (simp add: waiting_def)
qed

lemma PublishMail_queue_witness:
  "\<exists>m. unmarshal_job (msg_Body m) = Some sample_job \<and> msg_Persistent m
     \<and> waiting (snd (run_state (PublishMail sample_ext default_config sample_job) sample_world))
         ''mail-queue'' = [m]"
proof -
  let ?r = "run_state (PublishMail sample_ext default_config sample_job) sample_world"
  have "fst ?r = None" by (simp add: PublishMail_run sample_ext_def)
  then have "?r = (None, snd ?r)" by (metis prod.collapse)
  then show ?thesis
    using PublishMail_queue [of sample_job default_config sample_world sample_ext None "snd ?r" "''mail-queue''"]
    by (simp add: declared_def waiting_def queue_of_def sample_world_def sample_broker_def)
qed

section \<open>Topology\<close>

text \<open>The broker as the services find it: nothing declared.\<close>

definition topology :: "config \<Rightarrow> broker \<Rightarrow> bool" where
  "topology cfg b \<longleftrightarrow>
     bk_queues b (co_MailQueueName cfg) \<noteq> None \<and> bk_queues b (co_RetryQueueName cfg) \<noteq> None
     \<and> bk_queues b (co_FailedQueueName cfg) \<noteq> None
     \<and> bk_dlx b (co_MailQueueName cfg) = Some ''dlx''
     \<and> set (bk_bindings b) = {(''dlx'', ''failed'', co_FailedQueueName cfg)}"

lemma topology_ack [simp]: "topology cfg (ack tag b) = topology cfg b"
  by (simp add: topology_def)

lemma topology_publish [simp]: "topology cfg (publish_to ex m b) = topology cfg b"
  by (simp add: topology_def)

lemma mq_call_run:
  "run_state (mq_call E f) w =
     (case x_mq E (ticks w) of
        Some e \<Rightarrow> (Some e, w\<lparr>ticks := Suc (ticks w)\<rparr>)
      | None \<Rightarrow> (None, f (w\<lparr>ticks := Suc (ticks w)\<rparr>)))"
  by (simp add: mq_call_def split: option.splits)

lemma declare_fields [simp]:
  "bk_bindings (queue_declare q d b) = bk_bindings b"
  "bk_bindings (exchange_declare x b) = bk_bindings b"
  "bk_queues (exchange_declare x b) = bk_queues b"
  "bk_dlx (exchange_declare x b) = bk_dlx b"
  "bk_queues (queue_bind q k x b) = bk_queues b" "bk_dlx (queue_bind q k x b) = bk_dlx b"
  "set (bk_bindings (queue_bind q k x b)) = insert (x, k, q) (set (bk_bindings b))"
  by (auto simp: queue_declare_def exchange_declare_def queue_bind_def split: option.splits)

lemma queue_declare_declared [simp]:
  "(bk_queues (queue_declare q d b) q' = None) = (bk_queues b q' = None \<and> q' \<noteq> q)"
  by (auto simp: queue_declare_def split: option.splits)

lemma queue_declare_exists [simp]:
  "(\<exists>ms. bk_queues (queue_declare q d b) q' = Some ms) = ((\<exists>ms. bk_queues b q' = Some ms) \<or> q' = q)"
  by (metis not_None_eq queue_declare_declared)

lemma queue_declare_dlx:
  "bk_dlx (queue_declare q d b) q' = (if q' = q \<and> bk_queues b q = None then d else bk_dlx b q')"
  by (auto simp: queue_declare_def split: option.splits)

lemma declareQueues_topology:
  assumes "run_state (declareQueues E cfg) w = (None, w')" and "broker w = empty_broker"
  shows "topology cfg (broker w')"
  using assms
  by (simp add: declareQueues_def mq_call_run on_broker_def topology_def queue_declare_dlx
      empty_broker_def split: option.splits if_splits prod.splits)
     (auto simp: queue_declare_dlx)

text \<open>
  A rejected message of the mail queue is lost. The dead letter exchange binds the
  failed queue under the key \<open>failed\<close> only, and a rejected message keeps its own routing
  key, which is the name of the mail queue: unless that name is \<open>failed\<close>, rejecting a
  delivery leaves every queue as it was, the failed queue included.
\<close>

lemma rejected_mail_lost:
  assumes "topology cfg b" and "co_MailQueueName cfg \<noteq> ''failed''"
    and "find (\<lambda>(t, q, m). t = tag) (bk_unacked b) = Some (tag, co_MailQueueName cfg, m)"
    and "msg_RoutingKey m = co_MailQueueName cfg"
  shows "queue_of (nack tag False b) q = queue_of b q
    \<and> (\<forall>d\<in>set (bk_unacked (nack tag False b)). fst d \<noteq> tag)"
proof -
  have "dead_letter (co_MailQueueName cfg) m (ack tag b) = ack tag b"
    using assms(1,2,4) by (intro dead_letter_unbound [where ex = "''dlx''"]) (auto simp: topology_def)
  then show ?thesis using assms(3) by (auto simp: nack_def)
qed

lemma rejected_mail_lost_witness:
  "queue_of (nack 0 False (sample_broker\<lparr>bk_unacked := [(0, ''mail-queue'',
      plain_message ''mail-queue'' sample_job)]\<rparr>)) ''failed-mails'' = []"
  using rejected_mail_lost [of default_config
      "sample_broker\<lparr>bk_unacked := [(0, ''mail-queue'', plain_message ''mail-queue'' sample_job)]\<rparr>"
      0 "plain_message ''mail-queue'' sample_job" "''failed-mails''"]
  by (simp add: topology_def sample_broker_def plain_message_def queue_of_def)

lemma declareQueues_frame: "within (same mq_conns) (declareQueues E cfg)"
  "within (same mq_chans) (declareQueues E cfg)"
  unfolding declareQueues_def
  by (intro frames same.rules; simp add: same_def on_broker_def)+

text \<open>
  Opening the queue service leaves nothing behind when it fails: every connection and
  channel it opened is closed again, whichever of the seven calls failed.
\<close>

lemma NewQueueService_no_leak:
  assumes "run_state (NewQueueService E cfg) w = (r, w')"
  shows "mq_conns w' = mq_conns w + (if isl r then 0 else 1)
    \<and> mq_chans w' = mq_chans w + (if isl r then 0 else 1)"
proof (cases "x_mq E (ticks w)")
  case (Some e)
  then show ?thesis using assms by (auto simp: NewQueueService_def mq_call_run)
next
  case None
  note 1 = this
  show ?thesis
  proof (cases "x_mq E (Suc (ticks w))")
    case (Some e)
    then show ?thesis using 1 assms by (auto simp: NewQueueService_def mq_call_run close_conn_def)
  next
    case None
    obtain err w2 where d: "run_state (declareQueues E cfg)
        (w\<lparr>mq_conns := Suc (mq_conns w), ticks := Suc (Suc (ticks w)), mq_chans := Suc (mq_chans w)\<rparr>)
        = (err, w2)" by fastforce
    from within_same [OF declareQueues_frame(1) d] within_same [OF declareQueues_frame(2) d]
    have "mq_conns w2 = Suc (mq_conns w)" "mq_chans w2 = Suc (mq_chans w)" by simp_all
    then show ?thesis using 1 None d assms
      by (auto simp: NewQueueService_def mq_call_run close_conn_def close_channel_def
          split: option.splits)
  qed
qed

lemma NewQueueService_no_leak_witness:
  "mq_conns (snd (run_state (NewQueueService sample_ext default_config) sample_world)) = 1"
proof -
  let ?r = "run_state (NewQueueService sample_ext default_config) sample_world"
  have "\<not> isl (fst ?r)"
    by (simp add: NewQueueService_def declareQueues_def mq_call_run sample_ext_def)
  then show ?thesis
    using NewQueueService_no_leak [of sample_ext default_config sample_world "fst ?r" "snd ?r"]
    by (simp add: sample_world_def)
qed

end
