(* ===== verification/MailHandler.thy ===== *)
theory MailHandler
  imports Auth Storage SenderConfig KeyDB Queue
begin

text \<open>
  \<open>internal/api/handlers/mail_handler.go\<close>: accepting a mail or a batch of mails, status,
  history and cancelling. \<open>Send\<close> and \<open>processSingleMail\<close> repeat the same code for
  attachments; it is one operation here, whose error says which of the four exits was taken.
  The context of the request holds what \<open>JWTAuth\<close> put there. The optional sender
  configuration service is an optional key.
\<close>

section \<open>Requests\<close>

record attachment_request =
  ar_Filename :: string
  ar_Content :: string
  ar_ContentType :: string

record send_request =
  sr_From :: string
  sr_To :: "string list"
  sr_CC :: "string list"
  sr_BCC :: "string list"
  sr_Subject :: string
  sr_Body :: string
  sr_HTML :: string
  sr_Attachments :: "attachment_request list"
  sr_Metadata :: "(string \<times> string) list"

definition put_attachment_request :: "string \<Rightarrow> jv \<Rightarrow> attachment_request \<Rightarrow> attachment_request option" where
  "put_attachment_request k j r =
     (if k = ''filename'' then map_option (\<lambda>v. r\<lparr>ar_Filename := v\<rparr>) (dec_string j (ar_Filename r))
      else if k = ''content'' then map_option (\<lambda>v. r\<lparr>ar_Content := v\<rparr>) (dec_string j (ar_Content r))
      else if k = ''content_type'' then
        map_option (\<lambda>v. r\<lparr>ar_ContentType := v\<rparr>) (dec_string j (ar_ContentType r))
      else Some r)"

fun dec_structs :: "(string \<Rightarrow> jv \<Rightarrow> 'r \<Rightarrow> 'r option) \<Rightarrow> 'r \<Rightarrow> jv \<Rightarrow> 'r list option" where
  "dec_structs put zero (JA js) = those (map (\<lambda>j. dec_struct put j zero) js)"
| "dec_structs put zero JNull = Some []"
| "dec_structs put zero _ = None"

definition zero_attachment_request :: attachment_request where
  "zero_attachment_request = \<lparr>ar_Filename = [], ar_Content = [], ar_ContentType = []\<rparr>"

definition zero_send_request :: send_request where
  "zero_send_request =
     \<lparr>sr_From = [], sr_To = [], sr_CC = [], sr_BCC = [], sr_Subject = [], sr_Body = [], sr_HTML = [],
      sr_Attachments = [], sr_Metadata = []\<rparr>"

definition put_send_request :: "string \<Rightarrow> jv \<Rightarrow> send_request \<Rightarrow> send_request option" where
  "put_send_request k j r =
     (if k = ''from'' then map_option (\<lambda>v. r\<lparr>sr_From := v\<rparr>) (dec_string j (sr_From r))
      else if k = ''to'' then map_option (\<lambda>v. r\<lparr>sr_To := v\<rparr>) (dec_strings j)
      else if k = ''cc'' then map_option (\<lambda>v. r\<lparr>sr_CC := v\<rparr>) (dec_strings j)
      else if k = ''bcc'' then map_option (\<lambda>v. r\<lparr>sr_BCC := v\<rparr>) (dec_strings j)
      else if k = ''subject'' then map_option (\<lambda>v. r\<lparr>sr_Subject := v\<rparr>) (dec_string j (sr_Subject r))
      else if k = ''body'' then map_option (\<lambda>v. r\<lparr>sr_Body := v\<rparr>) (dec_string j (sr_Body r))
      else if k = ''html'' then map_option (\<lambda>v. r\<lparr>sr_HTML := v\<rparr>) (dec_string j (sr_HTML r))
      else if k = ''attachments'' then
        map_option (\<lambda>v. r\<lparr>sr_Attachments := v\<rparr>) (dec_structs put_attachment_request zero_attachment_request j)
      else if k = ''metadata'' then map_option (\<lambda>v. r\<lparr>sr_Metadata := v\<rparr>) (dec_map j (sr_Metadata r))
      else Some r)"

text \<open>
  The \<open>binding\<close> tags of \<open>SendRequest\<close>. Those of \<open>AttachmentRequest\<close> are not checked: the
  list of attachments has no \<open>dive\<close>.
\<close>

definition valid_send_request :: "ext \<Rightarrow> send_request \<Rightarrow> bool" where
  "valid_send_request E r \<longleftrightarrow>
     sr_From r \<noteq> [] \<and> x_is_email E (sr_From r)
     \<and> 1 \<le> length (sr_To r) \<and> list_all (x_is_email E) (sr_To r)
     \<and> list_all (x_is_email E) (sr_CC r) \<and> list_all (x_is_email E) (sr_BCC r)
     \<and> sr_Subject r \<noteq> []"

section \<open>Attachments\<close>

datatype attachment_error =
    InvalidBase64 string
  | TooLarge string
  | StorageFailed store_error

text \<open>
  \<open>float64(len(content)) / 1024 / 1024 > float64(MaxAttachmentSizeMB)\<close>: dividing by powers
  of two is exact, so that this compares integers.
\<close>

definition too_large :: "config \<Rightarrow> bytes \<Rightarrow> bool" where
  "too_large cfg content \<longleftrightarrow> sint (co_MaxAttachmentSizeMB cfg) * 1024 * 1024 < int (length content)"

definition save_attachment ::
  "ext \<Rightarrow> config \<Rightarrow> uuid \<Rightarrow> attachment_request \<Rightarrow>
   (world, attachment_error + attachment \<times> attachment_info) state" where
  "save_attachment E cfg mailID att =
     (case b64_decode (ar_Content att) of
        None \<Rightarrow> ret (Inl (InvalidBase64 (ar_Filename att)))
      | Some content \<Rightarrow>
          if too_large cfg content then ret (Inl (TooLarge (ar_Filename att)))
          else do {
            r \<leftarrow> store_file E cfg mailID (ar_Filename att) content;
            case r of
              Inl e \<Rightarrow> ret (Inl (StorageFailed e))
            | Inr storagePath \<Rightarrow> do {
                i \<leftarrow> uuid_New E;
                ret (Inr
                  (\<lparr>att_ID = i, att_MailID = mailID, att_Filename = ar_Filename att,
                    att_ContentType = ar_ContentType att, att_SizeBytes = of_nat (length content),
                    att_StoragePath = storagePath, att_CreatedAt = 0\<rparr>,
                   \<lparr>ai_Filename = ar_Filename att, ai_ContentType = ar_ContentType att,
                    ai_SizeBytes = 0, ai_StoragePath = storagePath\<rparr>)) } })"

definition too_large_text :: "config \<Rightarrow> string \<Rightarrow> string" where
  "too_large_text cfg name =
     name @ '' exceeds maximum size of '' @ dec_int (sint (co_MaxAttachmentSizeMB cfg)) @ ''MB''"

fun attachment_error_response :: "config \<Rightarrow> attachment_error \<Rightarrow> response" where
  "attachment_error_response cfg (InvalidBase64 name) =
     gin_error 400 ''invalid_attachment'' (''Invalid base64 content for '' @ name)"
| "attachment_error_response cfg (TooLarge name) =
     gin_error 400 ''attachment_too_large'' (too_large_text cfg name)"
| "attachment_error_response cfg (StorageFailed (MkdirFailed _)) =
     gin_error 500 ''storage_error'' ''Failed to create attachment directory''"
| "attachment_error_response cfg (StorageFailed (WriteFailed _)) =
     gin_error 500 ''storage_error'' ''Failed to save attachment''"

fun attachment_error_text :: "config \<Rightarrow> attachment_error \<Rightarrow> string" where
  "attachment_error_text cfg (InvalidBase64 name) = ''Invalid base64 content for '' @ name"
| "attachment_error_text cfg (TooLarge name) = too_large_text cfg name"
| "attachment_error_text cfg (StorageFailed (MkdirFailed _)) = ''Failed to create attachment directory''"
| "attachment_error_text cfg (StorageFailed (WriteFailed _)) = ''Failed to save attachment''"

section \<open>Accepting a mail\<close>

definition new_mail ::
  "uuid \<Rightarrow> send_request \<Rightarrow> string \<Rightarrow> string \<Rightarrow> uuid option \<Rightarrow> mail" where
  "new_mail i req clientID clientName senderConfigID =
     \<lparr>mail_ID = i, mail_FromAddress = sr_From req, mail_ToAddresses = sr_To req,
      mail_CCAddresses = sr_CC req, mail_BCCAddresses = sr_BCC req, mail_Subject = sr_Subject req,
      mail_Body = sr_Body req, mail_HTML = sr_HTML req, mail_Status = MailStatusQueued,
      mail_RetryCount = 0, mail_ErrorMessage = [], mail_SentAt = None, mail_CreatedAt = 0,
      mail_UpdatedAt = 0, mail_ClientID = clientID, mail_ClientName = clientName,
      mail_Metadata = sr_Metadata req, mail_SenderConfigID = senderConfigID, mail_Attachments = []\<rparr>"

definition job_of_mail ::
  "ext \<Rightarrow> mail \<Rightarrow> attachment_info list \<Rightarrow> mail_job" where
  "job_of_mail E m infos =
     \<lparr>job_MailID = x_uuid_string E (mail_ID m), job_FromAddress = mail_FromAddress m,
      job_ToAddresses = mail_ToAddresses m, job_CCAddresses = mail_CCAddresses m,
      job_BCCAddresses = mail_BCCAddresses m, job_Subject = mail_Subject m, job_Body = mail_Body m,
      job_HTML = mail_HTML m, job_Attachments = infos, job_Metadata = mail_Metadata m,
      job_RetryCount = 0,
      job_SenderConfigID = (case mail_SenderConfigID m of None \<Rightarrow> [] | Some c \<Rightarrow> x_uuid_string E c)\<rparr>"

datatype accept_error = AttachmentRefused attachment_error | CreateFailed | QueueFailed

text \<open>
  From the mail record on, \<open>Send\<close> and \<open>processSingleMail\<close> do the same: attachments, row,
  queue, cache. A mail that cannot be queued is marked as failed; errors of that update and of
  the cache are dropped.
\<close>

definition accept_mail :: "ext \<Rightarrow> config \<Rightarrow> mail \<Rightarrow> attachment_request list \<Rightarrow> (world, accept_error + unit) state" where
  "accept_mail E cfg m atts = do {
     r \<leftarrow> for_err (save_attachment E cfg (mail_ID m)) atts;
     case r of
       Inl e \<Rightarrow> ret (Inl (AttachmentRefused e))
     | Inr saved \<Rightarrow> do {
         r \<leftarrow> mails_Create E (m\<lparr>mail_Attachments := map fst saved\<rparr>);
         case r of
           Inl _ \<Rightarrow> ret (Inl CreateFailed)
         | Inr m1 \<Rightarrow> do {
             err \<leftarrow> PublishMail E cfg (job_of_mail E m (map snd saved));
             case err of
               Some _ \<Rightarrow> do {
                 ignore (mails_Update E (\<lambda>r. mail_ID r = mail_ID m)
                   (\<lambda>t r. r\<lparr>mail_Status := MailStatusFailed\<rparr>));
                 ret (Inl QueueFailed) }
             | None \<Rightarrow> do {
                 ignore (SetStatus E cfg (x_uuid_string E (mail_ID m)) ''queued'' 0 []);
                 ret (Inr ()) } } } }"

definition send_response :: "ext \<Rightarrow> config \<Rightarrow> uuid \<Rightarrow> accept_error + unit \<Rightarrow> response" where
  "send_response E cfg i r =
     (case r of
        Inl (AttachmentRefused e) \<Rightarrow> attachment_error_response cfg e
      | Inl CreateFailed \<Rightarrow> gin_error 500 ''database_error'' ''Failed to create mail record''
      | Inl QueueFailed \<Rightarrow> gin_error 500 ''queue_error'' ''Failed to queue mail''
      | Inr _ \<Rightarrow> (200, JO
          [(''success'', JB True), (''mail_id'', JS (x_uuid_string E i)), (''status'', JS ''queued''),
           (''message'', JS (utf8 [233, 131, 181, 228, 187, 182, 229, 183, 178, 229, 138, 160, 229, 133, 165, 231, 153, 188, 233, 128, 129, 233, 154, 138, 229, 136, 151]))]))"

text \<open>
  The settings of an organisation's sender: \<open>None\<close> for other senders, an answer when the
  request is refused, a panic when the token's identifier is no text.
\<close>

definition not_configured_text :: "string \<Rightarrow> string" where
  "not_configured_text from =
     ''Sender '' @ [CHR 0x27] @ from @ [CHR 0x27] @ '' is not configured for this client. ''
     @ ''Please configure sender in /api/v1/auth/sender-config first.''"

definition find_sender ::
  "ext \<Rightarrow> config \<Rightarrow> bytes option \<Rightarrow> gin_values \<Rightarrow> string \<Rightarrow>
   (world, (response + uuid option) outcome) state" where
  "find_sender E cfg svc ctx from =
     (if \<not> org_sender E cfg from then ret (Returns (Inr None))
      else (case svc of
        None \<Rightarrow> ret (Returns (Inl (gin_error 400 ''sender_not_configured'' ''Sender config service not available'')))
      | Some _ \<Rightarrow>
          (case as_string (ctx ''client_token_id'') of
             None \<Rightarrow> ret Panics
           | Some s \<Rightarrow>
               (case x_uuid_parse E s of
                  Inl _ \<Rightarrow> ret (Returns (Inl (gin_error 400 ''invalid_token'' ''Invalid client token'')))
                | Inr clientTokenID \<Rightarrow> do {
                    r \<leftarrow> GetBySenderEmail E clientTokenID from;
                    ret (Returns (case r of
                      Inl _ \<Rightarrow> Inl (gin_error 400 ''sender_not_configured'' (not_configured_text from))
                    | Inr senderConfig \<Rightarrow> Inr (Some (cfg_ID senderConfig)))) }))))"

definition Send ::
  "ext \<Rightarrow> config \<Rightarrow> bytes option \<Rightarrow> gin_values \<Rightarrow> payload \<Rightarrow> (world, response outcome) state" where
  "Send E cfg svc ctx body =
     (case ShouldBindJSON E put_send_request zero_send_request (valid_send_request E) body of
        Inl err \<Rightarrow> ret (Returns (gin_error 400 ''validation_error'' err))
      | Inr req \<Rightarrow> do {
          s \<leftarrow> find_sender E cfg svc ctx (sr_From req);
          case s of
            Panics \<Rightarrow> ret Panics
          | Returns (Inl answer) \<Rightarrow> ret (Returns answer)
          | Returns (Inr senderConfigID) \<Rightarrow> do {
              i \<leftarrow> uuid_New E;
              case (as_string (ctx ''client_id''), as_string (ctx ''client_name'')) of
                (Some clientID, Some clientName) \<Rightarrow> do {
                  r \<leftarrow> accept_mail E cfg (new_mail i req clientID clientName senderConfigID)
                    (sr_Attachments req);
                  ret (Returns (send_response E cfg i r)) }
              | _ \<Rightarrow> ret Panics } })"

section \<open>Batches\<close>

definition batch_result :: "ext \<Rightarrow> config \<Rightarrow> uuid \<Rightarrow> accept_error + unit \<Rightarrow> jv" where
  "batch_result E cfg i r =
     (case r of
        Inl (AttachmentRefused e) \<Rightarrow> JO [(''mail_id'', JNull), (''status'', JS ''failed''),
          (''error'', json_string (attachment_error_text cfg e))]
      | Inl CreateFailed \<Rightarrow> JO [(''mail_id'', JNull), (''status'', JS ''failed''),
          (''error'', JS ''Failed to create mail record'')]
      | Inl QueueFailed \<Rightarrow> JO [(''mail_id'', JS (x_uuid_string E i)), (''status'', JS ''failed''),
          (''error'', JS ''Failed to queue mail'')]
      | Inr _ \<Rightarrow> JO [(''mail_id'', JS (x_uuid_string E i)), (''status'', JS ''queued'')])"

definition processSingleMail ::
  "ext \<Rightarrow> config \<Rightarrow> string \<Rightarrow> string \<Rightarrow> send_request \<Rightarrow> (world, jv) state" where
  "processSingleMail E cfg clientID clientName req = do {
     i \<leftarrow> uuid_New E;
     r \<leftarrow> accept_mail E cfg (new_mail i req clientID clientName None) (sr_Attachments req);
     ret (batch_result E cfg i r) }"

text \<open>The request of a batch: the list must not be empty, its elements are not checked.\<close>

definition put_batch :: "string \<Rightarrow> jv \<Rightarrow> send_request list \<Rightarrow> send_request list option" where
  "put_batch k j ms =
     (if k = ''mails'' then dec_structs put_send_request zero_send_request j else Some ms)"

definition SendBatch :: "ext \<Rightarrow> config \<Rightarrow> gin_values \<Rightarrow> payload \<Rightarrow> (world, response outcome) state" where
  "SendBatch E cfg ctx body =
     (case ShouldBindJSON E put_batch [] (\<lambda>ms. 1 \<le> length ms) body of
        Inl err \<Rightarrow> ret (Returns (gin_error 400 ''validation_error'' err))
      | Inr reqs \<Rightarrow> do {
          batch \<leftarrow> uuid_New E;
          case (as_string (ctx ''client_id''), as_string (ctx ''client_name'')) of
            (Some clientID, Some clientName) \<Rightarrow> do {
              results \<leftarrow> for_each (processSingleMail E cfg clientID clientName) reqs;
              ret (Returns (200, JO
                [(''success'', JB True), (''batch_id'', JS (x_uuid_string E batch)),
                 (''results'', JA results)])) }
          | _ \<Rightarrow> ret Panics })"

section \<open>Status, history, cancelling\<close>

definition not_found :: response where
  "not_found = gin_error 404 ''not_found'' ''Mail not found''"

definition GetStatus :: "ext \<Rightarrow> string \<Rightarrow> (world, response) state" where
  "GetStatus E mailID = do {
     s \<leftarrow> GetStatus_kv E mailID;
     case s of
       Inr status \<Rightarrow> ret (200, marshal_status status)
     | Inl _ \<Rightarrow> do {
         r \<leftarrow> mails_First E (\<lambda>m. id_is E mailID (mail_ID m));
         ret (case r of
                Inl _ \<Rightarrow> not_found
              | Inr m \<Rightarrow> (200, JO
                  [(''mail_id'', JS (x_uuid_string E (mail_ID m))),
                   (''status'', JS (status_text (mail_Status m))),
                   (''retry_count'', json_int (mail_RetryCount m)),
                   (''created_at'', JS (x_json_time E (mail_CreatedAt m))),
                   (''sent_at'', (case mail_SentAt m of None \<Rightarrow> JNull | Some t \<Rightarrow> JS (x_json_time E t))),
                   (''error_message'', json_string (mail_ErrorMessage m))])) } }"

definition marshal_mail :: "ext \<Rightarrow> mail \<Rightarrow> jv" where
  "marshal_mail E m = JO (
     [(''id'', JS (x_uuid_string E (mail_ID m))),
      (''from'', json_string (mail_FromAddress m)),
      (''to'', json_strings (mail_ToAddresses m))]
     @ omit_if (mail_CCAddresses m = []) ''cc'' (json_strings (mail_CCAddresses m))
     @ omit_if (mail_BCCAddresses m = []) ''bcc'' (json_strings (mail_BCCAddresses m))
     @ [(''subject'', json_string (mail_Subject m))]
     @ omit_if (mail_Body m = []) ''body'' (json_string (mail_Body m))
     @ omit_if (mail_HTML m = []) ''html'' (json_string (mail_HTML m))
     @ [(''status'', JS (status_text (mail_Status m))),
        (''retry_count'', json_int (mail_RetryCount m))]
     @ omit_if (mail_ErrorMessage m = []) ''error_message'' (json_string (mail_ErrorMessage m))
     @ (case mail_SentAt m of None \<Rightarrow> [] | Some t \<Rightarrow> [(''sent_at'', JS (x_json_time E t))])
     @ [(''created_at'', JS (x_json_time E (mail_CreatedAt m))),
        (''updated_at'', JS (x_json_time E (mail_UpdatedAt m))),
        (''client_id'', json_string (mail_ClientID m))]
     @ omit_if (mail_ClientName m = []) ''client_name'' (json_string (mail_ClientName m))
     @ omit_if (mail_Metadata m = []) ''metadata'' (json_map (mail_Metadata m))
     @ (case mail_SenderConfigID m of None \<Rightarrow> [] | Some c \<Rightarrow> [(''sender_config_id'', JS (x_uuid_string E c))]))"

text \<open>
  \<open>DefaultQuery\<close>, and \<open>Atoi\<close> with its error dropped: a parameter that is no number counts
  as 0. The offset is a 64-bit product. Errors of the two queries are dropped; after a failed
  query the total is 0, the data \<open>null\<close>.
\<close>

definition default_query :: "(string \<Rightarrow> string option) \<Rightarrow> string \<Rightarrow> string \<Rightarrow> string" where
  "default_query q k d = (case q k of None \<Rightarrow> d | Some v \<Rightarrow> v)"

definition history_filter :: "gin_values \<Rightarrow> (string \<Rightarrow> string option) \<Rightarrow> mail \<Rightarrow> bool" where
  "history_filter ctx q m \<longleftrightarrow>
     as_string (ctx ''client_id'') = Some (mail_ClientID m)
     \<and> (let status = default_query q ''status'' [] in
         status \<noteq> [] \<longrightarrow> status_text (mail_Status m) = status)"

definition history_limit :: "(string \<Rightarrow> string option) \<Rightarrow> go_int" where
  "history_limit q =
     (let limit = fst (Atoi (default_query q ''limit'' ''20'')) in if 100 <s limit then 100 else limit)"

definition GetHistory :: "ext \<Rightarrow> gin_values \<Rightarrow> (string \<Rightarrow> string option) \<Rightarrow> (world, response) state" where
  "GetHistory E ctx q = do {
     let page = fst (Atoi (default_query q ''page'' ''1''));
     let limit = history_limit q;
     let offset = (page - 1) * limit;
     total \<leftarrow> mails_Count E (history_filter ctx q);
     ms \<leftarrow> mails_Page E (history_filter ctx q) (sint offset) (sint limit);
     ret (200, JO
       [(''total'', JI (case total of Inl _ \<Rightarrow> 0 | Inr n \<Rightarrow> int n)),
        (''page'', json_int page),
        (''limit'', json_int limit),
        (''data'', (case ms of Inl _ \<Rightarrow> JNull | Inr ms \<Rightarrow> JA (map (marshal_mail E) ms)))]) }"

text \<open>The update and the cache write after the check are not looked at.\<close>

definition Cancel :: "ext \<Rightarrow> config \<Rightarrow> gin_values \<Rightarrow> string \<Rightarrow> (world, response) state" where
  "Cancel E cfg ctx mailID = do {
     r \<leftarrow> mails_First E (\<lambda>m. id_is E mailID (mail_ID m)
            \<and> as_string (ctx ''client_id'') = Some (mail_ClientID m));
     case r of
       Inl _ \<Rightarrow> ret not_found
     | Inr m \<Rightarrow>
         if mail_Status m \<noteq> MailStatusQueued then
           ret (gin_error 400 ''cannot_cancel'' ''Only queued mails can be cancelled'')
         else do {
           ignore (mails_Update E (\<lambda>r. mail_ID r = mail_ID m)
             (\<lambda>t r. r\<lparr>mail_Status := MailStatusCancelled\<rparr>));
           ignore (SetStatus E cfg mailID ''cancelled'' 0 []);
           ret (200, JO
             [(''success'', JB True), (''mail_id'', json_string mailID), (''status'', JS ''cancelled''),
              (''message'', JS (utf8 [233, 131, 181, 228, 187, 182, 229, 183, 178, 229, 143, 150, 230, 182, 136]))]) } }"

section \<open>Accepting: the cases\<close>

lemma save_attachment_frame: "within (same but_files) (save_attachment E cfg i att)"
  unfolding save_attachment_def
  by (intro frames same.rules) (simp_all add: same_def but_files_def)

text \<open>What is known of a saved attachment.\<close>

definition saved_as :: "ext \<Rightarrow> config \<Rightarrow> uuid \<Rightarrow> attachment_request \<Rightarrow> attachment_info \<Rightarrow> bool" where
  "saved_as E cfg i att info \<longleftrightarrow>
     (\<exists>content. b64_decode (ar_Content att) = Some content \<and> \<not> too_large cfg content)
     \<and> (\<exists>t. ai_StoragePath info = storage_path E cfg t i (ar_Filename att))
     \<and> ai_Filename info = ar_Filename att \<and> ai_ContentType info = ar_ContentType att"

lemma save_attachment_ok:
  "run_state (save_attachment E cfg i att) w = (Inr x, w') \<Longrightarrow> saved_as E cfg i att (snd x)"
  by (auto simp: save_attachment_def saved_as_def store_file_run Let_def
      split: option.splits if_splits sum.splits prod.splits)

lemma save_all:
  assumes "run_state (for_err (save_attachment E cfg i) atts) w = (Inr saved, w')"
  shows "list_all2 (saved_as E cfg i) atts (map snd saved)"
proof -
  have "list_all2 (\<lambda>att x. saved_as E cfg i att (snd x)) atts saved"
    using assms by (rule for_err_all2 [where I = "\<lambda>_. True", rotated 2])
      (auto dest: save_attachment_ok)
  then show ?thesis by (simp add: list_all2_map2)
qed

text \<open>
  What saving a list of attachments leaves in the files: the content of each under its path, the
  later one where two of them have the same.
\<close>

fun write_saved ::
  "attachment_request \<times> attachment_info \<Rightarrow> (string \<Rightarrow> bytes option) \<Rightarrow> string \<Rightarrow> bytes option" where
  "write_saved (att, info) fs =
     (case b64_decode (ar_Content att) of
        None \<Rightarrow> fs
      | Some content \<Rightarrow> fs(ai_StoragePath info \<mapsto> content))"

lemma save_attachment_file:
  "run_state (save_attachment E cfg i att) w = (Inr x, w') \<Longrightarrow> files w' = write_saved (att, snd x) (files w)"
  by (auto simp: save_attachment_def store_file_run Let_def split: option.splits if_splits sum.splits prod.splits)

lemma save_all_files:
  "run_state (for_err (save_attachment E cfg i) atts) w = (Inr saved, w') \<Longrightarrow>
   files w' = fold write_saved (zip atts (map snd saved)) (files w)"
proof (induction atts arbitrary: w saved)
  case (Cons att atts)
  then obtain x w1 rest where "run_state (save_attachment E cfg i att) w = (Inr x, w1)"
    and "run_state (for_err (save_attachment E cfg i) atts) w1 = (Inr rest, w')" and "saved = x # rest"
    by (auto split: prod.splits sum.splits)
  with Cons.IH save_attachment_file show ?case by fastforce
qed simp

text \<open>So every attachment whose path no later one has is read back as it was sent.\<close>

lemma saved_readable:
  assumes "list_all2 (saved_as E cfg i) atts infos" and "k < length atts"
    and "\<forall>j. k < j \<and> j < length atts \<longrightarrow> ai_StoragePath (infos ! j) \<noteq> ai_StoragePath (infos ! k)"
  shows "fold write_saved (zip atts infos) fs (ai_StoragePath (infos ! k)) = b64_decode (ar_Content (atts ! k))"
  using assms
proof (induction arbitrary: k fs rule: list_all2_induct)
  case (Cons att atts info infos)
  have keep: "fold write_saved (zip as is) gs p = gs p" if "\<forall>info\<in>set is. ai_StoragePath info \<noteq> p" for as "is" gs p
    using that
  proof (induction as arbitrary: "is" gs)
    case (Cons a as)
    then show ?case by (cases "is") (auto split: option.splits)
  qed simp
  show ?case
  proof (cases k)
    case 0
    have len: "length infos = length atts" using Cons.hyps(2) by (simp add: list_all2_lengthD)
    have "\<forall>x\<in>set infos. ai_StoragePath x \<noteq> ai_StoragePath info"
    proof
      fix x assume "x \<in> set infos"
      then obtain j where "j < length infos" "x = infos ! j" by (auto simp: in_set_conv_nth)
      with Cons.prems(2) [rule_format, of "Suc j"] 0 len show "ai_StoragePath x \<noteq> ai_StoragePath info" by simp
    qed
    with 0 Cons.hyps(1) show ?thesis by (auto simp: keep saved_as_def)
  next
    case (Suc k')
    have "\<forall>j. k' < j \<and> j < length atts \<longrightarrow> ai_StoragePath (infos ! j) \<noteq> ai_StoragePath (infos ! k')"
      using Cons.prems(2) Suc by (metis Suc_less_eq length_Cons nth_Cons_Suc)
    with Suc Cons show ?thesis by simp
  qed
qed simp

lemma accept_mail_cases:
  assumes "run_state (accept_mail E cfg m atts) w = (r, w')"
  obtains
    (refused) e where "r = Inl e" "e \<noteq> QueueFailed" "mails w' = mails w" "broker w' = broker w" "cache w' = cache w"
  | (unqueued) saved :: "(attachment \<times> attachment_info) list" and t where "r = Inl QueueFailed" "broker w' = broker w"
      "t_find mail_ID (mail_ID m) (mails w) = None"
      "mails w' = t_insert (stored_mail t (m\<lparr>mail_Attachments := map fst saved\<rparr>)) (mails w)
       \<or> (\<exists>t'. mails w' = t_update (\<lambda>r. mail_ID r = mail_ID m)
             (\<lambda>r. r\<lparr>mail_Status := MailStatusFailed, mail_UpdatedAt := t'\<rparr>)
             (t_insert (stored_mail t (m\<lparr>mail_Attachments := map fst saved\<rparr>)) (mails w)))"
  | (queued) saved t where "r = Inr ()" "list_all2 (saved_as E cfg (mail_ID m)) atts (map snd saved)"
      "t_find mail_ID (mail_ID m) (mails w) = None"
      "mails w' = t_insert (stored_mail t (m\<lparr>mail_Attachments := map fst saved\<rparr>)) (mails w)"
      "broker w' = publish_to [] (plain_message (co_MailQueueName cfg) (job_of_mail E m (map snd saved))) (broker w)"
      "status_written E cfg (x_uuid_string E (mail_ID m)) ''queued'' w w'"
      "files w' = fold write_saved (zip atts (map snd saved)) (files w)"
proof -
  obtain l w1 where l: "run_state (for_err (save_attachment E cfg (mail_ID m)) atts) w = (l, w1)" by fastforce
  have "within (same but_files) (for_err (save_attachment E cfg (mail_ID m)) atts)"
    by (intro same.rules save_attachment_frame)
  note w1 = but_files_fields [OF within_same [OF this l]]
  show thesis
  proof (cases l)
    case (Inl e)
    with assms l w1 show thesis by (intro refused [of "AttachmentRefused e"]) (auto simp: accept_mail_def)
  next
    case (Inr saved)
    let ?m = "m\<lparr>mail_Attachments := map fst saved\<rparr>"
    obtain c w2 where c: "run_state (mails_Create E ?m) w1 = (c, w2)" by fastforce
    show thesis
    proof (cases c)
      case (Inl e)
      with c have "mails w2 = mails w1" "broker w2 = broker w1" "cache w2 = cache w1"
        by (auto simp: mails_Create_run split: option.splits if_splits)
      with assms l Inr c Inl w1 show thesis
        by (intro refused [of CreateFailed]) (auto simp: accept_mail_def)
    next
      case cInr: (Inr m1)
      with c w1 have w2: "mails w2 = t_insert (stored_mail (x_clock E (ticks w1)) ?m) (mails w)"
        "broker w2 = broker w" "cache w2 = cache w" and new: "t_find mail_ID (mail_ID m) (mails w) = None"
        and fs: "files w2 = fold write_saved (zip atts (map snd saved)) (files w)"
        using save_all_files [OF l [unfolded Inr]]
        by (auto simp: mails_Create_run split: option.splits if_splits)
      let ?job = "job_of_mail E m (map snd saved)"
      show thesis
      proof (cases "x_mq E (ticks w2)")
        case None
        then obtain w3 where "run_state (PublishMail E cfg ?job) w2 = (None, w3)" "mails w3 = mails w2"
          "cache w3 = cache w2" "broker w3 = publish_to [] (plain_message (co_MailQueueName cfg) ?job) (broker w2)"
          "files w3 = files w2"
          by (simp add: PublishMail_run)
        moreover obtain z w4 where s: "run_state (SetStatus E cfg (x_uuid_string E (mail_ID m)) ''queued'' 0 []) w3 = (z, w4)"
          by fastforce
        moreover have "within (same files) (SetStatus E cfg (x_uuid_string E (mail_ID m)) ''queued'' 0 [])"
          by (intro frames; simp add: same_def)
        from within_same [OF this s] have "files w4 = files w3" .
        moreover note SetStatus_store [OF s]
        ultimately show thesis using assms l Inr c cInr w2 new fs save_all [OF l [unfolded Inr]]
          by (intro queued) (auto simp: accept_mail_def status_written_def)
      next
        case (Some e)
        let ?w3 = "w2\<lparr>ticks := Suc (ticks w2)\<rparr>"
        obtain z w4 where u: "run_state (mails_Update E (\<lambda>r. mail_ID r = mail_ID m)
            (\<lambda>t r. r\<lparr>mail_Status := MailStatusFailed\<rparr>)) ?w3 = (z, w4)" by fastforce
        with assms l Inr c cInr Some have "r = Inl QueueFailed" "w' = w4"
          by (auto simp: accept_mail_def PublishMail_run)
        moreover note mails_Update_mails [OF u]
        ultimately show thesis using w2 new
          by (intro unqueued [where t = "x_clock E (ticks w1)" and saved = saved]) auto
      qed
    qed
  qed
qed

section \<open>Who may send\<close>

definition but_ticks :: "world \<Rightarrow> world" where
  "but_ticks w = w\<lparr>ticks := 0\<rparr>"

lemma but_ticks_fields:
  assumes "but_ticks w' = but_ticks w"
  shows "mails w' = mails w" "broker w' = broker w" "cache w' = cache w" "configs w' = configs w" "files w' = files w"
  using arg_cong [OF assms, of mails] arg_cong [OF assms, of broker] arg_cong [OF assms, of cache]
    arg_cong [OF assms, of configs] arg_cong [OF assms, of files]
  by (simp_all add: but_ticks_def)

text \<open>The settings a request of an organisation's sender is accepted with.\<close>

definition sender_settings :: "ext \<Rightarrow> gin_values \<Rightarrow> string \<Rightarrow> world \<Rightarrow> uuid \<Rightarrow> bool" where
  "sender_settings E ctx from w i \<longleftrightarrow>
     (\<exists>s client c. as_string (ctx ''client_token_id'') = Some s \<and> x_uuid_parse E s = Inr client
        \<and> c \<in> set (configs w) \<and> cfg_ID c = i \<and> cfg_ClientTokenID c = client \<and> cfg_IsActive c
        \<and> cfg_SenderEmail c = ToLower (x_lower E) from)"

lemma find_sender_frame: "within (same but_ticks) (find_sender E cfg svc ctx from)"
  unfolding find_sender_def
  by (intro frames same.rules same.frame_rel_axioms) (simp_all add: same_def but_ticks_def)

lemma find_sender_ok:
  assumes "run_state (find_sender E cfg svc ctx from) w = (Returns (Inr sc), w')"
  shows "if org_sender E cfg from then \<exists>i. sc = Some i \<and> sender_settings E ctx from w i else sc = None"
proof (cases "org_sender E cfg from")
  case False
  then show ?thesis using assms by (simp add: find_sender_def)
next
  case True
  then obtain s client where s: "as_string (ctx ''client_token_id'') = Some s" "x_uuid_parse E s = Inr client"
    using assms by (auto simp: find_sender_def split: option.splits sum.splits)
  let ?P = "\<lambda>c. cfg_ClientTokenID c = client \<and> cfg_SenderEmail c = ToLower (x_lower E) from \<and> cfg_IsActive c"
  from True s assms obtain c where "t_first cfg_ID ?P (configs w) = Some c" "sc = Some (cfg_ID c)"
    by (auto simp: find_sender_def GetBySenderEmail_def configs_First_run Let_def
        split: option.splits)
  with t_first_Some [of cfg_ID ?P "configs w" c] s True show ?thesis
    by (auto simp: sender_settings_def)
qed

lemma find_sender_refused:
  "run_state (find_sender E cfg svc ctx from) w = (Returns (Inl answer), w') \<Longrightarrow> fst answer = 400"
  by (auto simp: find_sender_def gin_error_def split: if_splits option.splits sum.splits prod.splits)

lemma attachment_error_code: "fst (attachment_error_response cfg e) \<noteq> 200"
proof (cases e)
  case (StorageFailed s)
  then show ?thesis by (cases s) (simp_all add: gin_error_def)
qed (simp_all add: gin_error_def)

lemma send_response_code: "fst (send_response E cfg i r) = 200 \<longleftrightarrow> r = Inr ()"
  by (auto simp: send_response_def gin_error_def attachment_error_code split: sum.splits accept_error.splits)

lemma Send_cases:
  assumes "run_state (Send E cfg svc ctx body) w = (r, w')"
  obtains
    (stopped) "\<forall>answer. r = Returns answer \<longrightarrow> fst answer \<noteq> 200" "mails w' = mails w" "broker w' = broker w"
      "cache w' = cache w"
  | (accepted) req sc i w1 clientID clientName a where
      "ShouldBindJSON E put_send_request zero_send_request (valid_send_request E) body = Inr req"
      "if org_sender E cfg (sr_From req) then \<exists>c. sc = Some c \<and> sender_settings E ctx (sr_From req) w c
       else sc = None"
      "as_string (ctx ''client_id'') = Some clientID" "as_string (ctx ''client_name'') = Some clientName"
      "mails w1 = mails w" "broker w1 = broker w" "cache w1 = cache w"
      "run_state (accept_mail E cfg (new_mail i req clientID clientName sc) (sr_Attachments req)) w1 = (a, w')"
      "r = Returns (send_response E cfg i a)" "files w1 = files w"
proof (cases "ShouldBindJSON E put_send_request zero_send_request (valid_send_request E) body")
  case (Inl e)
  with assms show thesis by (intro stopped) (auto simp: Send_def gin_error_def)
next
  case (Inr req)
  obtain s v where s: "run_state (find_sender E cfg svc ctx (sr_From req)) w = (s, v)" by fastforce
  note v = but_ticks_fields [OF within_same [OF find_sender_frame s]]
  consider (panic) "s = Panics" | (no) answer where "s = Returns (Inl answer)"
    | (yes) sc where "s = Returns (Inr sc)" by (metis outcome.exhaust sum.exhaust)
  then show thesis
  proof cases
    case panic
    with assms Inr s v show thesis by (intro stopped) (auto simp: Send_def)
  next
    case no
    with assms Inr s v find_sender_refused [of E cfg svc ctx "sr_From req" w answer v] show thesis
      by (intro stopped) (auto simp: Send_def)
  next
    case yes
    note sc = find_sender_ok [OF s [unfolded yes]]
    show thesis
    proof (cases "as_string (ctx ''client_id'') = None \<or> as_string (ctx ''client_name'') = None")
      case True
      with assms Inr s v yes show thesis
        by (intro stopped) (auto simp: Send_def split: option.splits)
    next
      case False
      then obtain cid cn where c: "as_string (ctx ''client_id'') = Some cid" "as_string (ctx ''client_name'') = Some cn"
        by auto
      let ?w1 = "v\<lparr>ticks := Suc (ticks v)\<rparr>"
      obtain a w2 where a: "run_state (accept_mail E cfg (new_mail (x_uuid E (ticks v)) req cid cn sc)
          (sr_Attachments req)) ?w1 = (a, w2)" by fastforce
      with assms Inr s yes c have "w' = w2" "r = Returns (send_response E cfg (x_uuid E (ticks v)) a)"
        by (auto simp: Send_def)
      with a v show thesis by (intro accepted [OF Inr sc c _ _ _ _ _ _, of ?w1]) simp_all
    qed
  qed
qed

section \<open>A sample request\<close>

text \<open>A request of a registered application with one small attachment.\<close>

definition sample_content :: string where
  "sample_content = b64_encode ''hi''"

definition sample_send_request :: send_request where
  "sample_send_request = zero_send_request\<lparr>sr_From := ''a@b.org'', sr_To := [''c@d.org''], sr_Subject := ''Hi'',
     sr_Attachments := [\<lparr>ar_Filename = ''a.txt'', ar_Content = sample_content, ar_ContentType = ''text/plain''\<rparr>]\<rparr>"

definition sample_body :: payload where
  "sample_body = Json (JO [(''from'', JS ''a@b.org''), (''to'', JA [JS ''c@d.org'']), (''subject'', JS ''Hi''),
     (''attachments'', JA [JO [(''filename'', JS ''a.txt''), (''content'', JS sample_content),
        (''content_type'', JS ''text/plain'')]])])"

definition sample_ctx :: gin_values where
  "sample_ctx = [''client_id'' \<mapsto> GoJson (JS ''app''), ''client_name'' \<mapsto> GoJson (JS ''App''),
     ''client_token_id'' \<mapsto> GoJson (JS ''tok'')]"

lemma sample_body_binds:
  "ShouldBindJSON sample_ext put_send_request zero_send_request (valid_send_request sample_ext) sample_body
     = Inr sample_send_request"
proof -
  have [simp]: "x_is_email sample_ext s = (CHR ''@'' \<in> set s)" for s by (simp add: sample_ext_def)
  show ?thesis
    by (simp add: ShouldBindJSON_def sample_body_def sample_send_request_def put_send_request_def zero_send_request_def
        put_attachment_request_def zero_attachment_request_def valid_send_request_def ascii_lower_def)
qed

lemma sample_ctx_strings [simp]:
  "as_string (sample_ctx ''client_id'') = Some ''app''" "as_string (sample_ctx ''client_name'') = Some ''App''"
  "as_string (sample_ctx ''client_token_id'') = Some ''tok''"
  by (simp_all add: sample_ctx_def as_string_def)

lemma sample_send_request_fields [simp]:
  "sr_From sample_send_request = ''a@b.org''"
  "sr_Attachments sample_send_request =
     [\<lparr>ar_Filename = ''a.txt'', ar_Content = sample_content, ar_ContentType = ''text/plain''\<rparr>]"
  by (simp_all add: sample_send_request_def)

lemma sample_decoded [simp]: "b64_decode sample_content = Some ''hi''"
  unfolding sample_content_def by (rule b64_decode_encode)

lemma sample_small: "\<not> too_large default_config ''hi''"
  by code_simp

lemma sample_plain_sender: "\<not> org_sender sample_ext default_config ''a@b.org''"
  by code_simp

lemma sample_send:
  "\<exists>answer w'. run_state (Send sample_ext default_config None sample_ctx sample_body) sample_world
     = (Returns answer, w') \<and> fst answer = 200"
  by (simp add: Send_def sample_body_binds find_sender_def sample_plain_sender accept_mail_def new_mail_def
      save_attachment_def sample_small store_file_run mails_Create_run PublishMail_run Let_def t_find_def
      send_response_code)

section \<open>Accepting: properties\<close>

lemma Send_accepted_ok:
  assumes "run_state (Send E cfg svc ctx body) w = (Returns answer, w')" and "fst answer = 200"
  shows "\<exists>req i clientID clientName sc saved t.
     ShouldBindJSON E put_send_request zero_send_request (valid_send_request E) body = Inr req
     \<and> valid_send_request E req
     \<and> as_string (ctx ''client_id'') = Some clientID \<and> as_string (ctx ''client_name'') = Some clientName
     \<and> (if org_sender E cfg (sr_From req) then \<exists>c. sc = Some c \<and> sender_settings E ctx (sr_From req) w c
         else sc = None)
     \<and> list_all2 (saved_as E cfg i) (sr_Attachments req) (map snd saved)
     \<and> files w' = fold write_saved (zip (sr_Attachments req) (map snd saved)) (files w)
     \<and> t_find mail_ID i (mails w) = None
     \<and> (let m = new_mail i req clientID clientName sc in
         mails w' = t_insert (stored_mail t (m\<lparr>mail_Attachments := map fst saved\<rparr>)) (mails w)
         \<and> broker w' = publish_to []
             (plain_message (co_MailQueueName cfg) (job_of_mail E m (map snd saved))) (broker w)
         \<and> answer = send_response E cfg i (Inr ()))"
  using assms(1)
proof (cases rule: Send_cases)
  case stopped
  with assms(2) show ?thesis by simp
next
  case (accepted req sc i w1 clientID clientName a)
  have "a = Inr ()" using accepted(9) assms(2) send_response_code [of E cfg i a] by simp
  have "valid_send_request E req"
    using accepted(1) by (auto simp: ShouldBindJSON_def split: payload.splits option.splits if_splits)
  with accepted(8) show ?thesis
  proof (cases rule: accept_mail_cases)
    case (queued saved t)
    with accepted(1-7,9,10) \<open>valid_send_request E req\<close> show ?thesis
      by (intro exI [of _ req] exI [of _ i] exI [of _ clientID] exI [of _ clientName] exI [of _ sc]
          exI [of _ saved] exI [of _ t]) (simp add: Let_def new_mail_def)
  qed (use \<open>a = Inr ()\<close> in simp_all)
qed

text \<open>
  C3: an answer 200 of \<open>Send\<close> means all of: the body passed validation, the sender was
  allowed (a sender of the organisation has active settings of this client, and the mail
  carries their identifier), every attachment was decoded, within the limit and written under its path (of two with the same path the later one stays), the
  row was inserted as \<open>queued\<close> under a new identifier, and one message, the job of that row,
  was published to the mail queue and nothing else to the broker.
\<close>

theorem Send_accepted:
  assumes "run_state (Send E cfg svc ctx body) w = (Returns answer, w')" and "fst answer = 200"
  shows "\<exists>req i clientID clientName sc saved t.
     ShouldBindJSON E put_send_request zero_send_request (valid_send_request E) body = Inr req
     \<and> valid_send_request E req
     \<and> as_string (ctx ''client_id'') = Some clientID \<and> as_string (ctx ''client_name'') = Some clientName
     \<and> (if org_sender E cfg (sr_From req) then \<exists>c. sc = Some c \<and> sender_settings E ctx (sr_From req) w c
         else sc = None)
     \<and> list_all2 (saved_as E cfg i) (sr_Attachments req) (map snd saved)
     \<and> files w' = fold write_saved (zip (sr_Attachments req) (map snd saved)) (files w)
     \<and> t_find mail_ID i (mails w) = None
     \<and> (let m = new_mail i req clientID clientName sc in
         mails w' = t_insert (stored_mail t (m\<lparr>mail_Attachments := map fst saved\<rparr>)) (mails w)
         \<and> broker w' = publish_to []
             (plain_message (co_MailQueueName cfg) (job_of_mail E m (map snd saved))) (broker w)
         \<and> answer = send_response E cfg i (Inr ()))"
  using assms by (rule Send_accepted_ok)

theorem Send_accepted_witness:
  "\<exists>answer w'. run_state (Send sample_ext default_config None sample_ctx sample_body) sample_world
     = (Returns answer, w') \<and> length (mails w') = 1 \<and> length (waiting w' ''mail-queue'') = 1
     \<and> (\<exists>path. files w' path = Some ''hi'')"
proof -
  obtain answer w' where r: "run_state (Send sample_ext default_config None sample_ctx sample_body) sample_world
     = (Returns answer, w')" "fst answer = 200" using sample_send by blast
  from Send_accepted [OF r] obtain m where "length (mails w') = 1"
    "broker w' = publish_to [] (plain_message ''mail-queue'' m) sample_broker"
    and f: "\<exists>path. files w' path = Some ''hi''"
    by (auto simp: Let_def t_insert_def sample_body_binds list_all2_Cons1)
  moreover have "queue_of (publish_to [] (plain_message ''mail-queue'' m) sample_broker) ''mail-queue''
      = [plain_message ''mail-queue'' m]"
    by (subst publish_default) (simp_all add: plain_message_def sample_broker_def queue_of_def)
  ultimately have "length (mails w') = 1" "length (waiting w' ''mail-queue'') = 1" by (simp_all add: waiting_def)
  with r(1) f show ?thesis by blast
qed

text \<open>
  C17: any other end of \<open>Send\<close>, a panic included, leaves the broker as it was and every row
  that was there before, and adds at most one row; that row is \<open>queued\<close> or \<open>failed\<close> and
  exists only when the answer says that queueing failed.
\<close>

theorem Send_refused:
  assumes "run_state (Send E cfg svc ctx body) w = (r, w')" and "\<forall>answer. r = Returns answer \<longrightarrow> fst answer \<noteq> 200"
  shows "broker w' = broker w
     \<and> (\<forall>k m. t_find mail_ID k (mails w) = Some m \<longrightarrow> t_find mail_ID k (mails w') = Some m)
     \<and> (mails w' = mails w
        \<or> (\<exists>i m. r = Returns (send_response E cfg i (Inl QueueFailed)) \<and> t_find mail_ID i (mails w) = None
            \<and> t_find mail_ID i (mails w') = Some m \<and> mail_Status m \<in> {MailStatusQueued, MailStatusFailed}))"
  using assms(1)
proof (cases rule: Send_cases)
  case stopped
  then show ?thesis by simp
next
  case (accepted req sc i w1 clientID clientName a)
  let ?m = "new_mail i req clientID clientName sc"
  from accepted(8) show ?thesis
  proof (cases rule: accept_mail_cases)
    case (refused e)
    with accepted(5,6) show ?thesis by simp
  next
    case (unqueued saved t)
    let ?row = "stored_mail t (?m\<lparr>mail_Attachments := map fst saved\<rparr>)"
    have new: "t_find mail_ID i (mails w) = None" using unqueued(3) accepted(5) by (simp add: new_mail_def)
    have id: "mail_ID ?row = i" by (simp add: stored_mail_def new_mail_def)
    have st: "mail_Status ?row = MailStatusQueued" by (simp add: stored_mail_def new_mail_def)
    have "\<exists>m. (\<forall>k. t_find mail_ID k (mails w') = (if k = i then Some m else t_find mail_ID k (mails w)))
        \<and> mail_Status m \<in> {MailStatusQueued, MailStatusFailed}"
      using unqueued(4) new id st by (intro queued_or_failed [where row = ?row]) (simp_all add: new_mail_def accepted(5))
    then obtain m where m: "\<And>k. t_find mail_ID k (mails w') = (if k = i then Some m else t_find mail_ID k (mails w))"
      "mail_Status m \<in> {MailStatusQueued, MailStatusFailed}" by blast
    have "t_find mail_ID k (mails w') = Some x" if "t_find mail_ID k (mails w) = Some x" for k x
      using that new m(1) [of k] by auto
    moreover have "r = Returns (send_response E cfg i (Inl QueueFailed)) \<and> t_find mail_ID i (mails w) = None
        \<and> t_find mail_ID i (mails w') = Some m"
      using accepted(9) unqueued(1) new m(1) [of i] by simp
    ultimately show ?thesis using m(2) unqueued(2) accepted(6) by (metis (no_types, lifting))
  next
    case (queued saved t)
    with accepted(9) assms(2) send_response_code [of E cfg i a] show ?thesis by simp
  qed
qed

theorem Send_refused_witness:
  "broker (snd (run_state (Send sample_ext default_config None Map.empty sample_body) sample_world)) = sample_broker"
proof -
  let ?r = "run_state (Send sample_ext default_config None Map.empty sample_body) sample_world"
  have "?r = (fst ?r, snd ?r)" by simp
  moreover have "fst ?r = Panics"
    by (simp add: Send_def sample_body_binds find_sender_def sample_plain_sender as_string_def)
  ultimately show ?thesis using Send_refused [of sample_ext default_config None Map.empty sample_body sample_world "fst ?r" "snd ?r"]
    by simp
qed

section \<open>Batches: properties\<close>

text \<open>What an item of a batch came to, and the message that was published for it.\<close>

type_synonym item_outcome = "uuid \<times> (accept_error + attachment_info list)"

definition item_result :: "ext \<Rightarrow> config \<Rightarrow> item_outcome \<Rightarrow> jv" where
  "item_result E cfg x = batch_result E cfg (fst x) (map_sum id (\<lambda>_. ()) (snd x))"

definition item_messages ::
  "ext \<Rightarrow> config \<Rightarrow> string \<Rightarrow> string \<Rightarrow> send_request \<Rightarrow> item_outcome \<Rightarrow> message list" where
  "item_messages E cfg clientID clientName req x =
     (case snd x of
        Inl _ \<Rightarrow> []
      | Inr infos \<Rightarrow> [plain_message (co_MailQueueName cfg)
          (job_of_mail E (new_mail (fst x) req clientID clientName None) infos)])"

lemma processSingleMail_item:
  assumes "run_state (processSingleMail E cfg cid cn req) w = (res, w')"
  shows "\<exists>x. res = item_result E cfg x
     \<and> broker w' = fold (publish_to []) (item_messages E cfg cid cn req x) (broker w)"
proof -
  let ?i = "x_uuid E (ticks w)" and ?w1 = "w\<lparr>ticks := Suc (ticks w)\<rparr>"
  obtain a where a: "run_state (accept_mail E cfg (new_mail ?i req cid cn None) (sr_Attachments req)) ?w1 = (a, w')"
    and res: "res = batch_result E cfg ?i a"
    using assms by (auto simp: processSingleMail_def split: prod.splits)
  from a show ?thesis
  proof (cases rule: accept_mail_cases)
    case (refused e)
    with res show ?thesis by (intro exI [of _ "(?i, Inl e)"]) (simp add: item_result_def item_messages_def)
  next
    case (unqueued saved t)
    with res show ?thesis by (intro exI [of _ "(?i, Inl QueueFailed)"]) (simp add: item_result_def item_messages_def)
  next
    case (queued saved t)
    with res show ?thesis
      by (intro exI [of _ "(?i, Inr (map snd saved))"]) (simp add: item_result_def item_messages_def)
  qed
qed

lemma batch_items:
  "run_state (for_each (processSingleMail E cfg cid cn) reqs) w = (results, w') \<Longrightarrow>
   \<exists>xs. length xs = length reqs \<and> results = map (item_result E cfg) xs
     \<and> broker w' = fold (publish_to []) (concat (map2 (item_messages E cfg cid cn) reqs xs)) (broker w)"
proof (induction reqs arbitrary: w results w')
  case Nil
  then show ?case by simp
next
  case (Cons req reqs)
  obtain res w1 where r: "run_state (processSingleMail E cfg cid cn req) w = (res, w1)" by fastforce
  obtain rest w2 where rest: "run_state (for_each (processSingleMail E cfg cid cn) reqs) w1 = (rest, w2)" by fastforce
  from Cons.prems r rest have eq: "results = res # rest" "w' = w2" by simp_all
  from processSingleMail_item [OF r] obtain x where x: "res = item_result E cfg x"
    "broker w1 = fold (publish_to []) (item_messages E cfg cid cn req x) (broker w)" by blast
  from Cons.IH [OF rest] obtain xs where xs: "length xs = length reqs" "rest = map (item_result E cfg) xs"
    "broker w2 = fold (publish_to []) (concat (map2 (item_messages E cfg cid cn) reqs xs)) (broker w1)" by blast
  from eq x xs show ?case by (intro exI [of _ "x # xs"]) simp
qed

text \<open>
  C33: a batch is answered with one result for each of its items, in their order, and publishes
  in that order exactly one message for each item reported as queued, none for the others. The
  job of an item never names sender settings, whoever the sender is: unlike \<open>Send\<close>, a batch
  does not ask for them, nor does it check the items' addresses.
\<close>

theorem SendBatch_items:
  assumes "run_state (SendBatch E cfg ctx body) w = (Returns answer, w')"
    and "ShouldBindJSON E put_batch [] (\<lambda>ms. 1 \<le> length ms) body = Inr reqs"
  shows "\<exists>clientID clientName batch xs. answer = (200, JO [(''success'', JB True),
       (''batch_id'', JS (x_uuid_string E batch)), (''results'', JA (map (item_result E cfg) xs))])
     \<and> length xs = length reqs
     \<and> broker w' = fold (publish_to []) (concat (map2 (item_messages E cfg clientID clientName) reqs xs)) (broker w)
     \<and> (\<forall>msg\<in>set (concat (map2 (item_messages E cfg clientID clientName) reqs xs)).
          \<exists>job. msg = plain_message (co_MailQueueName cfg) job \<and> job_SenderConfigID job = [])"
proof -
  obtain clientID clientName where c: "as_string (ctx ''client_id'') = Some clientID"
      "as_string (ctx ''client_name'') = Some clientName"
    using assms by (auto simp: SendBatch_def split: option.splits)
  let ?w1 = "w\<lparr>ticks := Suc (ticks w)\<rparr>"
  obtain results w2 where r: "run_state (for_each (processSingleMail E cfg clientID clientName) reqs) ?w1 = (results, w2)"
    by fastforce
  with assms c have "w' = w2" "answer = (200, JO [(''success'', JB True),
       (''batch_id'', JS (x_uuid_string E (x_uuid E (ticks w)))), (''results'', JA results)])"
    by (auto simp: SendBatch_def)
  with batch_items [OF r] obtain xs where "length xs = length reqs" "results = map (item_result E cfg) xs"
    "broker w' = fold (publish_to []) (concat (map2 (item_messages E cfg clientID clientName) reqs xs)) (broker w)"
    by auto
  moreover have "\<exists>job. msg = plain_message (co_MailQueueName cfg) job \<and> job_SenderConfigID job = []"
    if "msg \<in> set (item_messages E cfg clientID clientName req x)" for msg req x
    using that by (auto simp: item_messages_def job_of_mail_def new_mail_def split: sum.splits)
  ultimately show ?thesis using \<open>answer = _\<close>
    by (intro exI [of _ clientID] exI [of _ clientName] exI [of _ "x_uuid E (ticks w)"] exI [of _ xs]) auto
qed

definition sample_batch :: payload where
  "sample_batch = Json (JO [(''mails'', JA [JO [(''from'', JS ''x'')], JO [(''from'', JS ''y'')]])])"

theorem SendBatch_items_witness:
  "\<exists>answer w' results. run_state (SendBatch sample_ext default_config sample_ctx sample_batch) sample_world
     = (Returns answer, w') \<and> answer = (200, JO results)"
proof -
  let ?r = "run_state (SendBatch sample_ext default_config sample_ctx sample_batch) sample_world"
  have b: "ShouldBindJSON sample_ext put_batch [] (\<lambda>ms. 1 \<le> length ms) sample_batch
     = Inr [zero_send_request\<lparr>sr_From := ''x''\<rparr>, zero_send_request\<lparr>sr_From := ''y''\<rparr>]"
    by (simp add: ShouldBindJSON_def sample_batch_def put_batch_def put_send_request_def zero_send_request_def
        ascii_lower_def)
  then have "fst ?r \<noteq> Panics"
    by (simp add: SendBatch_def split: prod.splits)
  then obtain answer w' where r: "?r = (Returns answer, w')"
    by (cases ?r, cases "fst ?r") auto
  from SendBatch_items [OF r b] r show ?thesis by blast
qed

section \<open>Cancelling: properties\<close>

lemma mails_First_up:
  "up E \<Longrightarrow> run_state (mails_First E P) w =
     (case t_first mail_ID P (mails w) of None \<Rightarrow> Inl ErrRecordNotFound | Some m \<Rightarrow> Inr (loaded m),
      w\<lparr>ticks := Suc (ticks w)\<rparr>)"
  by (simp add: mails_First_def db_exec_def up_def)

text \<open>The mail a text names, if it belongs to this client.\<close>

definition own_mail :: "ext \<Rightarrow> gin_values \<Rightarrow> string \<Rightarrow> world \<Rightarrow> mail option" where
  "own_mail E ctx mailID w =
     (case x_pg_uuid E mailID of
        None \<Rightarrow> None
      | Some i \<Rightarrow>
          (case t_find mail_ID i (mails w) of
             None \<Rightarrow> None
           | Some m \<Rightarrow> if as_string (ctx ''client_id'') = Some (mail_ClientID m) then Some m else None))"

lemma first_own:
  assumes "t_keys_unique mail_ID (mails w)"
  shows "t_first mail_ID (\<lambda>m. id_is E mailID (mail_ID m) \<and> as_string (ctx ''client_id'') = Some (mail_ClientID m))
      (mails w) = own_mail E ctx mailID w" (is "t_first mail_ID ?P _ = _")
proof (cases "own_mail E ctx mailID w")
  case None
  have "\<not> ?P m" if "m \<in> set (mails w)" for m
  proof
    assume p: "?P m"
    have "t_find mail_ID (mail_ID m) (mails w) = Some m" using assms that by (rule t_find_mem)
    with p None show False by (simp add: own_mail_def id_is_def)
  qed
  with None show ?thesis by (simp add: t_first_None)
next
  case (Some m)
  then obtain i where i: "x_pg_uuid E mailID = Some i" "t_find mail_ID i (mails w) = Some m" and p: "?P m"
    by (auto simp: own_mail_def id_is_def split: option.splits if_splits dest: t_find_Some)
  have m: "m \<in> set (mails w)" "mail_ID m = i" using t_find_Some [OF i(2)] by auto
  have "filter ?P (mails w) = filter ?P (filter (\<lambda>x. mail_ID x = mail_ID m) (mails w))"
    using i(1) m(2) by (auto simp: id_is_def intro: filter_cong)
  also have "\<dots> = [m]" using filter_unique [of mail_ID "mails w" m] assms m(1) p
    by (simp add: t_keys_unique_def)
  finally show ?thesis using Some by (simp add: t_first_single)
qed

lemma Cancel_ok:
  assumes "up E" and "t_keys_unique mail_ID (mails w)"
    and "run_state (Cancel E cfg ctx mailID) w = (answer, w')"
  shows "case own_mail E ctx mailID w of
      None \<Rightarrow> fst answer = 404 \<and> but_ticks w' = but_ticks w
    | Some m \<Rightarrow>
        if mail_Status m = MailStatusQueued then
          fst answer = 200 \<and> broker w' = broker w \<and> cached_status mailID w' = Some ''cancelled''
          \<and> (\<forall>i. t_find mail_ID i (mails w') = (if i = mail_ID m
               then Some (m\<lparr>mail_Status := MailStatusCancelled, mail_UpdatedAt := x_clock E (Suc (ticks w))\<rparr>)
               else t_find mail_ID i (mails w)))
        else fst answer = 400 \<and> but_ticks w' = but_ticks w"
proof (cases "own_mail E ctx mailID w")
  case None
  with assms show ?thesis
    by (auto simp: Cancel_def mails_First_up first_own not_found_def gin_error_def but_ticks_def)
next
  case (Some m)
  then have m: "t_find mail_ID (mail_ID m) (mails w) = Some m"
    by (auto simp: own_mail_def split: option.splits if_splits dest: t_find_Some)
  show ?thesis
  proof (cases "mail_Status m = MailStatusQueued")
    case False
    with Some assms show ?thesis
      by (auto simp: Cancel_def mails_First_up first_own gin_error_def but_ticks_def loaded_def)
  next
    case True
    have [simp]: "mail_ID (loaded m) = mail_ID m" "mail_Status (loaded m) = mail_Status m" by (simp_all add: loaded_def)
    let ?w1 = "w\<lparr>ticks := Suc (Suc (ticks w)),
        mails := t_update (\<lambda>r. mail_ID r = mail_ID m) (\<lambda>r. r\<lparr>mail_Status := MailStatusCancelled,
          mail_UpdatedAt := x_clock E (Suc (ticks w))\<rparr>) (mails w)\<rparr>"
    let ?w2 = "?w1\<lparr>ticks := Suc (Suc (ticks ?w1)),
        cache := (cache ?w1)(status_key mailID \<mapsto> status_entry E cfg mailID ''cancelled'' 0 [] (ticks ?w1))\<rparr>"
    have run: "fst answer = 200" "w' = ?w2"
      using assms Some True
      by (auto simp: Cancel_def mails_First_up first_own mails_Update_up SetStatus_up)
    have "t_find mail_ID i (mails w') = (if i = mail_ID m
        then Some (m\<lparr>mail_Status := MailStatusCancelled, mail_UpdatedAt := x_clock E (Suc (ticks w))\<rparr>)
        else t_find mail_ID i (mails w))" for i
      unfolding run(2) by (simp add: mail_rows.find_update m)
    moreover have "is_ascii ''cancelled''" by code_simp
    then have "cached_status mailID w' = Some ''cancelled''"
      by (rule cached_literal [rotated]) (simp add: run(2))
    moreover have "broker w' = broker w" unfolding run(2) by simp
    ultimately show ?thesis using Some True run(1) by simp
  qed
qed

text \<open>
  C24: a mail can be cancelled exactly by its own client while it is \<open>queued\<close>: then the row and
  the cached status say \<open>cancelled\<close>. In every other case (no such mail, another client's mail,
  or a mail in another state) the answer is 404 or 400 and nothing is changed. The queue keeps
  the job either way; the worker drops it when it finds the row cancelled.
\<close>

theorem Cancel_outcome:
  assumes "up E" and "t_keys_unique mail_ID (mails w)"
    and "run_state (Cancel E cfg ctx mailID) w = (answer, w')"
  shows "case own_mail E ctx mailID w of
      None \<Rightarrow> fst answer = 404 \<and> but_ticks w' = but_ticks w
    | Some m \<Rightarrow>
        if mail_Status m = MailStatusQueued then
          fst answer = 200 \<and> broker w' = broker w \<and> cached_status mailID w' = Some ''cancelled''
          \<and> (\<forall>i. t_find mail_ID i (mails w') = (if i = mail_ID m
               then Some (m\<lparr>mail_Status := MailStatusCancelled, mail_UpdatedAt := x_clock E (Suc (ticks w))\<rparr>)
               else t_find mail_ID i (mails w)))
        else fst answer = 400 \<and> but_ticks w' = but_ticks w"
  using assms by (rule Cancel_ok)

definition sample_mail :: mail where
  "sample_mail = new_mail ''m1'' sample_send_request ''app'' ''App'' None"

theorem Cancel_outcome_witness:
  "fst (fst (run_state (Cancel sample_ext default_config sample_ctx ''m1'') (sample_world\<lparr>mails := [sample_mail]\<rparr>))) = 200
   \<and> fst (fst (run_state (Cancel sample_ext default_config sample_ctx ''m2'') (sample_world\<lparr>mails := [sample_mail]\<rparr>))) = 404"
proof -
  let ?w = "sample_world\<lparr>mails := [sample_mail]\<rparr>"
  have u: "t_keys_unique mail_ID (mails ?w)" by (simp add: t_keys_unique_def)
  have own: "own_mail sample_ext sample_ctx ''m1'' ?w = Some sample_mail"
    "own_mail sample_ext sample_ctx ''m2'' ?w = None"
    by (simp_all add: own_mail_def t_find_def sample_mail_def new_mail_def)
  note c = Cancel_outcome [OF sample_up u, of default_config sample_ctx _ "fst r" "snd r" for r]
  have "mail_Status sample_mail = MailStatusQueued" by (simp add: sample_mail_def new_mail_def)
  with c [of "''m1''" "run_state (Cancel sample_ext default_config sample_ctx ''m1'') ?w"]
    c [of "''m2''" "run_state (Cancel sample_ext default_config sample_ctx ''m2'') ?w"] own
  show ?thesis by simp
qed

section \<open>Status: properties\<close>

definition status_answer :: "response \<Rightarrow> string option" where
  "status_answer r =
     (case r of
        (_, JO kvs) \<Rightarrow> (case map_of kvs ''status'' of Some (JS s) \<Rightarrow> Some s | _ \<Rightarrow> None)
      | _ \<Rightarrow> None)"

lemma status_answer_cached:
  "status_answer (200, marshal_status c) = Some (to_valid_utf8 (msc_Status c))"
  by (simp add: status_answer_def marshal_status_def json_string_def)

lemma json_ascii: "is_ascii s \<Longrightarrow> json_string s = JS s"
  by (simp add: json_string_def)

text \<open>What \<open>GetStatus\<close> answers: the cached status while it can be read, else the row's.\<close>

lemma GetStatus_kv_cases:
  "fst (run_state (GetStatus_kv E i) w) = Inr c \<Longrightarrow>
   \<exists>p x. cache w (status_key i) = Some (p, x) \<and> unmarshal_status p = Some c"
proof -
  assume a: "fst (run_state (GetStatus_kv E i) w) = Inr c"
  then have "x_kv E (ticks w) = None" by (auto simp: GetStatus_kv_def kv_Get_def Let_def split: option.splits)
  with a obtain p x where "cache w (status_key i) = Some (p, x)"
    by (cases "cache w (status_key i)") (auto simp: GetStatus_kv_def kv_Get_def Let_def)
  with a \<open>x_kv E (ticks w) = None\<close> show ?thesis
    by (cases x) (auto simp: GetStatus_kv_def kv_Get_def Let_def split: if_splits option.splits)
qed

lemma GetStatus_cases:
  assumes db: "\<And>n. x_db E n = None" and "t_keys_unique mail_ID (mails w)"
    and "x_pg_uuid E s = Some i" and "t_find mail_ID i (mails w) = Some m"
  shows "status_answer (fst (run_state (GetStatus E s) w)) \<in>
     {Some (status_text (mail_Status m)), map_option to_valid_utf8 (cached_status s w)}
     \<and> fst (fst (run_state (GetStatus E s) w)) = 200
     \<and> (cached_status s w = None \<longrightarrow>
          status_answer (fst (run_state (GetStatus E s) w)) = Some (status_text (mail_Status m)))"
proof (cases "fst (run_state (GetStatus_kv E s) w)")
  case (Inr c)
  with GetStatus_kv_cases [OF this] show ?thesis
    by (auto simp: GetStatus_def status_answer_cached cached_status_def split: prod.splits)
next
  case (Inl e)
  obtain w1 where k: "run_state (GetStatus_kv E s) w = (Inl e, w1)" "mails w1 = mails w"
  proof -
    have "within (same mails) (GetStatus_kv E s)" by (intro frames) (simp add: same_def)
    with Inl within_same that show thesis by (metis prod.collapse)
  qed
  have h: "(\<lambda>m. id_is E s (mail_ID m)) = (\<lambda>m. mail_ID m = i)" using assms(3) by (auto simp: id_is_def)
  have "t_first mail_ID (\<lambda>m. id_is E s (mail_ID m)) (mails w) = Some m"
    unfolding h using t_first_unique [OF assms(2), of mail_ID i] assms(4) by simp
  with k show ?thesis
    by (simp add: GetStatus_def mails_First_def db_exec_def db loaded_def status_answer_def split: option.splits)
qed

text \<open>
  As soon as \<open>Send\<close> has answered 200, asking for the status of the returned identifier is
  answered 200 with \<open>queued\<close>, whether the cache works, is down or has lost the entry: the row
  answers when the cache does not.
\<close>

lemma Send_then_status:
  assumes "run_state (Send E cfg svc ctx body) w = (Returns (200, JO kvs), w1)"
    and "map_of kvs ''mail_id'' = Some (JS s)"
    and "\<And>n. x_db E n = None" and "\<And>i. x_pg_uuid E (x_uuid_string E i) = Some i"
    and "t_keys_unique mail_ID (mails w)" and "cache w (status_key s) = None"
  shows "fst (fst (run_state (GetStatus E s) w1)) = 200
     \<and> status_answer (fst (run_state (GetStatus E s) w1)) = Some ''queued''"
  using assms(1)
proof (cases rule: Send_cases)
  case stopped
  then show ?thesis by simp
next
  case (accepted req sc i w0 clientID clientName a)
  let ?m = "new_mail i req clientID clientName sc"
  have "a = Inr ()" using accepted(9) send_response_code [of E cfg i a] by (metis fst_conv outcome.inject)
  with accepted(9) assms(2) have s: "s = x_uuid_string E i" by (auto simp: send_response_def)
  from accepted(8) show ?thesis
  proof (cases rule: accept_mail_cases)
    case (queued saved t)
    let ?row = "stored_mail t (?m\<lparr>mail_Attachments := map fst saved\<rparr>)"
    have id: "mail_ID ?m = i" "mail_ID ?row = i" and st: "mail_Status ?row = MailStatusQueued"
      by (simp_all add: stored_mail_def new_mail_def)
    have new: "t_find mail_ID i (mails w) = None" using queued(3) accepted(5) id by simp
    have row: "t_find mail_ID i (mails w1) = Some ?row"
      using queued(4) accepted(5) new id by (simp add: mail_rows.find_add)
    have uniq: "t_keys_unique mail_ID (mails w1)"
      using queued(4) accepted(5) new id assms(5) by (simp add: t_insert_unique t_find_None)
    have q: "is_ascii ''queued''" by code_simp
    then have "cached_status s w1 \<in> {None, Some ''queued''}"
      using queued(6) accepted(7) assms(6) cached_literal [of w1 s E cfg "''queued''" 0 "[]"]
      by (auto simp: status_written_def id s cached_status_def)
    moreover have "x_pg_uuid E s = Some i" using assms(4) s by simp
    note GetStatus_cases [OF assms(3) uniq this row]
    ultimately show ?thesis using q by (auto simp: st)
  qed (use \<open>a = Inr ()\<close> in simp_all)
qed

lemma Send_then_status_witness:
  "\<exists>answer w1 s. run_state (Send sample_ext default_config None sample_ctx sample_body) sample_world
       = (Returns answer, w1)
     \<and> status_answer (fst (run_state (GetStatus sample_ext s) w1)) = Some ''queued''"
proof -
  obtain answer w1 where r: "run_state (Send sample_ext default_config None sample_ctx sample_body) sample_world
     = (Returns answer, w1)" "fst answer = 200" using sample_send by blast
  from Send_accepted_ok [OF r] obtain i where "answer = send_response sample_ext default_config i (Inr ())" by (auto simp: Let_def)
  then obtain kvs where f: "answer = (200, JO kvs)" "map_of kvs ''mail_id'' = Some (JS i)"
    by (simp add: send_response_def)
  have "t_keys_unique mail_ID (mails sample_world)" by (simp add: t_keys_unique_def)
  with Send_then_status [OF r(1) [unfolded f(1)] f(2)] show ?thesis
    using r(1) by auto
qed

section \<open>History: properties\<close>

text \<open>The rows the answer of \<open>GetHistory\<close> holds.\<close>

definition history_data :: "response \<Rightarrow> jv list" where
  "history_data r =
     (case r of
        (_, JO kvs) \<Rightarrow> (case map_of kvs ''data'' of Some (JA js) \<Rightarrow> js | _ \<Rightarrow> [])
      | _ \<Rightarrow> [])"

lemma GetHistory_run:
  "(\<And>n. x_db E n = None) \<Longrightarrow>
   history_data (fst (run_state (GetHistory E ctx q) w)) =
     map (\<lambda>m. marshal_mail E (loaded m))
       (page_of (sint ((fst (Atoi (default_query q ''page'' ''1'')) - 1) * history_limit q)) (sint (history_limit q))
         (newest_first (\<lambda>m. x_tie E (Suc (Suc (ticks w))) (mail_ID m)) mail_CreatedAt
           (filter (history_filter ctx q) (mails w))))"
  by (simp add: GetHistory_def Let_def mails_Count_def mails_Page_def db_exec_def history_data_def)

definition page_query :: "(string \<Rightarrow> string option) \<Rightarrow> nat \<Rightarrow> nat \<Rightarrow> string \<Rightarrow> string option" where
  "page_query q limit page = q(''page'' \<mapsto> dec_nat page, ''limit'' \<mapsto> dec_nat limit)"

lemma concat_pages: "concat (map (\<lambda>p. take n (drop (p * n) xs)) [0..<k]) = take (k * n) xs"
  by (induction k) (simp_all add: take_add [symmetric] add.commute)

lemma history_page:
  assumes db: "\<And>n. x_db E n = None" and n: "n \<le> 100" and p: "(p + 1) * n < 2 ^ 63" "p + 1 < 2 ^ 63"
  shows "history_data (fst (run_state (GetHistory E ctx (page_query q n (Suc p))) w)) =
     take n (drop (p * n) (map (\<lambda>m. marshal_mail E (loaded m))
       (newest_first (\<lambda>m. x_tie E (Suc (Suc (ticks w))) (mail_ID m)) mail_CreatedAt
         (filter (history_filter ctx q) (mails w)))))"
proof -
  let ?q = "page_query q n (Suc p)"
  have d: "default_query ?q ''page'' x = dec_nat (Suc p)" "default_query ?q ''limit'' x = dec_nat n"
    "default_query ?q ''status'' x = default_query q ''status'' x" for x
    by (simp_all add: default_query_def page_query_def)
  have filt: "history_filter ctx ?q = history_filter ctx q" by (simp add: history_filter_def d fun_eq_iff)
  have s63: "k < 2 ^ 63 \<Longrightarrow> sint (of_nat k :: go_int) = int k" for k :: nat
    using sint_sbintrunc' [where 'a = 64, of "int k"] by (simp add: signed_take_bit_int_eq_self)
  have lim: "history_limit ?q = of_nat n" using n s63 [of n] by (simp add: history_limit_def d Atoi_dec_nat Let_def word_sless_alt)
  have "p * n < 2 ^ 63" using p(1) by simp
  moreover have "fst (Atoi (dec_nat (Suc p))) - 1 = of_nat p" using p(2) by (simp add: Atoi_dec_nat)
  ultimately have off: "sint ((fst (Atoi (default_query ?q ''page'' ''1'')) - 1) * of_nat n) = int (p * n)"
    unfolding d using s63 [of "p * n"] by simp
  have "sint (of_nat n :: go_int) = int n" using s63 [of n] n by simp
  then show ?thesis
    by (simp only: GetHistory_run [OF db] lim off filt)
       (simp add: page_of_def Let_def take_map drop_map flip: of_nat_mult)
qed

text \<open>
  C34: with a limit of at most 100, and when no two of a client's mails (of the asked status)
  are of the same age, the pages 1 to \<open>k\<close> of its history, each asked at any moment while the
  table stays as it is, are, put together, the first \<open>k * limit\<close> of these mails, newest first:
  each once and none left out. The order in which the database returns rows of equal age, free
  in each query, then makes no difference.
\<close>

theorem GetHistory_pages:
  assumes "\<And>n. x_db E n = None" and "n \<le> 100" and "k * n < 2 ^ 63" and "k < 2 ^ 63"
    and "distinct (map mail_CreatedAt (filter (history_filter ctx q) (mails w)))"
  shows "concat (map (\<lambda>p. history_data (fst (run_state (GetHistory E ctx (page_query q n (Suc p)))
        (w\<lparr>ticks := moment p\<rparr>)))) [0..<k])
     = take (k * n) (map (\<lambda>m. marshal_mail E (loaded m))
         (rev (sort_key mail_CreatedAt (filter (history_filter ctx q) (mails w)))))"
    (is "_ = take _ ?all")
proof -
  have "history_data (fst (run_state (GetHistory E ctx (page_query q n (Suc p))) (w\<lparr>ticks := moment p\<rparr>)))
      = take n (drop (p * n) ?all)" if "p < k" for p
  proof -
    have "(p + 1) * n \<le> k * n" using that by (intro mult_right_mono) auto
    with assms(3) have "(p + 1) * n < 2 ^ 63" by linarith
    moreover have "p + 1 < 2 ^ 63" using that assms(4) by linarith
    ultimately show ?thesis
      using history_page [OF assms(1,2), of p ctx q "w\<lparr>ticks := moment p\<rparr>"] assms(5)
      by (simp add: newest_first_distinct)
  qed
  then have "map (\<lambda>p. history_data (fst (run_state (GetHistory E ctx (page_query q n (Suc p))) (w\<lparr>ticks := moment p\<rparr>)))) [0..<k]
      = map (\<lambda>p. take n (drop (p * n) ?all)) [0..<k]" by simp
  then show ?thesis by (simp only: concat_pages)
qed

definition aged_mails :: "mail list" where
  "aged_mails = map (\<lambda>t. sample_mail\<lparr>mail_CreatedAt := t\<rparr>) [5, 9, 7]"

lemma aged_mails_own: "filter (history_filter sample_ctx Map.empty) aged_mails = aged_mails"
  by (simp add: aged_mails_def history_filter_def default_query_def sample_mail_def new_mail_def)

theorem GetHistory_pages_witness:
  "concat (map (\<lambda>p. history_data (fst (run_state (GetHistory sample_ext sample_ctx
     (page_query Map.empty 2 (Suc p))) (sample_world\<lparr>mails := aged_mails, ticks := 10 * p\<rparr>)))) [0..<2])
   = map (\<lambda>t. marshal_mail sample_ext (loaded (sample_mail\<lparr>mail_CreatedAt := t\<rparr>))) [9, 7, 5]"
proof -
  have "distinct (map mail_CreatedAt aged_mails)"
    "rev (sort_key mail_CreatedAt aged_mails) = map (\<lambda>t. sample_mail\<lparr>mail_CreatedAt := t\<rparr>) [9, 7, 5]"
    by (simp_all add: aged_mails_def)
  then show ?thesis
    using GetHistory_pages [of sample_ext 2 2 sample_ctx Map.empty "sample_world\<lparr>mails := aged_mails\<rparr>" "\<lambda>p. 10 * p"]
    by (simp add: aged_mails_own)
qed

text \<open>
  Mails of equal age: a database that answers the two queries in different orders shows one of
  two mails on both pages and the other on none.
\<close>

definition fickle_ext :: ext where
  "fickle_ext = sample_ext\<lparr>x_tie := (\<lambda>n i. if (n < 5) = (i = ''m1'') then 1 else 0)\<rparr>"

lemma GetHistory_ties:
  assumes "m = sample_mail\<lparr>mail_ID := ''m2''\<rparr>"
  shows "map (\<lambda>p. history_data (fst (run_state (GetHistory fickle_ext sample_ctx (page_query Map.empty 1 (Suc p)))
      (sample_world\<lparr>mails := [sample_mail, m], ticks := 10 * p\<rparr>)))) [0, 1]
    = [[marshal_mail fickle_ext (loaded sample_mail)], [marshal_mail fickle_ext (loaded sample_mail)]]"
proof -
  let ?w = "sample_world\<lparr>mails := [sample_mail, m]\<rparr>"
  have own: "history_filter sample_ctx Map.empty sample_mail" "history_filter sample_ctx Map.empty (sample_mail\<lparr>mail_ID := i\<rparr>)"
    and id: "mail_ID sample_mail = ''m1''"
    for i by (simp_all add: history_filter_def default_query_def sample_mail_def new_mail_def)
  have db: "x_db fickle_ext n = None" for n by (simp add: fickle_ext_def)
  have "history_data (fst (run_state (GetHistory fickle_ext sample_ctx (page_query Map.empty 1 (Suc p)))
      (?w\<lparr>ticks := 10 * p\<rparr>))) = [marshal_mail fickle_ext (loaded sample_mail)]" if "p \<in> {0, 1}" for p
    using that history_page [OF db, of 1 p sample_ctx Map.empty "?w\<lparr>ticks := 10 * p\<rparr>"] id
    by (auto simp: own newest_first_def fickle_ext_def assms)
  from this [of 0] this [of 1] show ?thesis by simp
qed

text \<open>
  The cap of 100 does not hold for a negative limit: with \<open>limit=-1\<close> the answer of page 1
  holds every mail of the client.
\<close>

lemma GetHistory_unlimited:
  assumes "\<And>n. x_db E n = None"
  shows "length (history_data (fst (run_state (GetHistory E ctx (q(''page'' := None, ''limit'' \<mapsto> ''-1''))) w)))
     = length (filter (history_filter ctx q) (mails w))"
proof -
  let ?q = "q(''page'' := None, ''limit'' \<mapsto> ''-1'')"
  have "Atoi ''1'' = (1, None)" "Atoi ''-1'' = (- 1, None)" by (simp_all add: Atoi_def is_digit_def)
  then have "fst (Atoi (default_query ?q ''page'' ''1'')) = 1" "history_limit ?q = - 1"
    by (simp_all add: default_query_def history_limit_def Let_def word_sless_alt)
  moreover have "history_filter ctx ?q = history_filter ctx q"
    by (simp add: history_filter_def default_query_def fun_eq_iff)
  ultimately show ?thesis using assms
    by (simp add: GetHistory_run page_of_def Let_def)
qed

lemma GetHistory_unlimited_witness:
  "length (history_data (fst (run_state (GetHistory sample_ext sample_ctx [''limit'' \<mapsto> ''-1''])
     (sample_world\<lparr>mails := replicate 101 sample_mail\<rparr>)))) = 101"
proof -
  have "history_filter sample_ctx Map.empty sample_mail"
    by (simp add: history_filter_def default_query_def sample_mail_def new_mail_def)
  then have "filter (history_filter sample_ctx Map.empty) (replicate 101 sample_mail) = replicate 101 sample_mail"
    by (intro filter_True) simp
  then show ?thesis
    using GetHistory_unlimited [of sample_ext sample_ctx Map.empty "sample_world\<lparr>mails := replicate 101 sample_mail\<rparr>"]
    by simp
qed

section \<open>Attachments: properties\<close>

text \<open>
  C37: the API does not confine attachments to the directory of their mail: the file name of
  an attachment is used as it came, and for every absolute path there is a name under which
  the content (of allowed size) is written exactly there.
\<close>

theorem save_attachment_anywhere:
  assumes "rooted (co_AttachmentPath cfg)" and "es \<noteq> []" and "list_all plain_name es"
    and "\<not> too_large cfg data" and "\<And>n. x_fs E n = None"
  shows "\<exists>name. files (snd (run_state (save_attachment E cfg i
     \<lparr>ar_Filename = name, ar_Content = b64_encode data, ar_ContentType = ct\<rparr>) w)) (slash # join_with [slash] es) = Some data"
proof -
  from storage_path_anywhere [OF assms(1-3)] obtain name
    where "storage_path E cfg (x_clock E (ticks w)) i name = slash # join_with [slash] es" by blast
  then show ?thesis using assms(4,5)
    by (intro exI [of _ name]) (simp add: save_attachment_def store_file_run Let_def)
qed

theorem save_attachment_anywhere_witness:
  "\<exists>name. files (snd (run_state (save_attachment sample_ext default_config ''m1''
     \<lparr>ar_Filename = name, ar_Content = b64_encode ''hi'', ar_ContentType = []\<rparr>) sample_world)) ''/etc/x'' = Some ''hi''"
proof -
  have "rooted (co_AttachmentPath default_config)" by (simp add: rooted_def slash_def)
  moreover have "list_all plain_name [''etc'', ''x'']" by (simp add: plain_name_def slash_def)
  ultimately show ?thesis
    using save_attachment_anywhere [of default_config "[''etc'', ''x'']" "''hi''" sample_ext "''m1''" "[]" sample_world]
      sample_small by (simp add: slash_def del: b64_encode.simps)
qed

end
