(* ===== verification/Routes.thy ===== *)
theory Routes
  imports SenderConfigHandler MailHandler Auth
begin

text \<open>
  \<open>internal/api/routes/routes.go\<close>: the table of routes, the middlewares in front of each
  group, and the handler behind each route. Matching a path against the table is Gin's; a
  request that matches no entry is answered 404. A request is its endpoint (with the values
  of the path's parameters) and what the handlers read of it.
\<close>

datatype endpoint =
    EP_Health
  | EP_Send | EP_SendBatch | EP_GetStatus string | EP_GetHistory | EP_Cancel string
  | EP_CreateToken | EP_GetToken string | EP_RevokeToken string | EP_ListTokens
  | EP_CreateSenderConfig | EP_ListSenderConfigs | EP_GetSenderConfig string
  | EP_UpdateSenderConfig string | EP_DeleteSenderConfig string

text \<open>The registered routes; those of the sender settings only when the service is there.\<close>

definition RegisterRoutes :: "bool \<Rightarrow> (string \<times> string \<times> (string \<Rightarrow> endpoint)) list" where
  "RegisterRoutes has_sender_configs =
     [(''GET'', ''/health'', \<lambda>_. EP_Health),
      (''POST'', ''/api/v1/mail/send'', \<lambda>_. EP_Send),
      (''POST'', ''/api/v1/mail/send/batch'', \<lambda>_. EP_SendBatch),
      (''GET'', ''/api/v1/mail/status/:id'', EP_GetStatus),
      (''GET'', ''/api/v1/mail/history'', \<lambda>_. EP_GetHistory),
      (''DELETE'', ''/api/v1/mail/cancel/:id'', EP_Cancel),
      (''POST'', ''/api/v1/auth/token'', \<lambda>_. EP_CreateToken),
      (''GET'', ''/api/v1/auth/token/:id'', EP_GetToken),
      (''DELETE'', ''/api/v1/auth/token/:id'', EP_RevokeToken),
      (''GET'', ''/api/v1/auth/tokens'', \<lambda>_. EP_ListTokens)]
     @ (if has_sender_configs then
         [(''POST'', ''/api/v1/auth/sender-config'', \<lambda>_. EP_CreateSenderConfig),
          (''GET'', ''/api/v1/auth/sender-configs'', \<lambda>_. EP_ListSenderConfigs),
          (''GET'', ''/api/v1/auth/sender-config/:id'', EP_GetSenderConfig),
          (''PUT'', ''/api/v1/auth/sender-config/:id'', EP_UpdateSenderConfig),
          (''DELETE'', ''/api/v1/auth/sender-config/:id'', EP_DeleteSenderConfig)]
        else [])"

text \<open>The group of an endpoint.\<close>

fun mail_group :: "endpoint \<Rightarrow> bool" where
  "mail_group EP_Send = True"
| "mail_group EP_SendBatch = True"
| "mail_group (EP_GetStatus _) = True"
| "mail_group EP_GetHistory = True"
| "mail_group (EP_Cancel _) = True"
| "mail_group _ = False"

fun sender_config_group :: "endpoint \<Rightarrow> bool" where
  "sender_config_group EP_CreateSenderConfig = True"
| "sender_config_group EP_ListSenderConfigs = True"
| "sender_config_group (EP_GetSenderConfig _) = True"
| "sender_config_group (EP_UpdateSenderConfig _) = True"
| "sender_config_group (EP_DeleteSenderConfig _) = True"
| "sender_config_group _ = False"

definition answers :: "(world, response) state \<Rightarrow> (world, response outcome) state" where
  "answers m = do { r \<leftarrow> m; ret (Returns r) }"

text \<open>The handler of an endpoint; without the service the settings have none.\<close>

definition page_not_found :: response where
  "page_not_found = (404, JNull)"

fun handler ::
  "ext \<Rightarrow> config \<Rightarrow> bytes option \<Rightarrow> endpoint \<Rightarrow> request \<Rightarrow> gin_values \<Rightarrow> (world, response outcome) state" where
  "handler E cfg svc EP_Health rq ctx = answers (Health E)"
| "handler E cfg svc EP_Send rq ctx = Send E cfg svc ctx (rq_body rq)"
| "handler E cfg svc EP_SendBatch rq ctx = SendBatch E cfg ctx (rq_body rq)"
| "handler E cfg svc (EP_GetStatus i) rq ctx = answers (GetStatus E i)"
| "handler E cfg svc EP_GetHistory rq ctx = answers (GetHistory E ctx (rq_query rq))"
| "handler E cfg svc (EP_Cancel i) rq ctx = answers (Cancel E cfg ctx i)"
| "handler E cfg svc EP_CreateToken rq ctx = answers (CreateToken E cfg (rq_body rq))"
| "handler E cfg svc (EP_GetToken i) rq ctx = answers (GetToken E i)"
| "handler E cfg svc (EP_RevokeToken i) rq ctx = answers (RevokeToken E i)"
| "handler E cfg svc EP_ListTokens rq ctx = answers (ListTokens E)"
| "handler E cfg (Some key) EP_CreateSenderConfig rq ctx = CreateSenderConfig E cfg key ctx (rq_body rq)"
| "handler E cfg (Some key) EP_ListSenderConfigs rq ctx = ListSenderConfigs E ctx"
| "handler E cfg (Some key) (EP_GetSenderConfig i) rq ctx = answers (GetSenderConfig E i)"
| "handler E cfg (Some key) (EP_UpdateSenderConfig i) rq ctx = answers (UpdateSenderConfig E key i (rq_body rq))"
| "handler E cfg (Some key) (EP_DeleteSenderConfig i) rq ctx = answers (DeleteSenderConfig E i)"
| "handler E cfg None _ rq ctx = ret (Returns page_not_found)"

text \<open>
  A request: public for \<open>/health\<close>, behind \<open>JWTAuth\<close> for mail, behind \<open>JWTAuth\<close> and the
  permission \<open>admin\<close> for the rest. A panic of the handler is answered by the recovery.
\<close>

definition serve ::
  "ext \<Rightarrow> config \<Rightarrow> bytes option \<Rightarrow> endpoint \<Rightarrow> request \<Rightarrow> (world, response) state" where
  "serve E cfg svc ep rq =
     (if svc = None \<and> sender_config_group ep then ret page_not_found
      else if ep = EP_Health then do { r \<leftarrow> handler E cfg svc ep rq Map.empty; ret (recovered r) }
      else do {
        a \<leftarrow> JWTAuth E cfg (rq_Authorization rq);
        case a of
          Inl answer \<Rightarrow> ret answer
        | Inr ctx \<Rightarrow>
            (case (if mail_group ep then None else RequirePermission ''admin'' ctx) of
               Some answer \<Rightarrow> ret answer
             | None \<Rightarrow> do { r \<leftarrow> handler E cfg svc ep rq ctx; ret (recovered r) }) })"

section \<open>Who gets through\<close>

lemma JWTAuth_frame: "within (same but_ticks) (JWTAuth E cfg header)"
  by (intro frames same.frame_rel_axioms) (simp_all add: same_def but_ticks_def)

lemma JWTAuth_code: "run_state (JWTAuth E cfg header) w = (Inl e, w') \<Longrightarrow> fst e = 401"
  by (auto simp: JWTAuth_def invalid_token_def gin_error_def tokens_First_run Let_def
      split: if_splits option.splits jv.splits)

lemma serve_cases:
  assumes "run_state (serve E cfg svc ep rq) w = (answer, w')"
  obtains
    (refused) "but_ticks w' = but_ticks w" "fst answer \<in> {401, 403, 404}"
      "svc = None \<and> sender_config_group ep
       \<or> (ep \<noteq> EP_Health \<and> (\<forall>ctx. fst (run_state (JWTAuth E cfg (rq_Authorization rq)) w) = Inr ctx \<longrightarrow>
            \<not> mail_group ep \<and> RequirePermission ''admin'' ctx \<noteq> None))"
  | (health) "ep = EP_Health" "run_state (Health E) w = (answer, w')"
  | (handled) ctx w1 r where "ep \<noteq> EP_Health" "svc = None \<longrightarrow> \<not> sender_config_group ep"
      "run_state (JWTAuth E cfg (rq_Authorization rq)) w = (Inr ctx, w1)" "but_ticks w1 = but_ticks w"
      "mail_group ep \<or> RequirePermission ''admin'' ctx = None"
      "run_state (handler E cfg svc ep rq ctx) w1 = (r, w')" "answer = recovered r"
proof -
  consider (none) "svc = None \<and> sender_config_group ep"
    | (health) "\<not> (svc = None \<and> sender_config_group ep)" "ep = EP_Health"
    | (rest) "\<not> (svc = None \<and> sender_config_group ep)" "ep \<noteq> EP_Health" by blast
  then show thesis
  proof cases
    case none
    with assms show thesis by (intro refused) (auto simp: serve_def page_not_found_def)
  next
    case health
    with assms show thesis
      by (intro that(2)) (auto simp: serve_def answers_def recovered_def split: prod.splits)
  next
    case rest
    obtain a w1 where a: "run_state (JWTAuth E cfg (rq_Authorization rq)) w = (a, w1)" by fastforce
    note w1 = within_same [OF JWTAuth_frame a]
    show thesis
    proof (cases a)
      case (Inl e)
      with assms rest a have "answer = e" "w' = w1" by (auto simp: serve_def)
      moreover have "fst e = 401" using a unfolding Inl by (rule JWTAuth_code)
      ultimately show thesis using a Inl rest w1 by (intro refused) auto
    next
      case (Inr ctx)
      show thesis
      proof (cases "if mail_group ep then None else RequirePermission ''admin'' ctx")
        case None
        obtain r w2 where "run_state (handler E cfg svc ep rq ctx) w1 = (r, w2)" by fastforce
        with assms rest a Inr None w1 show thesis
          by (intro handled [of ctx w1 r]) (auto simp: serve_def split: if_splits)
      next
        case (Some e)
        with assms rest a Inr have "answer = e" "w' = w1" by (auto simp: serve_def)
        moreover have "fst e = 403" using Some
          by (auto simp: RequirePermission_def gin_error_def split: if_splits option.splits)
        ultimately show thesis using Some a Inr rest w1 by (intro refused) (auto split: if_splits)
      qed
    qed
  qed
qed

text \<open>
  C23: a request to any endpoint but \<open>/health\<close> whose token \<open>JWTAuth\<close> does not accept, or
  whose token lacks the permission \<open>admin\<close> for an endpoint outside the mail group, is
  answered 401, 403 or 404 and changes nothing.
\<close>

theorem serve_guarded:
  assumes "run_state (serve E cfg svc ep rq) w = (answer, w')" and "ep \<noteq> EP_Health"
    and "\<forall>ctx. fst (run_state (JWTAuth E cfg (rq_Authorization rq)) w) = Inr ctx \<longrightarrow>
       \<not> mail_group ep \<and> RequirePermission ''admin'' ctx \<noteq> None"
  shows "but_ticks w' = but_ticks w \<and> fst answer \<in> {401, 403, 404}"
  using assms(1)
proof (cases rule: serve_cases)
  case (handled ctx w1 r)
  with assms(3) show ?thesis by (metis fst_conv)
qed (use assms(2) in simp_all)

theorem serve_guarded_witness:
  "fst (fst (run_state (serve sample_ext default_config None EP_Send
     \<lparr>rq_Authorization = [], rq_body = sample_body, rq_id = [], rq_query = Map.empty\<rparr>) sample_world)) \<noteq> 200"
proof -
  let ?rq = "\<lparr>rq_Authorization = [], rq_body = sample_body, rq_id = [], rq_query = Map.empty\<rparr>"
  let ?r = "run_state (serve sample_ext default_config None EP_Send ?rq) sample_world"
  have "?r = (fst ?r, snd ?r)" by simp
  from serve_guarded [OF this] show ?thesis by (auto simp: JWTAuth_def)
qed

text \<open>
  The permissions of a token play no part for the mail endpoints: whatever the claim
  \<open>permissions\<close> holds, also nothing at all, each of them does the same.
\<close>

lemma mail_permissions_unused:
  "run_state (Send E cfg svc (ctx(''permissions'' := p)) body) w = run_state (Send E cfg svc ctx body) w
   \<and> run_state (SendBatch E cfg (ctx(''permissions'' := p)) body) w = run_state (SendBatch E cfg ctx body) w
   \<and> run_state (GetHistory E (ctx(''permissions'' := p)) q) w = run_state (GetHistory E ctx q) w
   \<and> run_state (Cancel E cfg (ctx(''permissions'' := p)) i) w = run_state (Cancel E cfg ctx i) w"
proof -
  define ctx' where "ctx' = ctx(''permissions'' := p)"
  have k: "ctx' ''client_id'' = ctx ''client_id''" "ctx' ''client_name'' = ctx ''client_name''"
    "ctx' ''client_token_id'' = ctx ''client_token_id''" by (simp_all add: ctx'_def)
  have f: "find_sender E cfg svc ctx' = find_sender E cfg svc ctx"
    by (rule ext) (simp only: find_sender_def k)
  have h: "history_filter ctx' q = history_filter ctx q"
    by (rule ext) (simp only: history_filter_def k)
  show ?thesis
    unfolding ctx'_def [symmetric] Send_def SendBatch_def GetHistory_def Cancel_def k f h by simp
qed

section \<open>What each endpoint may change\<close>

text \<open>The state without what the endpoint is there to change.\<close>

fun untouched :: "endpoint \<Rightarrow> world \<Rightarrow> world" where
  "untouched EP_CreateToken w = w\<lparr>ticks := 0, tokens := []\<rparr>"
| "untouched (EP_RevokeToken _) w = w\<lparr>ticks := 0, tokens := []\<rparr>"
| "untouched EP_CreateSenderConfig w = w\<lparr>ticks := 0, configs := []\<rparr>"
| "untouched (EP_UpdateSenderConfig _) w = w\<lparr>ticks := 0, configs := []\<rparr>"
| "untouched (EP_DeleteSenderConfig _) w = w\<lparr>ticks := 0, configs := []\<rparr>"
| "untouched EP_Send w = w\<lparr>ticks := 0, mails := [], broker := empty_broker, cache := Map.empty, files := Map.empty\<rparr>"
| "untouched EP_SendBatch w = w\<lparr>ticks := 0, mails := [], broker := empty_broker, cache := Map.empty, files := Map.empty\<rparr>"
| "untouched (EP_Cancel _) w = w\<lparr>ticks := 0, mails := [], cache := Map.empty\<rparr>"
| "untouched _ w = w\<lparr>ticks := 0\<rparr>"

lemma untouched_ticks [simp]: "untouched ep (w\<lparr>ticks := n\<rparr>) = untouched ep w"
  by (cases ep) simp_all

lemma untouched_but_ticks: "but_ticks w' = but_ticks w \<Longrightarrow> untouched ep w' = untouched ep w"
proof -
  assume "but_ticks w' = but_ticks w"
  moreover have "untouched ep (but_ticks w) = untouched ep w" for w by (simp add: but_ticks_def)
  ultimately show ?thesis by metis
qed

lemma answers_within: "frame_rel R \<Longrightarrow> within R m \<Longrightarrow> within R (answers m)"
  unfolding answers_def by (intro frame_rel.rules [of R])

lemma outcome_within:
  "within R m \<Longrightarrow> (\<And>x. within R (f x)) \<Longrightarrow> within R (case r of Returns x \<Rightarrow> f x | Panics \<Rightarrow> m)"
  by (cases r) auto

lemma read_within:
  "ticked R \<Longrightarrow> frame_rel R \<Longrightarrow> within R (Health E)"
  "ticked R \<Longrightarrow> frame_rel R \<Longrightarrow> within R (GetStatus E i)"
  "ticked R \<Longrightarrow> frame_rel R \<Longrightarrow> within R (GetHistory E ctx q)"
  "ticked R \<Longrightarrow> frame_rel R \<Longrightarrow> within R (GetToken E i)"
  "ticked R \<Longrightarrow> frame_rel R \<Longrightarrow> within R (ListTokens E)"
  "ticked R \<Longrightarrow> frame_rel R \<Longrightarrow> within R (GetSenderConfig E i)"
  "ticked R \<Longrightarrow> frame_rel R \<Longrightarrow> within R (ListSenderConfigs E ctx)"
  "ticked R \<Longrightarrow> frame_rel R \<Longrightarrow> within R (find_sender E cfg svc ctx from)"
  unfolding Health_def Ping_def GetStatus_def GetHistory_def GetToken_def ListTokens_def
    GetSenderConfig_def with_config_id_def ListSenderConfigs_def find_sender_def Let_def
  by (intro frames frame_rel.rules [of R] outcome_within; assumption)+

lemma token_within:
  "within (same (untouched EP_CreateToken)) (CreateToken E cfg body)"
  "within (same (untouched (EP_RevokeToken i))) (RevokeToken E i)"
  unfolding CreateToken_def RevokeToken_def Let_def
  by (intro frames same.rules; simp add: same_def)+

lemma Encrypt_untouched: "within (same (untouched ep)) (Encrypt E key s)"
  by (rule Encrypt_within) (simp add: same_def)

lemma config_within:
  "within (same (untouched EP_CreateSenderConfig)) (CreateSenderConfig E cfg key ctx body)"
  "within (same (untouched (EP_UpdateSenderConfig i))) (UpdateSenderConfig E key i body)"
  "within (same (untouched (EP_DeleteSenderConfig i))) (DeleteSenderConfig E i)"
  unfolding CreateSenderConfig_def UpdateSenderConfig_def DeleteSenderConfig_def with_config_id_def
    Create_def Update_def Delete_def Let_def
  by (intro frames same.rules outcome_within Encrypt_untouched; simp add: same_def)+

lemma accept_within:
  assumes "ep = EP_Send \<or> ep = EP_SendBatch"
  shows "within (same (untouched ep)) (accept_mail E cfg m atts)"
  unfolding accept_mail_def save_attachment_def
  by (intro frames same.rules) (use assms in \<open>auto simp: same_def\<close>)

lemma mail_within:
  "within (same (untouched EP_Send)) (Send E cfg svc ctx body)"
  "within (same (untouched EP_SendBatch)) (SendBatch E cfg ctx body)"
  "within (same (untouched (EP_Cancel i))) (Cancel E cfg ctx i)"
  unfolding Send_def SendBatch_def processSingleMail_def Cancel_def prod.case
  by (intro frames same.rules outcome_within accept_within read_within same.frame_rel_axioms; simp add: same_def)+

lemma read_untouched:
  "within (same (untouched ep)) (Health E)"
  "within (same (untouched ep)) (GetStatus E i)"
  "within (same (untouched ep)) (GetHistory E ctx q)"
  "within (same (untouched ep)) (GetToken E i)"
  "within (same (untouched ep)) (ListTokens E)"
  "within (same (untouched ep)) (GetSenderConfig E i)"
  "within (same (untouched ep)) (ListSenderConfigs E ctx)"
  by (rule read_within; (rule same.frame_rel_axioms | simp add: same_def))+

lemma handler_within:
  assumes "svc = None \<longrightarrow> \<not> sender_config_group ep"
  shows "within (same (untouched ep)) (handler E cfg svc ep rq ctx)"
  using assms
  by (cases ep; cases svc)
    (simp_all add: answers_within same.frame_rel_axioms read_untouched token_within config_within mail_within)

text \<open>
  C27: an endpoint changes at most what it is there for: tokens only through the endpoints of
  tokens, settings only through those of the settings, mails, queues, cache and files only
  through sending, rows and cache through cancelling, and every other endpoint changes
  nothing. No request sends a mail itself, touches the timers, the OAuth token or the worker.
\<close>

theorem serve_footprint:
  "untouched ep (snd (run_state (serve E cfg svc ep rq) w)) = untouched ep w"
proof -
  obtain answer w' where s: "run_state (serve E cfg svc ep rq) w = (answer, w')" by fastforce
  then have "untouched ep w' = untouched ep w"
  proof (cases rule: serve_cases)
    case refused
    show ?thesis using refused(1) by (rule untouched_but_ticks)
  next
    case health
    show ?thesis using within_same [OF read_untouched(1) health(2)] .
  next
    case (handled ctx w1 r)
    have "untouched ep w' = untouched ep w1"
      using handler_within [OF handled(2)] handled(6) by (rule within_same)
    also have "\<dots> = untouched ep w" using handled(4) by (rule untouched_but_ticks)
    finally show ?thesis .
  qed
  then show ?thesis by (simp add: s)
qed

end
