(* ===== verification/OAuth.thy ===== *)
theory OAuth
  imports Sample Config
begin

text \<open>
  \<open>pkg/microsoft/oauth.go\<close>: the client-credentials token of Microsoft, cached in the
  service value until sixty seconds before it expires, and the manager that caches nothing.
  The methods have a pointer receiver, so each yields the service afterwards. The read lock
  of \<open>GetAccessToken\<close> is released before \<open>refreshToken\<close> takes the write lock, which is
  why \<open>refreshToken\<close> checks again; both are operations of their own here, so that another
  caller's refresh can come between them.
\<close>

definition NewOAuthService :: "string \<Rightarrow> string \<Rightarrow> string \<Rightarrow> oauth_service" where
  "NewOAuthService tenantID clientID clientSecret =
     \<lparr>os_tenantID = tenantID, os_clientID = clientID, os_clientSecret = clientSecret,
      os_accessToken = [], os_expiresAt = 0\<rparr>"

record token_response =
  tr_AccessToken :: string
  tr_TokenType :: string
  tr_ExpiresIn :: go_int

definition put_token :: "string \<Rightarrow> jv \<Rightarrow> token_response \<Rightarrow> token_response option" where
  "put_token k j r =
     (if k = ''access_token'' then
        map_option (\<lambda>v. r\<lparr>tr_AccessToken := v\<rparr>) (dec_string j (tr_AccessToken r))
      else if k = ''token_type'' then
        map_option (\<lambda>v. r\<lparr>tr_TokenType := v\<rparr>) (dec_string j (tr_TokenType r))
      else if k = ''expires_in'' then
        map_option (\<lambda>v. r\<lparr>tr_ExpiresIn := v\<rparr>) (dec_int64 j (tr_ExpiresIn r))
      else Some r)"

definition decode_token :: "payload \<Rightarrow> token_response option" where
  "decode_token p =
     (case p of
        Raw _ \<Rightarrow> None
      | Json j \<Rightarrow> dec_struct put_token j \<lparr>tr_AccessToken = [], tr_TokenType = [], tr_ExpiresIn = 0\<rparr>)"

text \<open>
  The test of the cache: the clock is read only when there is a token (\<open>&&\<close> is lazy).
\<close>

definition token_fresh :: "ext \<Rightarrow> oauth_service \<Rightarrow> (world, bool) state" where
  "token_fresh E s =
     (if os_accessToken s \<noteq> [] then do {
        now \<leftarrow> time_Now E;
        ret (now + 60 * sint time_Second < os_expiresAt s) }
      else ret False)"

definition token_url :: "oauth_service \<Rightarrow> string" where
  "token_url s =
     ''https://login.microsoftonline.com/'' @ os_tenantID s @ ''/oauth2/v2.0/token''"

definition token_request :: "oauth_service \<Rightarrow> outbound" where
  "token_request s = TokenPost (token_url s)
     [(''client_id'', os_clientID s),
      (''client_secret'', os_clientSecret s),
      (''scope'', ''https://graph.microsoft.com/.default''),
      (''grant_type'', ''client_credentials'')]"

text \<open>
  The body of \<open>refreshToken\<close> after its check. \<open>http.Post\<close> fails without sending anything
  when the address does not parse (the tenant is part of it).
  \<open>time.Duration(ExpiresIn) * time.Second\<close> is a 64-bit product.
\<close>

definition request_token :: "ext \<Rightarrow> oauth_service \<Rightarrow> (world, (go_error + string) \<times> oauth_service) state" where
  "request_token E s =
     (case x_bad_url E (token_url s) of
       Some e \<Rightarrow> ret (Inl (''failed to request token: '' @ e), s)
     | None \<Rightarrow> do {
       resp \<leftarrow> http_Do E (token_request s);
       case resp of
         Inl e \<Rightarrow> ret (Inl (''failed to request token: '' @ e), s)
       | Inr (statusCode, body) \<Rightarrow>
           if statusCode \<noteq> 200
           then ret (Inl (''token request failed with status: '' @ dec_nat statusCode), s)
           else (case decode_token body of
             None \<Rightarrow> ret (Inl (''failed to decode token response: '' @ x_json_error E body), s)
           | Some tokenResp \<Rightarrow> do {
               now \<leftarrow> time_Now E;
               let s' = s\<lparr>os_accessToken := tr_AccessToken tokenResp,
                          os_expiresAt := now + sint (tr_ExpiresIn tokenResp * time_Second)\<rparr>;
               ret (Inr (os_accessToken s'), s') }) })"

definition refreshToken :: "ext \<Rightarrow> oauth_service \<Rightarrow> (world, (go_error + string) \<times> oauth_service) state" where
  "refreshToken E s = do {
     fresh \<leftarrow> token_fresh E s;
     if fresh then ret (Inr (os_accessToken s), s)
     else request_token E s }"

definition GetAccessToken :: "ext \<Rightarrow> oauth_service \<Rightarrow> (world, (go_error + string) \<times> oauth_service) state" where
  "GetAccessToken E s = do {
     fresh \<leftarrow> token_fresh E s;
     if fresh then ret (Inr (os_accessToken s), s)
     else refreshToken E s }"

definition OAuthService_IsConfigured :: "oauth_service \<Rightarrow> bool" where
  "OAuthService_IsConfigured s \<longleftrightarrow>
     os_tenantID s \<noteq> [] \<and> os_clientID s \<noteq> [] \<and> os_clientSecret s \<noteq> []"

definition Manager_GetAccessToken ::
  "ext \<Rightarrow> string \<Rightarrow> string \<Rightarrow> string \<Rightarrow> (world, go_error + string) state" where
  "Manager_GetAccessToken E tenantID clientID clientSecret = do {
     (r, _) \<leftarrow> GetAccessToken E (NewOAuthService tenantID clientID clientSecret);
     ret r }"

section \<open>Running\<close>

lemma run_http_Do:
  "run_state (http_Do E req) w
     = (x_http E (ticks w), w\<lparr>ticks := Suc (ticks w), outbox := outbox w @ [req]\<rparr>)"
  by (simp add: http_Do_def)

lemma token_fresh_within [frames]: "ticked R \<Longrightarrow> within R (token_fresh E s)"
  by (simp add: within_def token_fresh_def ticked_refl)

text \<open>The frame of the requests: the counter and one token request.\<close>

definition asks_token :: "(world \<Rightarrow> world \<Rightarrow> bool) \<Rightarrow> oauth_service \<Rightarrow> bool" where
  "asks_token R s \<longleftrightarrow> frame_rel R \<and> ticked R
     \<and> (\<forall>w n. R w (w\<lparr>ticks := n, outbox := outbox w @ [token_request s]\<rparr>))"

lemma request_token_within [frames]: "asks_token R s \<Longrightarrow> within R (request_token E s)"
  unfolding request_token_def Let_def asks_token_def
  by (intro frames frame_rel.rules [of R]) auto

lemma refreshToken_within [frames]: "asks_token R s \<Longrightarrow> within R (refreshToken E s)"
  unfolding refreshToken_def
  by (intro frames frame_rel.rules [of R]) (auto simp: asks_token_def)

lemma GetAccessToken_within [frames]: "asks_token R s \<Longrightarrow> within R (GetAccessToken E s)"
  unfolding GetAccessToken_def
  by (intro frames frame_rel.rules [of R]) (auto simp: asks_token_def)

lemma token_fresh_run:
  "run_state (token_fresh E s) w =
     (if os_accessToken s = [] then (False, w)
      else (x_clock E (ticks w) + 60000000000 < os_expiresAt s, w\<lparr>ticks := Suc (ticks w)\<rparr>))"
  by (simp add: token_fresh_def time_Second_def)

text \<open>What a request that was answered yields, and what it leaves in the cache.\<close>

definition renewed :: "ext \<Rightarrow> oauth_service \<Rightarrow> world \<Rightarrow> (go_error + string) \<times> oauth_service \<Rightarrow> world \<Rightarrow> bool" where
  "renewed E s w rs w' \<longleftrightarrow>
     outbox w' = outbox w @ [token_request s] \<and>
     (case rs of
        (Inl e, s') \<Rightarrow> s' = s
      | (Inr tok, s') \<Rightarrow>
          (\<exists>n r body. x_http E n = Inr (200, body) \<and> decode_token body = Some r \<and> tok = tr_AccessToken r
             \<and> s' = s\<lparr>os_accessToken := tok,
                     os_expiresAt := x_clock E (Suc n) + sint (tr_ExpiresIn r * time_Second)\<rparr>
             \<and> ticks w \<le> n \<and> Suc n < ticks w'))"

definition from_cache :: "ext \<Rightarrow> oauth_service \<Rightarrow> world \<Rightarrow> (go_error + string) \<times> oauth_service \<Rightarrow> world \<Rightarrow> bool" where
  "from_cache E s w rs w' \<longleftrightarrow>
     rs = (Inr (os_accessToken s), s) \<and> outbox w' = outbox w \<and> os_accessToken s \<noteq> [] \<and>
     (\<exists>n. ticks w \<le> n \<and> n < ticks w' \<and> x_clock E n + 60000000000 < os_expiresAt s)"

definition not_sent :: "oauth_service \<Rightarrow> world \<Rightarrow> (go_error + string) \<times> oauth_service \<Rightarrow> world \<Rightarrow> bool" where
  "not_sent s w rs w' \<longleftrightarrow> isl (fst rs) \<and> snd rs = s \<and> outbox w' = outbox w"

lemma request_token_cases:
  assumes "run_state (request_token E s) w = (rs, w')"
  shows "ticks w \<le> ticks w' \<and> (renewed E s w rs w' \<or> not_sent s w rs w')"
proof (cases "x_bad_url E (token_url s)")
  case (Some e)
  then show ?thesis using assms by (auto simp: request_token_def not_sent_def)
next
  case None
  show ?thesis
  proof (cases "\<exists>body r. x_http E (ticks w) = Inr (200, body) \<and> decode_token body = Some r")
    case True
    then obtain body r where r: "x_http E (ticks w) = Inr (200, body)" "decode_token body = Some r"
      by blast
    with assms None have "rs = (Inr (tr_AccessToken r), s\<lparr>os_accessToken := tr_AccessToken r,
          os_expiresAt := x_clock E (Suc (ticks w)) + sint (tr_ExpiresIn r * time_Second)\<rparr>)"
      and "w' = w\<lparr>ticks := Suc (Suc (ticks w)), outbox := outbox w @ [token_request s]\<rparr>"
      by (auto simp: request_token_def run_http_Do Let_def)
    then show ?thesis using r by (auto simp: renewed_def intro!: exI [of _ "ticks w"])
  next
    case False
    then show ?thesis using assms None
      by (auto simp: request_token_def run_http_Do renewed_def split: sum.splits if_splits option.splits)
  qed
qed

lemma refreshToken_cases:
  assumes "run_state (refreshToken E s) w = (rs, w')"
  shows "from_cache E s w rs w' \<or> renewed E s w rs w' \<or> not_sent s w rs w'"
proof -
  obtain fresh w1 where f: "run_state (token_fresh E s) w = (fresh, w1)" by fastforce
  then have w1: "outbox w1 = outbox w" "ticks w \<le> ticks w1" "fresh \<longrightarrow> from_cache E s w (Inr (os_accessToken s), s) w1"
    by (auto simp: token_fresh_run from_cache_def split: if_splits)
  show ?thesis
  proof (cases fresh)
    case True
    then show ?thesis using assms f w1 by (simp add: refreshToken_def)
  next
    case False
    with assms f have "run_state (request_token E s) w1 = (rs, w')" by (simp add: refreshToken_def)
    from request_token_cases [OF this] show ?thesis
      using w1(1,2) by (fastforce simp: renewed_def not_sent_def split: sum.splits prod.splits)
  qed
qed

text \<open>
  A call of \<open>GetAccessToken\<close> ends in one of three ways: the cached token, with more than
  sixty seconds of its life left when it was checked, and no request; one token request,
  which either yields the new token with its expiry counted from the answer or leaves the
  cache as it was; or an address that does not parse, an error and no request.
\<close>

lemma GetAccessToken_outcome:
  assumes "run_state (GetAccessToken E s) w = (rs, w')"
  shows "from_cache E s w rs w' \<or> renewed E s w rs w' \<or> not_sent s w rs w'"
proof -
  obtain fresh w1 where f: "run_state (token_fresh E s) w = (fresh, w1)" by fastforce
  then have w1: "outbox w1 = outbox w" "ticks w \<le> ticks w1" "fresh \<longrightarrow> from_cache E s w (Inr (os_accessToken s), s) w1"
    by (auto simp: token_fresh_run from_cache_def split: if_splits)
  show ?thesis
  proof (cases fresh)
    case True
    then show ?thesis using assms f w1 by (simp add: GetAccessToken_def)
  next
    case False
    with assms f have "run_state (refreshToken E s) w1 = (rs, w')" by (simp add: GetAccessToken_def)
    from refreshToken_cases [OF this] show ?thesis
      using w1(1,2) le_trans [OF w1(2)]
      by (fastforce simp: renewed_def not_sent_def from_cache_def split: sum.splits prod.splits)
  qed
qed

lemma GetAccessToken_outcome_witness:
  "fst (fst (run_state (GetAccessToken sample_ext sample_oauth) sample_world)) = Inr ''bearer''
   \<and> outbox (snd (run_state (GetAccessToken sample_ext sample_oauth) sample_world))
     = [token_request sample_oauth]"
proof -
  let ?r = "run_state (GetAccessToken sample_ext sample_oauth) sample_world"
  have tok: "fst (fst ?r) = Inr ''bearer''"
    by (simp add: GetAccessToken_def refreshToken_def request_token_def token_fresh_def run_http_Do
        sample_defs decode_token_def put_token_def ascii_lower_def fits_int64_def)
  then show ?thesis
    using GetAccessToken_outcome [of sample_ext sample_oauth sample_world "fst ?r" "snd ?r"]
    by (auto simp: from_cache_def renewed_def not_sent_def sample_oauth_def sample_world_def
        split: prod.splits)
qed

text \<open>
  The second check under the write lock saves the second request: a caller that enters
  \<open>refreshToken\<close> after another one has renewed the token gets that token, sends nothing and
  changes nothing, as long as more than sixty seconds of the token are left.
\<close>

lemma refresh_not_repeated:
  assumes "run_state (refreshToken E s) w = ((Inr tok, s1), w1)" and "tok \<noteq> []"
    and "x_clock E (ticks w2) + 60000000000 < os_expiresAt s1"
  shows "run_state (refreshToken E s1) w2 = ((Inr tok, s1), w2\<lparr>ticks := Suc (ticks w2)\<rparr>)"
proof -
  have "os_accessToken s1 = tok"
    using refreshToken_cases [OF assms(1)] by (auto simp: from_cache_def renewed_def not_sent_def)
  then show ?thesis using assms(2,3) by (simp add: refreshToken_def token_fresh_run)
qed

lemma refresh_not_repeated_witness:
  "let r = run_state (refreshToken sample_ext sample_oauth) sample_world in
   outbox (snd (run_state (refreshToken sample_ext (snd (fst r))) (snd r))) = outbox (snd r)"
proof -
  let ?r = "run_state (refreshToken sample_ext sample_oauth) sample_world"
  have "?r = ((Inr ''bearer'', snd (fst ?r)), snd ?r)"
    and "x_clock sample_ext (ticks (snd ?r)) + 60000000000 < os_expiresAt (snd (fst ?r))"
    by (simp_all add: refreshToken_def request_token_def token_fresh_def run_http_Do time_Second_def
        sample_defs decode_token_def put_token_def ascii_lower_def fits_int64_def)
  from refresh_not_repeated [OF this(1) _ this(2)] show ?thesis by (simp add: Let_def)
qed

text \<open>
  The manager caches nothing: every call with an address that parses posts a token
  request with exactly the credentials it was given, whatever was requested before.
\<close>

lemma Manager_always_requests:
  assumes "x_bad_url E (token_url (NewOAuthService t c k)) = None"
  shows "outbox (snd (run_state (Manager_GetAccessToken E t c k) w))
    = outbox w @ [token_request (NewOAuthService t c k)]"
  using assms
  by (simp add: Manager_GetAccessToken_def GetAccessToken_def refreshToken_def token_fresh_def
      NewOAuthService_def request_token_def run_http_Do Let_def split: prod.splits sum.splits option.splits)

lemma Manager_always_requests_witness:
  "outbox (snd (run_state (Manager_GetAccessToken sample_ext ''t'' ''c'' ''k'') sample_world))
    = [token_request (NewOAuthService ''t'' ''c'' ''k'')]"
  using Manager_always_requests [of sample_ext "''t''" "''c''" "''k''" sample_world]
  by (simp add: sample_ext_def sample_world_def)

lemma Manager_GetAccessToken_within [frames]:
  "asks_token R (NewOAuthService t c k) \<Longrightarrow> within R (Manager_GetAccessToken E t c k)"
  unfolding Manager_GetAccessToken_def
  by (intro frames frame_rel.rules [of R]) (auto simp: asks_token_def)

end
