(* ===== verification/MailSender.thy ===== *)
theory MailSender
  imports OAuth
begin

text \<open>
  The two mail services and the router between them:
  \<open>internal/services/smtp_service.go\<close> (Microsoft Graph), \<open>sendgrid_service.go\<close> and
  \<open>mail_router.go\<close>, with the interface of \<open>mail_sender.go\<close> as a record of functions and
  its contract as the locale \<open>mail_sender\<close>.
\<close>

section \<open>The Graph request\<close>

record graph_body =
  gb_ContentType :: string
  gb_Content :: string

record graph_attachment =
  ga_ODataType :: string
  ga_Name :: string
  ga_ContentType :: string
  ga_ContentBytes :: string

text \<open>A recipient is a struct around one address and is kept as that address.\<close>

record graph_message =
  gm_Subject :: string
  gm_Body :: graph_body
  gm_ToRecipients :: "string list"
  gm_CcRecipients :: "string list"
  gm_BccRecipients :: "string list"
  gm_Attachments :: "graph_attachment list"

record graph_mail_request =
  gr_Message :: graph_message
  gr_SaveToSentItems :: bool

definition marshal_recipients :: "string list \<Rightarrow> jv" where
  "marshal_recipients addrs =
     JA (map (\<lambda>a. JO [(''emailAddress'', JO [(''address'', json_string a)])]) addrs)"

definition marshal_graph_attachment :: "graph_attachment \<Rightarrow> jv" where
  "marshal_graph_attachment a = JO
     [(''@odata.type'', json_string (ga_ODataType a)),
      (''name'', json_string (ga_Name a)),
      (''contentType'', json_string (ga_ContentType a)),
      (''contentBytes'', json_string (ga_ContentBytes a))]"

definition marshal_graph :: "graph_mail_request \<Rightarrow> jv" where
  "marshal_graph r = (let m = gr_Message r in JO
     [(''message'', JO (
        [(''subject'', json_string (gm_Subject m)),
         (''body'', JO [(''contentType'', json_string (gb_ContentType (gm_Body m))),
                        (''content'', json_string (gb_Content (gm_Body m)))]),
         (''toRecipients'', marshal_recipients (gm_ToRecipients m))]
        @ omit_if (gm_CcRecipients m = []) ''ccRecipients'' (marshal_recipients (gm_CcRecipients m))
        @ omit_if (gm_BccRecipients m = []) ''bccRecipients'' (marshal_recipients (gm_BccRecipients m))
        @ omit_if (gm_Attachments m = []) ''attachments''
            (JA (map marshal_graph_attachment (gm_Attachments m))))),
      (''saveToSentItems'', JB (gr_SaveToSentItems r))])"

definition buildGraphRequest :: "mail_job \<Rightarrow> graph_mail_request" where
  "buildGraphRequest job =
     \<lparr>gr_Message =
        \<lparr>gm_Subject = job_Subject job,
         gm_Body = (if job_HTML job \<noteq> []
                    then \<lparr>gb_ContentType = ''html'', gb_Content = job_HTML job\<rparr>
                    else \<lparr>gb_ContentType = ''text'', gb_Content = job_Body job\<rparr>),
         gm_ToRecipients = job_ToAddresses job,
         gm_CcRecipients = job_CCAddresses job,
         gm_BccRecipients = job_BCCAddresses job,
         gm_Attachments = []\<rparr>,
      gr_SaveToSentItems = True\<rparr>"

section \<open>Attachments\<close>

definition default_type :: "string \<Rightarrow> string" where
  "default_type t = (if t = [] then ''application/octet-stream'' else t)"

text \<open>Reading the file of one attachment, as both services do it.\<close>

definition read_attachment ::
  "ext \<Rightarrow> (attachment_info \<Rightarrow> bytes \<Rightarrow> 'a) \<Rightarrow> attachment_info \<Rightarrow> (world, go_error + 'a) state" where
  "read_attachment E build att = do {
     r \<leftarrow> fs_ReadFile E (ai_StoragePath att);
     ret (case r of
            Inl e \<Rightarrow> Inl (''failed to read attachment '' @ ai_Filename att @ '': '' @ e)
          | Inr content \<Rightarrow> Inr (build att content)) }"

definition graph_attachment_of :: "attachment_info \<Rightarrow> bytes \<Rightarrow> graph_attachment" where
  "graph_attachment_of att content =
     \<lparr>ga_ODataType = ''#microsoft.graph.fileAttachment'',
      ga_Name = Base (ai_Filename att),
      ga_ContentType = default_type (ai_ContentType att),
      ga_ContentBytes = b64_encode content\<rparr>"

definition Graph_loadAttachments ::
  "ext \<Rightarrow> mail_job \<Rightarrow> graph_message \<Rightarrow> (world, go_error + graph_message) state" where
  "Graph_loadAttachments E job message =
     (if job_Attachments job = [] then ret (Inr message)
      else do {
        r \<leftarrow> for_err (read_attachment E graph_attachment_of) (job_Attachments job);
        ret (case r of Inl e \<Rightarrow> Inl e | Inr as \<Rightarrow> Inr (message\<lparr>gm_Attachments := as\<rparr>)) })"

definition sg_attachment_of :: "attachment_info \<Rightarrow> bytes \<Rightarrow> sg_attachment" where
  "sg_attachment_of att content =
     \<lparr>sga_Content = b64_encode content,
      sga_Type = default_type (ai_ContentType att),
      sga_Filename = Base (ai_Filename att),
      sga_Disposition = ''attachment''\<rparr>"

definition SendGrid_loadAttachments ::
  "ext \<Rightarrow> mail_job \<Rightarrow> sg_mail \<Rightarrow> (world, go_error + sg_mail) state" where
  "SendGrid_loadAttachments E job message =
     (if job_Attachments job = [] then ret (Inr message)
      else do {
        r \<leftarrow> for_err (read_attachment E sg_attachment_of) (job_Attachments job);
        ret (case r of Inl e \<Rightarrow> Inl e
             | Inr as \<Rightarrow> Inr (message\<lparr>sg_Attachments := sg_Attachments message @ as\<rparr>)) })"

section \<open>Sending\<close>

record graph_error =
  ge_Code :: string
  ge_Message :: string

definition put_error_fields :: "string \<Rightarrow> jv \<Rightarrow> graph_error \<Rightarrow> graph_error option" where
  "put_error_fields k j r =
     (if k = ''code'' then map_option (\<lambda>v. r\<lparr>ge_Code := v\<rparr>) (dec_string j (ge_Code r))
      else if k = ''message'' then map_option (\<lambda>v. r\<lparr>ge_Message := v\<rparr>) (dec_string j (ge_Message r))
      else Some r)"

definition put_graph_error :: "string \<Rightarrow> jv \<Rightarrow> graph_error \<Rightarrow> graph_error option" where
  "put_graph_error k j r = (if k = ''error'' then dec_struct put_error_fields j r else Some r)"

definition payload_text :: "ext \<Rightarrow> payload \<Rightarrow> string" where
  "payload_text E p = (case p of Raw b \<Rightarrow> b | Json _ \<Rightarrow> x_json_text E p)"

definition graph_error_text :: "ext \<Rightarrow> nat \<Rightarrow> payload \<Rightarrow> go_error" where
  "graph_error_text E statusCode body =
     (let fallback = ''Graph API request failed with status '' @ dec_nat statusCode @ '': ''
            @ payload_text E body in
      case body of
        Raw _ \<Rightarrow> fallback
      | Json j \<Rightarrow>
          (case dec_struct put_graph_error j \<lparr>ge_Code = [], ge_Message = []\<rparr> of
             Some errResp \<Rightarrow>
               if ge_Message errResp \<noteq> []
               then ''Graph API error ('' @ ge_Code errResp @ ''): '' @ ge_Message errResp
               else fallback
           | None \<Rightarrow> fallback))"

definition graph_url :: "mail_job \<Rightarrow> string" where
  "graph_url job = ''https://graph.microsoft.com/v1.0/users/'' @ job_FromAddress job @ ''/sendMail''"

text \<open>
  What \<open>SendMail\<close> and \<open>SendMailWithConfig\<close> do once they have the access token.
  \<open>http.NewRequest\<close> fails when the address does not parse (the sender is part of it).
\<close>

definition graph_deliver :: "ext \<Rightarrow> string \<Rightarrow> mail_job \<Rightarrow> (world, go_error option) state" where
  "graph_deliver E accessToken job = do {
     let mailRequest = buildGraphRequest job;
     r \<leftarrow> Graph_loadAttachments E job (gr_Message mailRequest);
     case r of
       Inl e \<Rightarrow> ret (Some (''failed to load attachments: '' @ e))
     | Inr message \<Rightarrow>
         (case x_bad_url E (graph_url job) of
            Some e \<Rightarrow> ret (Some (''failed to create request: '' @ e))
          | None \<Rightarrow> do {
              resp \<leftarrow> http_Do E (GraphPost (graph_url job) accessToken
                (marshal_graph (mailRequest\<lparr>gr_Message := message\<rparr>)));
              ret (case resp of
                     Inl e \<Rightarrow> Some (''failed to send request: '' @ e)
                   | Inr (statusCode, body) \<Rightarrow>
                       if statusCode \<noteq> 202 \<and> statusCode \<noteq> 200
                       then Some (graph_error_text E statusCode body)
                       else None) }) }"

definition Graph_SendMail :: "ext \<Rightarrow> mail_job \<Rightarrow> (world, go_error option) state" where
  "Graph_SendMail E job = do {
     s \<leftarrow> gets oauth;
     (r, s') \<leftarrow> GetAccessToken E s;
     modify (\<lambda>w. w\<lparr>oauth := s'\<rparr>);
     case r of
       Inl e \<Rightarrow> ret (Some (''failed to get access token: '' @ e))
     | Inr accessToken \<Rightarrow> graph_deliver E accessToken job }"

definition Graph_SendMailWithConfig ::
  "ext \<Rightarrow> string \<Rightarrow> string \<Rightarrow> string \<Rightarrow> mail_job \<Rightarrow> (world, go_error option) state" where
  "Graph_SendMailWithConfig E tenantID clientID clientSecret job = do {
     r \<leftarrow> Manager_GetAccessToken E tenantID clientID clientSecret;
     case r of
       Inl e \<Rightarrow> ret (Some (''failed to get access token: '' @ e))
     | Inr accessToken \<Rightarrow> graph_deliver E accessToken job }"

definition sendgrid_message :: "mail_job \<Rightarrow> sg_mail" where
  "sendgrid_message job =
     \<lparr>sg_From = job_FromAddress job,
      sg_Subject = job_Subject job,
      sg_Tos = job_ToAddresses job,
      sg_CCs = job_CCAddresses job,
      sg_BCCs = job_BCCAddresses job,
      sg_Content =
        (if job_Body job \<noteq> [] then [(''text/plain'', job_Body job)] else [])
        @ (if job_HTML job \<noteq> [] then [(''text/html'', job_HTML job)] else []),
      sg_Attachments = []\<rparr>"

definition SendGrid_SendMail :: "ext \<Rightarrow> mail_job \<Rightarrow> (world, go_error option) state" where
  "SendGrid_SendMail E job = do {
     r \<leftarrow> SendGrid_loadAttachments E job (sendgrid_message job);
     case r of
       Inl e \<Rightarrow> ret (Some (''failed to load attachments: '' @ e))
     | Inr message \<Rightarrow> do {
         response \<leftarrow> sendgrid_Send E message;
         ret (case response of
                Inl e \<Rightarrow> Some (''failed to send email via SendGrid: '' @ e)
              | Inr (statusCode, body) \<Rightarrow>
                  if statusCode < 200 \<or> 300 \<le> statusCode
                  then Some (''SendGrid API error (status '' @ dec_int statusCode @ ''): '' @ body)
                  else None) } }"

definition SendGrid_IsConfigured :: "config \<Rightarrow> bool" where
  "SendGrid_IsConfigured cfg \<longleftrightarrow> co_SendGridAPIKey cfg \<noteq> []"

section \<open>The router\<close>

text \<open>A value of the interface type: its two methods, or \<open>None\<close> for \<open>nil\<close>.\<close>

record mail_sender_value =
  ms_SendMail :: "mail_job \<Rightarrow> (world, go_error option) state"
  ms_Name :: string

record mail_router =
  rt_graphService :: "mail_sender_value option"
  rt_sendgridService :: "mail_sender_value option"
  rt_orgDomain :: string

definition GraphMailService :: "ext \<Rightarrow> mail_sender_value" where
  "GraphMailService E = \<lparr>ms_SendMail = Graph_SendMail E, ms_Name = ''Microsoft Graph API''\<rparr>"

definition SendGridService :: "ext \<Rightarrow> mail_sender_value" where
  "SendGridService E = \<lparr>ms_SendMail = SendGrid_SendMail E, ms_Name = ''SendGrid''\<rparr>"

definition NewMailRouter ::
  "ext \<Rightarrow> config \<Rightarrow> mail_sender_value option \<Rightarrow> mail_sender_value option \<Rightarrow> mail_router" where
  "NewMailRouter E cfg graphService sendgridService =
     \<lparr>rt_graphService = graphService,
      rt_sendgridService = sendgridService,
      rt_orgDomain = ToLower (x_lower E) (co_OrgEmailDomain cfg)\<rparr>"

definition Route :: "ext \<Rightarrow> mail_router \<Rightarrow> mail_job \<Rightarrow> mail_sender_value option" where
  "Route E r job =
     (let fromAddress = ToLower (x_lower E) (job_FromAddress job) in
      if HasSuffix fromAddress (rt_orgDomain r) then rt_graphService r
      else rt_sendgridService r)"

definition Router_SendMail ::
  "ext \<Rightarrow> mail_router \<Rightarrow> mail_job \<Rightarrow> (world, go_error option outcome) state" where
  "Router_SendMail E r job =
     (case Route E r job of
        None \<Rightarrow> ret Panics
      | Some sender \<Rightarrow> do { err \<leftarrow> ms_SendMail sender job; ret (Returns err) })"

definition ValidateConfiguration :: "mail_router \<Rightarrow> go_error option" where
  "ValidateConfiguration r =
     (if rt_graphService r = None then Some ''Graph API service is not configured''
      else if rt_sendgridService r = None then Some ''SendGrid service is not configured''
      else if rt_orgDomain r = [] then Some ''organization email domain is not configured''
      else None)"

text \<open>The router of \<open>cmd/worker/main.go\<close>.\<close>

definition worker_router :: "ext \<Rightarrow> config \<Rightarrow> mail_router" where
  "worker_router E cfg = NewMailRouter E cfg (Some (GraphMailService E)) (Some (SendGridService E))"

section \<open>The contract of a mail service\<close>

fun mail_post :: "outbound \<Rightarrow> bool" where
  "mail_post (TokenPost _ _) = False"
| "mail_post (GraphPost _ _ _) = True"
| "mail_post (SendGridPost _) = True"

definition posts :: "world \<Rightarrow> outbound list" where
  "posts w = filter mail_post (outbox w)"

text \<open>A request that carries a job: its sender, recipients, subject and content.\<close>

fun carries :: "mail_job \<Rightarrow> outbound \<Rightarrow> bool" where
  "carries job (TokenPost _ _) = False"
| "carries job (GraphPost url _ j) =
     (url = graph_url job
      \<and> (\<exists>as. length as = length (job_Attachments job)
           \<and> j = marshal_graph (buildGraphRequest job
                 \<lparr>gr_Message := (gr_Message (buildGraphRequest job))\<lparr>gm_Attachments := as\<rparr>\<rparr>)))"
| "carries job (SendGridPost m) =
     (\<exists>as. length as = length (job_Attachments job)
        \<and> m = (sendgrid_message job)\<lparr>sg_Attachments := as\<rparr>)"

text \<open>All that sending may write: the token cache, the log of requests and the counter.\<close>

definition sends_only :: "world \<Rightarrow> world \<Rightarrow> bool" where
  "sends_only w w' \<longleftrightarrow>
     mails w' = mails w \<and> tokens w' = tokens w \<and> configs w' = configs w \<and> cache w' = cache w
     \<and> broker w' = broker w \<and> mq_conns w' = mq_conns w \<and> mq_chans w' = mq_chans w
     \<and> files w' = files w \<and> timers w' = timers w \<and> active_jobs w' = active_jobs w
     \<and> is_shutdown w' = is_shutdown w"

interpretation sends_only: frame_rel sends_only
  by unfold_locales (auto simp: sends_only_def)

locale mail_sender =
  fixes send :: "mail_job \<Rightarrow> (world, go_error option) state"
  assumes frame: "within sends_only (send job)"
    and success: "run_state (send job) w = (None, w') \<Longrightarrow>
      \<exists>req. posts w' = posts w @ [req] \<and> carries job req"
    and failure: "run_state (send job) w = (Some e, w') \<Longrightarrow>
      posts w' = posts w \<or> (\<exists>req. posts w' = posts w @ [req] \<and> carries job req)"
begin

lemma at_most_one:
  assumes "run_state (send job) w = (r, w')"
  shows "\<exists>reqs. posts w' = posts w @ reqs \<and> length reqs \<le> 1 \<and> list_all (carries job) reqs"
proof (cases r)
  case None
  then obtain req where "posts w' = posts w @ [req]" "carries job req"
    using assms success by blast
  then show ?thesis by (intro exI [of _ "[req]"]) simp
next
  case (Some e)
  with assms failure consider "posts w' = posts w"
    | req where "posts w' = posts w @ [req]" "carries job req" by blast
  then show ?thesis
  proof cases
    case 1
    then show ?thesis by (intro exI [of _ "[]"]) simp
  next
    case 2
    then show ?thesis by (intro exI [of _ "[req]"]) simp
  qed
qed

lemma store_unchanged:
  assumes "run_state (send job) w = (r, w')"
  shows "mails w' = mails w" "tokens w' = tokens w" "configs w' = configs w"
    "cache w' = cache w" "broker w' = broker w" "timers w' = timers w" "files w' = files w"
    "active_jobs w' = active_jobs w" "is_shutdown w' = is_shutdown w"
  using withinD [OF frame assms] by (simp_all add: sends_only_def)

text \<open>Several jobs one after the other: at most one request each, in order.\<close>

lemma sequence:
  "run_state (for_each send jobs) w = (rs, w') \<Longrightarrow>
   \<exists>reqs. posts w' = posts w @ concat reqs
     \<and> list_all2 (\<lambda>job rq. length rq \<le> 1 \<and> list_all (carries job) rq) jobs reqs"
proof (induction jobs arbitrary: w rs w')
  case Nil
  then show ?case by simp
next
  case (Cons job jobs)
  obtain r w1 where r: "run_state (send job) w = (r, w1)" by fastforce
  obtain rs' w2 where rs: "run_state (for_each send jobs) w1 = (rs', w2)" by fastforce
  from Cons.prems r rs have "w' = w2" by simp
  obtain rq rqs where "posts w1 = posts w @ rq" "length rq \<le> 1" "list_all (carries job) rq"
    and "posts w2 = posts w1 @ concat rqs"
      "list_all2 (\<lambda>job rq. length rq \<le> 1 \<and> list_all (carries job) rq) jobs rqs"
    using at_most_one [OF r] Cons.IH [OF rs] by blast
  with \<open>w' = w2\<close> show ?case by (intro exI [of _ "rq # rqs"]) simp
qed

end

section \<open>Loading attachments\<close>

lemma read_attachment_run:
  "run_state (read_attachment E build att) w =
     ((case x_fs E (ticks w) of
         Some e \<Rightarrow> Inl (''failed to read attachment '' @ ai_Filename att @ '': '' @ e)
       | None \<Rightarrow> (case files w (ai_StoragePath att) of
           None \<Rightarrow> Inl (''failed to read attachment '' @ ai_Filename att @ '': open ''
             @ ai_StoragePath att @ '': no such file or directory'')
         | Some content \<Rightarrow> Inr (build att content))),
      w\<lparr>ticks := Suc (ticks w)\<rparr>)"
  by (simp add: read_attachment_def fs_ReadFile_def split: option.splits)

lemma read_attachment_within [frames]: "ticked R \<Longrightarrow> within R (read_attachment E build att)"
  by (simp add: within_def read_attachment_run)

text \<open>What a loaded attachment is: the file's content under the base name of the attachment.\<close>

lemma read_all:
  assumes "run_state (for_err (read_attachment E build) atts) w = (Inr as, w')"
  shows "list_all2 (\<lambda>att a. \<exists>content. files w (ai_StoragePath att) = Some content \<and> a = build att content)
    atts as"
  using assms
  by (rule for_err_all2 [where I = "\<lambda>v. files v = files w", rotated 2])
     (auto simp: read_attachment_run split: option.splits)

lemma Graph_loadAttachments_within [frames]:
  "frame_rel R \<Longrightarrow> ticked R \<Longrightarrow> within R (Graph_loadAttachments E job m)"
  unfolding Graph_loadAttachments_def by (intro frames frame_rel.rules [of R])

lemma SendGrid_loadAttachments_within [frames]:
  "frame_rel R \<Longrightarrow> ticked R \<Longrightarrow> within R (SendGrid_loadAttachments E job m)"
  unfolding SendGrid_loadAttachments_def by (intro frames frame_rel.rules [of R])

lemma Graph_loadAttachments_ok:
  assumes "run_state (Graph_loadAttachments E job m) w = (Inr m', w')" and "gm_Attachments m = []"
  shows "list_all2 (\<lambda>att a. \<exists>content. files w (ai_StoragePath att) = Some content
      \<and> a = graph_attachment_of att content) (job_Attachments job) (gm_Attachments m')
    \<and> m' = m\<lparr>gm_Attachments := gm_Attachments m'\<rparr>"
  using assms
  by (auto simp: Graph_loadAttachments_def split: if_splits prod.splits sum.splits dest: read_all)

lemma SendGrid_loadAttachments_ok:
  assumes "run_state (SendGrid_loadAttachments E job m) w = (Inr m', w')" and "sg_Attachments m = []"
  shows "list_all2 (\<lambda>att a. \<exists>content. files w (ai_StoragePath att) = Some content
      \<and> a = sg_attachment_of att content) (job_Attachments job) (sg_Attachments m')
    \<and> m' = m\<lparr>sg_Attachments := sg_Attachments m'\<rparr>"
  using assms
  by (auto simp: SendGrid_loadAttachments_def split: if_splits prod.splits sum.splits dest: read_all)

section \<open>The services keep the contract\<close>

lemma same_outbox: "within (same outbox) (Graph_loadAttachments E job m)"
  "within (same outbox) (SendGrid_loadAttachments E job n)"
  by (intro frames same.frame_rel_axioms; simp add: same_def)+

lemma posts_ticks [simp]: "posts (w\<lparr>ticks := n\<rparr>) = posts w"
  "posts (w\<lparr>oauth := s\<rparr>) = posts w"
  by (simp_all add: posts_def)

lemma graph_deliver_posts:
  assumes "run_state (graph_deliver E tok job) w = (r, w')"
  shows "(posts w' = posts w \<and> r \<noteq> None) \<or> (\<exists>req. posts w' = posts w @ [req] \<and> carries job req)"
proof -
  let ?m = "gr_Message (buildGraphRequest job)"
  obtain l w1 where l: "run_state (Graph_loadAttachments E job ?m) w = (l, w1)" by fastforce
  then have w1: "outbox w1 = outbox w" using within_same [OF same_outbox(1)] by blast
  show ?thesis
  proof (cases l)
    case (Inl e)
    then show ?thesis using assms l w1 by (auto simp: graph_deliver_def posts_def Let_def)
  next
    case (Inr m)
    from Graph_loadAttachments_ok [OF l [unfolded Inr]]
    have "length (gm_Attachments m) = length (job_Attachments job)"
      and m: "m = ?m\<lparr>gm_Attachments := gm_Attachments m\<rparr>"
      by (auto simp: buildGraphRequest_def dest: list_all2_lengthD)
    then have "carries job (GraphPost (graph_url job) tok
        (marshal_graph (buildGraphRequest job\<lparr>gr_Message := m\<rparr>)))"
      by (auto intro!: exI [of _ "gm_Attachments m"] arg_cong [of _ _ marshal_graph])
    then show ?thesis using assms l Inr w1
      by (auto simp: graph_deliver_def run_http_Do posts_def Let_def split: option.splits)
  qed
qed

lemma asks_token_same_posts [simp]: "asks_token (same posts) s"
  by (auto simp: asks_token_def same_def posts_def token_request_def same.frame_rel_axioms)

lemma asks_token_sends_only [simp]: "asks_token sends_only s"
  by (auto simp: asks_token_def sends_only_def sends_only.frame_rel_axioms)

lemma Graph_SendMail_posts:
  assumes "run_state (Graph_SendMail E job) w = (r, w')"
  shows "(posts w' = posts w \<and> r \<noteq> None) \<or> (\<exists>req. posts w' = posts w @ [req] \<and> carries job req)"
proof -
  obtain t s' w1 where g: "run_state (GetAccessToken E (oauth w)) w = ((t, s'), w1)"
    by (metis surj_pair)
  have w1: "posts (w1\<lparr>oauth := s'\<rparr>) = posts w"
    using within_same [OF GetAccessToken_within [OF asks_token_same_posts] g] by simp
  show ?thesis
  proof (cases t)
    case (Inl e)
    then show ?thesis using assms g w1 by (auto simp: Graph_SendMail_def)
  next
    case (Inr tok)
    then have "run_state (graph_deliver E tok job) (w1\<lparr>oauth := s'\<rparr>) = (r, w')"
      using assms g by (simp add: Graph_SendMail_def)
    from graph_deliver_posts [OF this] show ?thesis by (simp only: w1)
  qed
qed

lemma Graph_SendMailWithConfig_posts:
  assumes "run_state (Graph_SendMailWithConfig E t c k job) w = (r, w')"
  shows "(posts w' = posts w \<and> r \<noteq> None) \<or> (\<exists>req. posts w' = posts w @ [req] \<and> carries job req)"
proof -
  obtain tk w1 where g: "run_state (Manager_GetAccessToken E t c k) w = (tk, w1)" by fastforce
  have w1: "posts w1 = posts w" using within_same [OF Manager_GetAccessToken_within [OF asks_token_same_posts] g] by simp
  show ?thesis
  proof (cases tk)
    case (Inl e)
    then show ?thesis using assms g w1 by (auto simp: Graph_SendMailWithConfig_def)
  next
    case (Inr tok)
    then have "run_state (graph_deliver E tok job) w1 = (r, w')"
      using assms g by (simp add: Graph_SendMailWithConfig_def)
    from graph_deliver_posts [OF this] show ?thesis by (simp only: w1)
  qed
qed

lemma SendGrid_SendMail_posts:
  assumes "run_state (SendGrid_SendMail E job) w = (r, w')"
  shows "(posts w' = posts w \<and> r \<noteq> None) \<or> (\<exists>req. posts w' = posts w @ [req] \<and> carries job req)"
proof -
  let ?m = "sendgrid_message job"
  obtain l w1 where l: "run_state (SendGrid_loadAttachments E job ?m) w = (l, w1)" by fastforce
  then have w1: "outbox w1 = outbox w" using within_same [OF same_outbox(2)] by blast
  show ?thesis
  proof (cases l)
    case (Inl e)
    then show ?thesis using assms l w1 by (auto simp: SendGrid_SendMail_def posts_def)
  next
    case (Inr m)
    from SendGrid_loadAttachments_ok [OF l [unfolded Inr]]
    have "length (sg_Attachments m) = length (job_Attachments job)"
      and m: "m = ?m\<lparr>sg_Attachments := sg_Attachments m\<rparr>"
      by (auto simp: sendgrid_message_def dest: list_all2_lengthD)
    then have "carries job (SendGridPost m)" by (auto intro!: exI [of _ "sg_Attachments m"])
    then show ?thesis using assms l Inr w1
      by (auto simp: SendGrid_SendMail_def sendgrid_Send_def posts_def)
  qed
qed

lemma send_frames:
  "within sends_only (Graph_SendMail E job)"
  "within sends_only (Graph_SendMailWithConfig E t c k job)"
  "within sends_only (SendGrid_SendMail E job)"
  unfolding Graph_SendMail_def Graph_SendMailWithConfig_def SendGrid_SendMail_def
    graph_deliver_def
  by (intro frames sends_only.rules sends_only.frame_rel_axioms asks_token_sends_only;
      simp add: sends_only_def)+

interpretation graph: mail_sender "Graph_SendMail E" for E
  by unfold_locales (auto simp: send_frames dest!: Graph_SendMail_posts)

interpretation graph_config: mail_sender "Graph_SendMailWithConfig E t c k" for E t c k
  by unfold_locales (auto simp: send_frames dest!: Graph_SendMailWithConfig_posts)

interpretation sendgrid: mail_sender "SendGrid_SendMail E" for E
  by unfold_locales (auto simp: send_frames dest!: SendGrid_SendMail_posts)

section \<open>Properties\<close>

lemma Base_slash: "slash \<in> set (Base p) \<Longrightarrow> Base p = [slash]"
  using Base_no_slash [of p] by blast

lemma read_all_total:
  assumes "\<forall>n. x_fs E n = None" and "\<forall>att\<in>set atts. files w (ai_StoragePath att) \<noteq> None"
  shows "\<exists>as w'. run_state (for_err (read_attachment E build) atts) w = (Inr as, w')"
proof -
  have "\<exists>as w'. run_state (for_err (read_attachment E build) atts) w = (Inr as, w') \<and> files w' = files w"
    using assms by (intro for_err_total [where I = "\<lambda>v. files v = files w"])
      (auto simp: read_attachment_run)
  then show ?thesis by blast
qed

text \<open>
  Loading the attachments of a Graph mail is all or nothing. On success every attachment
  of the job appears, in order, under a name without directory part, with a content type,
  and its encoded content decodes to what the file holds; a missing file is an error; and
  when every file is there and can be read, loading succeeds.
\<close>

lemma Graph_loadAttachments_complete:
  assumes "gm_Attachments m = []"
    and "run_state (Graph_loadAttachments E job m) w = (r, w')"
  shows "(case r of
        Inl e \<Rightarrow> (\<exists>n. x_fs E n \<noteq> None)
          \<or> (\<exists>att\<in>set (job_Attachments job). files w (ai_StoragePath att) = None)
      | Inr m' \<Rightarrow> list_all2 (\<lambda>att a.
            files w (ai_StoragePath att) = b64_decode (ga_ContentBytes a)
            \<and> files w (ai_StoragePath att) \<noteq> None
            \<and> (ga_Name a = [slash] \<or> slash \<notin> set (ga_Name a)) \<and> ga_ContentType a \<noteq> [])
          (job_Attachments job) (gm_Attachments m'))"
proof (cases r)
  case (Inl e)
  show ?thesis
  proof (rule ccontr)
    assume "\<not> ?thesis"
    with Inl have "\<forall>n. x_fs E n = None"
      and "\<forall>att\<in>set (job_Attachments job). files w (ai_StoragePath att) \<noteq> None" by auto
    from read_all_total [OF this, of graph_attachment_of] assms(2) Inl show False
      by (auto simp: Graph_loadAttachments_def split: if_splits)
  qed
next
  case (Inr m')
  have "list_all2 (\<lambda>att a. \<exists>content. files w (ai_StoragePath att) = Some content
      \<and> a = graph_attachment_of att content) (job_Attachments job) (gm_Attachments m')"
    using Graph_loadAttachments_ok assms Inr by blast
  then show ?thesis unfolding Inr sum.case
    by (rule list_all2_mono)
       (auto simp: graph_attachment_of_def default_type_def split: if_splits dest: Base_slash)
qed

definition sample_attached :: mail_job where
  "sample_attached = sample_job\<lparr>job_Attachments :=
     [\<lparr>ai_Filename = ''a.txt'', ai_ContentType = [], ai_SizeBytes = 2, ai_StoragePath = ''/f''\<rparr>]\<rparr>"

lemma Graph_loadAttachments_complete_witness:
  "\<exists>m'. fst (run_state (Graph_loadAttachments sample_ext sample_attached
        (gr_Message (buildGraphRequest sample_attached)))
      (sample_world\<lparr>files := [''/f'' \<mapsto> ''hi'']\<rparr>)) = Inr m'
    \<and> map (b64_decode \<circ> ga_ContentBytes) (gm_Attachments m') = [Some ''hi'']"
proof -
  let ?w = "sample_world\<lparr>files := [''/f'' \<mapsto> ''hi'']\<rparr>"
  let ?r = "run_state (Graph_loadAttachments sample_ext sample_attached
        (gr_Message (buildGraphRequest sample_attached))) ?w"
  have "\<exists>m' w'. ?r = (Inr m', w')"
    by (simp add: Graph_loadAttachments_def sample_attached_def read_attachment_run sample_ext_def)
  then obtain m' w' where r: "?r = (Inr m', w')" by blast
  have "list_all2 (\<lambda>att a. files ?w (ai_StoragePath att) = b64_decode (ga_ContentBytes a)
      \<and> files ?w (ai_StoragePath att) \<noteq> None
      \<and> (ga_Name a = [slash] \<or> slash \<notin> set (ga_Name a)) \<and> ga_ContentType a \<noteq> [])
    (job_Attachments sample_attached) (gm_Attachments m')"
    using Graph_loadAttachments_complete [OF _ r] by (simp add: buildGraphRequest_def)
  then show ?thesis unfolding r fst_conv
    by (auto simp: sample_attached_def list_all2_Cons1)
qed

fun is_graph :: "outbound \<Rightarrow> bool" where
  "is_graph (GraphPost _ _ _) = True"
| "is_graph (TokenPost _ _) = True"
| "is_graph (SendGridPost _) = False"

definition microsoft_requests :: "world \<Rightarrow> outbound list" where
  "microsoft_requests w = filter is_graph (outbox w)"

definition sendgrid_requests :: "world \<Rightarrow> outbound list" where
  "sendgrid_requests w = filter (\<lambda>r. \<not> is_graph r) (outbox w)"

lemma service_frames:
  "within (same sendgrid_requests) (Graph_SendMail E job)"
  "within (same microsoft_requests) (SendGrid_SendMail E job)"
  unfolding Graph_SendMail_def SendGrid_SendMail_def graph_deliver_def Let_def
  by (intro frames same.rules same.frame_rel_axioms;
      simp add: same_def sendgrid_requests_def microsoft_requests_def asks_token_def
        token_request_def same.frame_rel_axioms)+

lemma worker_Route:
  "Route E (worker_router E cfg) job =
     Some (if org_sender E cfg (job_FromAddress job) then GraphMailService E else SendGridService E)"
  by (simp add: Route_def worker_router_def NewMailRouter_def org_sender_def Let_def)

lemma worker_SendMail_run:
  "run_state (Router_SendMail E (worker_router E cfg) job) w =
     map_prod Returns id (run_state ((if org_sender E cfg (job_FromAddress job)
       then Graph_SendMail E else SendGrid_SendMail E) job) w)"
  by (simp add: Router_SendMail_def worker_Route GraphMailService_def SendGridService_def
      split: prod.splits)

text \<open>
  C12: the worker's router never panics, and the sender's domain (without regard to case)
  decides which service sees a mail: a mail of the organisation makes no SendGrid request, any
  other mail makes no request to Microsoft, not even for a token. When it reports success it
  has made exactly one mail request, which carries the job.
\<close>

theorem Router_by_domain:
  assumes "run_state (Router_SendMail E (worker_router E cfg) job) w = (r, w')"
  shows "(if org_sender E cfg (job_FromAddress job) then sendgrid_requests w' = sendgrid_requests w
      else microsoft_requests w' = microsoft_requests w)
    \<and> (\<exists>err. r = Returns err
        \<and> (err = None \<longrightarrow> (\<exists>req. posts w' = posts w @ [req] \<and> carries job req)))"
proof -
  let ?send = "(if org_sender E cfg (job_FromAddress job) then Graph_SendMail E else SendGrid_SendMail E) job"
  from assms obtain err where s: "run_state ?send w = (err, w')" "r = Returns err"
    by (cases "run_state ?send w") (simp add: worker_SendMail_run)
  have "err = None \<longrightarrow> (\<exists>req. posts w' = posts w @ [req] \<and> carries job req)"
    using s(1) graph.success [of E job w w'] sendgrid.success [of E job w w']
    by (simp split: if_splits)
  moreover have "if org_sender E cfg (job_FromAddress job) then sendgrid_requests w' = sendgrid_requests w
      else microsoft_requests w' = microsoft_requests w"
    using s(1) within_same [OF service_frames(1), of E job w err w']
      within_same [OF service_frames(2), of E job w err w'] by (simp split: if_splits)
  ultimately show ?thesis using s(2) by blast
qed

lemma not_org_sample: "\<not> org_sender sample_ext default_config ''a@b.org''"
  by (simp add: org_sender_def ToLower_def is_ascii_def HasSuffix_def ascii_lower_def)

theorem Router_by_domain_witness:
  "microsoft_requests (snd (run_state (Router_SendMail sample_ext (worker_router sample_ext default_config)
     sample_job) sample_world)) = []"
proof -
  let ?r = "run_state (Router_SendMail sample_ext (worker_router sample_ext default_config)
     sample_job) sample_world"
  show ?thesis
    using Router_by_domain [of sample_ext default_config sample_job sample_world "fst ?r" "snd ?r"]
      not_org_sample
    by (simp add: sample_job_def microsoft_requests_def sample_world_def)
qed

end
