(* ===== verification/Worker.thy ===== *)
theory Worker
  imports MailSender SenderConfig KeyDB Queue
begin

text \<open>
  \<open>internal/worker/consumer.go\<close>. A delivery is the tag of the broker with its message. The
  goroutine that \<open>handleRetry\<close> starts, which sleeps and then publishes, is an entry of the
  list \<open>timers\<close> and the operation \<open>fire_retry\<close>. The errors of the publishing, database and
  cache calls are dropped where the code drops them. Every database query and update, cache
  write, request and broker call is one step on the state.
\<close>

record consumer =
  cs_cfg :: config
  cs_mailRouter :: mail_router
  cs_senderConfigService :: "bytes option"

type_synonym delivery = "nat \<times> message"

section \<open>Retrying\<close>

text \<open>
  \<open>time.Duration(1<<uint(job.RetryCount)) * time.Second\<close>: the shift and the product are
  taken in 64 bits.
\<close>

definition retry_delay :: "go_int \<Rightarrow> go_int" where
  "retry_delay retryCount = push_bit (unat retryCount) 1 * time_Second"

definition retry_message :: "config \<Rightarrow> mail_job \<Rightarrow> message" where
  "retry_message cfg job =
     (plain_message (co_MailQueueName cfg) job)\<lparr>msg_Headers := [(''x-retry-count'', job_RetryCount job)]\<rparr>"

definition job_row :: "ext \<Rightarrow> mail_job \<Rightarrow> mail \<Rightarrow> bool" where
  "job_row E job m \<longleftrightarrow> id_is E (job_MailID job) (mail_ID m)"

definition handleRetry ::
  "ext \<Rightarrow> consumer \<Rightarrow> nat \<Rightarrow> mail_job \<Rightarrow> go_error \<Rightarrow> (world, unit) state" where
  "handleRetry E c tag job0 errorMsg = do {
     let cfg = cs_cfg c;
     let job = job0\<lparr>job_RetryCount := job_RetryCount job0 + 1\<rparr>;
     if co_MaxRetryCount cfg \<le>s job_RetryCount job then do {
       ignore (mq_Publish E [] (plain_message (co_FailedQueueName cfg) job));
       ignore (mails_Update E (job_row E job) (\<lambda>t m. m\<lparr>mail_Status := MailStatusFailed,
          mail_RetryCount := job_RetryCount job, mail_ErrorMessage := errorMsg\<rparr>));
       ignore (SetStatus E cfg (job_MailID job) ''failed'' (job_RetryCount job) errorMsg);
       mq_Ack tag }
     else do {
       let delay = retry_delay (job_RetryCount job);
       ignore (mails_Update E (job_row E job) (\<lambda>t m. m\<lparr>mail_RetryCount := job_RetryCount job\<rparr>));
       ignore (SetStatus E cfg (job_MailID job) ''queued'' (job_RetryCount job) []);
       modify (\<lambda>w. w\<lparr>timers := timers w @ [(delay, job)]\<rparr>);
       mq_Ack tag } }"

text \<open>The goroutine of the \<open>i\<close>-th pending retry wakes up and publishes the job.\<close>

definition fire_retry :: "ext \<Rightarrow> config \<Rightarrow> nat \<Rightarrow> (world, unit) state" where
  "fire_retry E cfg i = do {
     ts \<leftarrow> gets timers;
     if i < length ts then do {
       modify (\<lambda>w. w\<lparr>timers := take i ts @ drop (Suc i) ts\<rparr>);
       ignore (mq_Publish E [] (retry_message cfg (snd (ts ! i)))) }
     else ret () }"

section \<open>Handling a message\<close>

text \<open>
  The choice of the sender: the settings stored for the job when it names some and the
  service is there, the router otherwise. An error on the way to the settings is handled like
  an error of sending.
\<close>

definition send_job :: "ext \<Rightarrow> consumer \<Rightarrow> mail_job \<Rightarrow> (world, go_error option outcome) state" where
  "send_job E c job =
     (case cs_senderConfigService c of
        Some key \<Rightarrow>
          if job_SenderConfigID job \<noteq> [] then
            (case x_uuid_parse E (job_SenderConfigID job) of
               Inl e \<Rightarrow> ret (Returns (Some e))
             | Inr senderConfigUUID \<Rightarrow> do {
                 r \<leftarrow> GetDecryptedConfig E key senderConfigUUID;
                 case r of
                   Inl e \<Rightarrow> ret (Returns (Some e))
                 | Inr (cfg, secret) \<Rightarrow> do {
                     err \<leftarrow> Graph_SendMailWithConfig E (cfg_MSTenantID cfg) (cfg_MSClientID cfg) secret job;
                     ret (Returns err) } })
          else Router_SendMail E (cs_mailRouter c) job
      | None \<Rightarrow> Router_SendMail E (cs_mailRouter c) job)"

definition mark_processing :: "ext \<Rightarrow> config \<Rightarrow> mail_job \<Rightarrow> (world, unit) state" where
  "mark_processing E cfg job = do {
     ignore (SetStatus E cfg (job_MailID job) ''processing'' (job_RetryCount job) []);
     ignore (mails_Update E (job_row E job) (\<lambda>t m. m\<lparr>mail_Status := MailStatusProcessing\<rparr>)) }"

definition mark_sent :: "ext \<Rightarrow> config \<Rightarrow> nat \<Rightarrow> mail_job \<Rightarrow> (world, unit) state" where
  "mark_sent E cfg tag job = do {
     now \<leftarrow> time_Now E;
     ignore (mails_Update E (job_row E job)
       (\<lambda>t m. m\<lparr>mail_Status := MailStatusSent, mail_SentAt := Some now\<rparr>));
     ignore (SetStatus E cfg (job_MailID job) ''sent'' (job_RetryCount job) []);
     mq_Ack tag }"

definition handle_job :: "ext \<Rightarrow> consumer \<Rightarrow> nat \<Rightarrow> mail_job \<Rightarrow> (world, unit outcome) state" where
  "handle_job E c tag job = do {
     r \<leftarrow> mails_First E (job_row E job);
     if (case r of Inr mail \<Rightarrow> mail_Status mail = MailStatusCancelled | Inl _ \<Rightarrow> False)
     then do { mq_Ack tag; ret (Returns ()) }
     else do {
       mark_processing E (cs_cfg c) job;
       s \<leftarrow> send_job E c job;
       case s of
         Panics \<Rightarrow> ret Panics
       | Returns sendErr \<Rightarrow>
           (case sendErr of
              Some e \<Rightarrow> do { handleRetry E c tag job e; ret (Returns ()) }
            | None \<Rightarrow> do { mark_sent E (cs_cfg c) tag job; ret (Returns ()) }) } }"

text \<open>The deferred decrement of \<open>activeJobs\<close> runs on every way out.\<close>

definition handleMessage :: "ext \<Rightarrow> consumer \<Rightarrow> delivery \<Rightarrow> (world, unit outcome) state" where
  "handleMessage E c d = do {
     modify (\<lambda>w. w\<lparr>active_jobs := active_jobs w + 1\<rparr>);
     r \<leftarrow> (case unmarshal_job (msg_Body (snd d)) of
            None \<Rightarrow> do { mq_Nack (fst d) False; ret (Returns ()) }
          | Some job \<Rightarrow> handle_job E c (fst d) job);
     modify (\<lambda>w. w\<lparr>active_jobs := active_jobs w - 1\<rparr>);
     ret r }"

text \<open>The body of the loop over the channel of deliveries, and the loop.\<close>

definition process_delivery :: "ext \<Rightarrow> consumer \<Rightarrow> delivery \<Rightarrow> (world, unit outcome) state" where
  "process_delivery E c d = do {
     down \<leftarrow> gets is_shutdown;
     if down then do { mq_Nack (fst d) True; ret (Returns ()) }
     else handleMessage E c d }"

definition processMessages :: "ext \<Rightarrow> consumer \<Rightarrow> delivery list \<Rightarrow> (world, unit outcome list) state" where
  "processMessages E c msgs = for_each (process_delivery E c) msgs"

section \<open>Starting and stopping\<close>

text \<open>
  Yields the number of goroutines that consume. On an error the connection is not closed; the
  process ends.
\<close>

definition Start :: "ext \<Rightarrow> consumer \<Rightarrow> (world, go_error + nat) state" where
  "Start E c = do {
     err \<leftarrow> mq_call E (\<lambda>w. w\<lparr>mq_conns := Suc (mq_conns w)\<rparr>);
     case err of Some e \<Rightarrow> ret (Inl e) | None \<Rightarrow> do {
     err \<leftarrow> mq_call E (\<lambda>w. w\<lparr>mq_chans := Suc (mq_chans w)\<rparr>);
     case err of Some e \<Rightarrow> ret (Inl e) | None \<Rightarrow> do {
     err \<leftarrow> mq_call E (on_broker (queue_declare (co_MailQueueName (cs_cfg c)) (Some ''dlx'')));
     case err of Some e \<Rightarrow> ret (Inl e) | None \<Rightarrow> do {
     err \<leftarrow> mq_call E (\<lambda>w. w);
     case err of Some e \<Rightarrow> ret (Inl e) | None \<Rightarrow> do {
     err \<leftarrow> mq_call E (\<lambda>w. w);
     case err of
       Some e \<Rightarrow> ret (Inl e)
     | None \<Rightarrow> ret (Inr (nat (sint (co_WorkerConcurrency (cs_cfg c))))) } } } } }"

text \<open>
  Waiting for the active jobs: \<open>active\<close> is what the loop reads at each tick of the ticker
  before the timeout; the wait ends at the first zero, or at the timeout. \<open>Cancel\<close> names no
  consumer, so that deliveries go on until the channel is closed; closing it puts every
  delivery that is not acknowledged back into its queue.
\<close>

definition drained :: "int list \<Rightarrow> bool" where
  "drained active \<longleftrightarrow> list_ex (\<lambda>n. n = 0) (take 299 active)"

fun requeue_all :: "(nat \<times> string \<times> message) list \<Rightarrow> broker \<Rightarrow> broker" where
  "requeue_all [] b = b"
| "requeue_all ((_, q, m) # ds) b = requeue_all ds (requeue q m b)"

definition shutdown_begin :: "(world, unit) state" where
  "shutdown_begin = modify (\<lambda>w. w\<lparr>is_shutdown := True\<rparr>)"

definition shutdown_cleanup :: "(world, unit) state" where
  "shutdown_cleanup = do {
     modify (\<lambda>w. w\<lparr>broker := (requeue_all (bk_unacked (broker w)) (broker w))\<lparr>bk_unacked := []\<rparr>\<rparr>);
     close_channel;
     close_conn }"

definition GracefulShutdown :: "int list \<Rightarrow> (world, bool) state" where
  "GracefulShutdown active = do {
     shutdown_begin;
     shutdown_cleanup;
     ret (drained active) }"

section \<open>The worker as it is wired\<close>

text \<open>
  \<open>cmd/worker/main.go\<close>: the settings service exists when the encryption key has the right
  length; the router is the one over both services.
\<close>

definition sender_service :: "config \<Rightarrow> bytes option" where
  "sender_service cfg =
     (if co_EncryptionKey cfg \<noteq> [] then
        (case NewEncryptionService (co_EncryptionKey cfg) of Inl _ \<Rightarrow> None | Inr key \<Rightarrow> Some key)
      else None)"

definition NewConsumer :: "config \<Rightarrow> mail_router \<Rightarrow> bytes option \<Rightarrow> consumer" where
  "NewConsumer cfg mailRouter senderConfigService =
     \<lparr>cs_cfg = cfg, cs_mailRouter = mailRouter, cs_senderConfigService = senderConfigService\<rparr>"

definition worker_consumer :: "ext \<Rightarrow> config \<Rightarrow> consumer" where
  "worker_consumer E cfg = NewConsumer cfg (worker_router E cfg) (sender_service cfg)"

lemma worker_consumer_fields [simp]:
  "cs_cfg (worker_consumer E cfg) = cfg"
  "cs_mailRouter (worker_consumer E cfg) = worker_router E cfg"
  "cs_senderConfigService (worker_consumer E cfg) = sender_service cfg"
  by (simp_all add: worker_consumer_def NewConsumer_def)

text \<open>Sending by the wired worker, without the outcome of a panic, which does not occur.\<close>

definition deliver_job :: "ext \<Rightarrow> config \<Rightarrow> mail_job \<Rightarrow> (world, go_error option) state" where
  "deliver_job E cfg job = do {
     r \<leftarrow> send_job E (worker_consumer E cfg) job;
     ret (case r of Returns e \<Rightarrow> e | Panics \<Rightarrow> None) }"

lemma router_within:
  assumes "within R (Graph_SendMail E job)" "within R (SendGrid_SendMail E job)"
  shows "within R (Router_SendMail E (worker_router E cfg) job)"
  using assms by (simp add: within_def worker_SendMail_run)

lemma send_job_returns: "\<exists>e. fst (run_state (send_job E (worker_consumer E cfg) job) w) = Returns e"
  by (auto simp: send_job_def worker_SendMail_run split: option.splits sum.splits prod.splits)

lemma deliver_job_run:
  "run_state (send_job E (worker_consumer E cfg) job) w
     = map_prod Returns id (run_state (deliver_job E cfg job) w)"
  using send_job_returns [of E cfg job w]
  by (cases "run_state (send_job E (worker_consumer E cfg) job) w") (auto simp: deliver_job_def)

lemma deliver_job_frame: "within sends_only (deliver_job E cfg job)"
proof -
  have "within sends_only (send_job E (worker_consumer E cfg) job)"
    unfolding send_job_def worker_consumer_fields
    by (intro frames sends_only.rules sends_only.frame_rel_axioms router_within send_frames)
       (simp_all add: sends_only_def)
  then show ?thesis unfolding deliver_job_def by (intro sends_only.rules)
qed

lemma GetDecryptedConfig_posts:
  assumes "run_state (GetDecryptedConfig E key i) w = (r, w')"
  shows "posts w' = posts w"
proof -
  have "within (same posts) (GetDecryptedConfig E key i)"
    by (intro frames same.frame_rel_axioms; simp add: same_def)
  then show ?thesis using assms by (rule within_same)
qed

lemma deliver_job_posts:
  assumes "run_state (deliver_job E cfg job) w = (r, w')"
  shows "(posts w' = posts w \<and> r \<noteq> None) \<or> (\<exists>req. posts w' = posts w @ [req] \<and> carries job req)"
proof -
  from assms have s: "run_state (send_job E (worker_consumer E cfg) job) w = (Returns r, w')"
    by (simp add: deliver_job_run)
  show ?thesis
  proof (cases "sender_service cfg = None \<or> job_SenderConfigID job = []")
    case True
    then have "run_state (Router_SendMail E (worker_router E cfg) job) w = (Returns r, w')"
      using s by (auto simp: send_job_def split: option.splits)
    then have "run_state ((if org_sender E cfg (job_FromAddress job)
        then Graph_SendMail E else SendGrid_SendMail E) job) w = (r, w')"
      unfolding worker_SendMail_run by (metis (no_types, lifting) id_apply map_prod_simp outcome.inject prod.collapse prod.inject)
    then show ?thesis
      by (auto split: if_splits dest: Graph_SendMail_posts SendGrid_SendMail_posts)
  next
    case False
    then obtain key where key: "sender_service cfg = Some key" "job_SenderConfigID job \<noteq> []" by auto
    show ?thesis
    proof (cases "x_uuid_parse E (job_SenderConfigID job)")
      case (Inl e)
      then show ?thesis using s key by (auto simp: send_job_def)
    next
      case (Inr i)
      obtain g w1 where g: "run_state (GetDecryptedConfig E key i) w = (g, w1)" by fastforce
      note w1 = GetDecryptedConfig_posts [OF g]
      show ?thesis
      proof (cases g)
        case (Inl e)
        then show ?thesis using s key Inr g w1 by (auto simp: send_job_def)
      next
        case gInr: (Inr cs)
        obtain c secret where cs: "cs = (c, secret)" by fastforce
        then have "run_state (Graph_SendMailWithConfig E (cfg_MSTenantID c) (cfg_MSClientID c) secret job) w1
            = (r, w')"
          using s key Inr g gInr by (auto simp: send_job_def split: prod.splits)
        from Graph_SendMailWithConfig_posts [OF this] show ?thesis by (simp only: w1)
      qed
    qed
  qed
qed

interpretation worker: mail_sender "deliver_job E cfg" for E cfg
  by unfold_locales (auto simp: deliver_job_frame dest!: deliver_job_posts)

section \<open>The course of a delivery\<close>

text \<open>The query does not find a cancelled mail.\<close>

definition alive :: "ext \<Rightarrow> mail_job \<Rightarrow> world \<Rightarrow> bool" where
  "alive E job w \<longleftrightarrow> x_db E (ticks w) \<noteq> None
     \<or> (\<forall>m. t_first mail_ID (job_row E job) (mails w) = Some m \<longrightarrow> mail_Status m \<noteq> MailStatusCancelled)"

lemma handle_job_cases:
  assumes "run_state (handle_job E (worker_consumer E cfg) tag job) w = (r, w')"
  obtains
    (cancelled) m where "r = Returns ()" "x_db E (ticks w) = None"
      "t_first mail_ID (job_row E job) (mails w) = Some m" "mail_Status m = MailStatusCancelled"
      "w' = w\<lparr>ticks := Suc (ticks w), broker := ack tag (broker w)\<rparr>"
  | (sent) w1 w2 where "r = Returns ()" "alive E job w"
      "run_state (mark_processing E cfg job) (w\<lparr>ticks := Suc (ticks w)\<rparr>) = ((), w1)"
      "run_state (deliver_job E cfg job) w1 = (None, w2)"
      "run_state (mark_sent E cfg tag job) w2 = ((), w')"
  | (failed) w1 w2 e where "r = Returns ()" "alive E job w"
      "run_state (mark_processing E cfg job) (w\<lparr>ticks := Suc (ticks w)\<rparr>) = ((), w1)"
      "run_state (deliver_job E cfg job) w1 = (Some e, w2)"
      "run_state (handleRetry E (worker_consumer E cfg) tag job e) w2 = ((), w')"
proof -
  define f where "f = fst (run_state (mails_First E (job_row E job)) w)"
  have f: "run_state (mails_First E (job_row E job)) w = (f, w\<lparr>ticks := Suc (ticks w)\<rparr>)"
    unfolding f_def by (simp add: mails_First_def db_exec_def split: option.splits)
  show thesis
  proof (cases "case f of Inr mail \<Rightarrow> mail_Status mail = MailStatusCancelled | Inl _ \<Rightarrow> False")
    case True
    then show thesis using assms f
      by (auto simp: handle_job_def mq_Ack_def f_def mails_First_def db_exec_def loaded_def
          split: option.splits sum.splits intro!: cancelled)
  next
    case False
    then have alive: "alive E job w"
      by (auto simp: f_def mails_First_def db_exec_def loaded_def alive_def split: option.splits)
    obtain w1 where p: "run_state (mark_processing E cfg job) (w\<lparr>ticks := Suc (ticks w)\<rparr>) = ((), w1)"
      by (metis old.unit.exhaust surj_pair)
    obtain s w2 where d: "run_state (deliver_job E cfg job) w1 = (s, w2)" by fastforce
    show thesis
    proof (cases s)
      case None
      with assms f False p d have "r = Returns ()" "run_state (mark_sent E cfg tag job) w2 = ((), w')"
        by (auto simp: handle_job_def deliver_job_run split: prod.splits)
      from sent [OF this(1) alive p d [unfolded None] this(2)] show thesis .
    next
      case (Some e)
      with assms f False p d have "r = Returns ()"
        "run_state (handleRetry E (worker_consumer E cfg) tag job e) w2 = ((), w')"
        by (auto simp: handle_job_def deliver_job_run split: prod.splits)
      from failed [OF this(1) alive p d [unfolded Some] this(2)] show thesis .
    qed
  qed
qed

section \<open>Effects when the services answer\<close>

lemma run_mq_Ack [simp]:
  "run_state (mq_Ack tag) w = ((), w\<lparr>broker := ack tag (broker w)\<rparr>)"
  by (simp add: mq_Ack_def)

lemma mark_processing_up:
  "up E \<Longrightarrow> run_state (mark_processing E cfg job) w =
     ((), w\<lparr>cache := (cache w)(status_key (job_MailID job) \<mapsto>
         status_entry E cfg (job_MailID job) ''processing'' (job_RetryCount job) [] (ticks w)),
       ticks := Suc (Suc (Suc (ticks w))),
       mails := t_update (job_row E job) (\<lambda>m. m\<lparr>mail_Status := MailStatusProcessing,
         mail_UpdatedAt := x_clock E (Suc (Suc (ticks w)))\<rparr>) (mails w)\<rparr>)"
  by (simp add: mark_processing_def SetStatus_up mails_Update_up)

lemma mark_sent_up:
  "up E \<Longrightarrow> run_state (mark_sent E cfg tag job) w =
     ((), w\<lparr>mails := t_update (job_row E job) (\<lambda>m. m\<lparr>mail_Status := MailStatusSent,
         mail_SentAt := Some (x_clock E (ticks w)), mail_UpdatedAt := x_clock E (Suc (ticks w))\<rparr>) (mails w),
       ticks := Suc (Suc (Suc (Suc (ticks w)))),
       cache := (cache w)(status_key (job_MailID job) \<mapsto>
         status_entry E cfg (job_MailID job) ''sent'' (job_RetryCount job) [] (Suc (Suc (ticks w)))),
       broker := ack tag (broker w)\<rparr>)"
  by (simp add: mark_sent_def SetStatus_up mails_Update_up)

lemma handleRetry_final:
  assumes "up E" "job = job0\<lparr>job_RetryCount := job_RetryCount job0 + 1\<rparr>"
    and "co_MaxRetryCount (cs_cfg c) \<le>s job_RetryCount job"
  shows "run_state (handleRetry E c tag job0 err) w =
     ((), w\<lparr>mails := t_update (job_row E job) (\<lambda>m. m\<lparr>mail_Status := MailStatusFailed,
         mail_RetryCount := job_RetryCount job, mail_ErrorMessage := err,
         mail_UpdatedAt := x_clock E (Suc (ticks w))\<rparr>) (mails w),
       ticks := Suc (Suc (Suc (Suc (ticks w)))),
       cache := (cache w)(status_key (job_MailID job) \<mapsto>
         status_entry E (cs_cfg c) (job_MailID job) ''failed'' (job_RetryCount job) err (Suc (Suc (ticks w)))),
       broker := ack tag (publish_to [] (plain_message (co_FailedQueueName (cs_cfg c)) job) (broker w))\<rparr>)"
  using assms by (simp add: handleRetry_def Let_def SetStatus_up mails_Update_up mq_Publish_up)

lemma handleRetry_again:
  assumes "up E" "job = job0\<lparr>job_RetryCount := job_RetryCount job0 + 1\<rparr>"
    and "\<not> co_MaxRetryCount (cs_cfg c) \<le>s job_RetryCount job"
  shows "run_state (handleRetry E c tag job0 err) w =
     ((), w\<lparr>mails := t_update (job_row E job) (\<lambda>m. m\<lparr>mail_RetryCount := job_RetryCount job,
         mail_UpdatedAt := x_clock E (ticks w)\<rparr>) (mails w),
       ticks := Suc (Suc (Suc (ticks w))),
       cache := (cache w)(status_key (job_MailID job) \<mapsto>
         status_entry E (cs_cfg c) (job_MailID job) ''queued'' (job_RetryCount job) [] (Suc (ticks w))),
       timers := timers w @ [(retry_delay (job_RetryCount job), job)],
       broker := ack tag (broker w)\<rparr>)"
  using assms by (simp add: handleRetry_def Let_def SetStatus_up mails_Update_up)

lemmas retry_runs = handleRetry_final [OF _ refl] handleRetry_again [OF _ refl]

section \<open>What handling a message does\<close>

definition row_status :: "uuid \<Rightarrow> world \<Rightarrow> mail_status option" where
  "row_status i w = map_option mail_Status (t_find mail_ID i (mails w))"

definition next_job :: "mail_job \<Rightarrow> mail_job" where
  "next_job job = job\<lparr>job_RetryCount := job_RetryCount job + 1\<rparr>"

definition handled_cancelled :: "world \<Rightarrow> world \<Rightarrow> bool" where
  "handled_cancelled w w' \<longleftrightarrow>
     outbox w' = outbox w \<and> mails w' = mails w \<and> cache w' = cache w \<and> timers w' = timers w
     \<and> (\<forall>q. waiting w' q = waiting w q)"

definition handled_sent :: "mail_job \<Rightarrow> uuid \<Rightarrow> world \<Rightarrow> world \<Rightarrow> bool" where
  "handled_sent job i w w' \<longleftrightarrow>
     (\<exists>req. posts w' = posts w @ [req] \<and> carries job req)
     \<and> (\<exists>m. t_find mail_ID i (mails w') = Some m \<and> mail_Status m = MailStatusSent \<and> mail_SentAt m \<noteq> None)
     \<and> cached_status (job_MailID job) w' = Some ''sent'' \<and> timers w' = timers w
     \<and> (\<forall>q. waiting w' q = waiting w q)"

definition handled_retry :: "config \<Rightarrow> mail_job \<Rightarrow> uuid \<Rightarrow> world \<Rightarrow> world \<Rightarrow> bool" where
  "handled_retry cfg job i w w' \<longleftrightarrow>
     \<not> co_MaxRetryCount cfg \<le>s job_RetryCount job + 1
     \<and> row_status i w' = Some MailStatusProcessing
     \<and> cached_status (job_MailID job) w' = Some ''queued''
     \<and> timers w' = timers w @ [(retry_delay (job_RetryCount job + 1), next_job job)]
     \<and> (\<forall>q. waiting w' q = waiting w q)"

definition handled_failed :: "config \<Rightarrow> mail_job \<Rightarrow> uuid \<Rightarrow> world \<Rightarrow> world \<Rightarrow> bool" where
  "handled_failed cfg job i w w' \<longleftrightarrow>
     co_MaxRetryCount cfg \<le>s job_RetryCount job + 1
     \<and> row_status i w' = Some MailStatusFailed
     \<and> cached_status (job_MailID job) w' = Some ''failed'' \<and> timers w' = timers w
     \<and> (\<forall>q. waiting w' q = waiting w q
          @ (if q = co_FailedQueueName cfg then [plain_message q (next_job job)] else []))"

lemma job_row_eq: "x_pg_uuid E (job_MailID job) = Some i \<Longrightarrow> job_row E job = (\<lambda>m. mail_ID m = i)"
  by (auto simp: job_row_def id_is_def)

lemma job_row_retry [simp]: "job_row E (job\<lparr>job_RetryCount := n\<rparr>) = job_row E job"
  by (simp add: job_row_def fun_eq_iff)

text \<open>The first two steps: the row is marked, then the job is sent or not.\<close>

lemma processing_then_deliver:
  assumes "up E" and "x_pg_uuid E (job_MailID job) = Some i" and "t_find mail_ID i (mails w) = Some m"
    and "run_state (mark_processing E cfg job) (w\<lparr>ticks := n\<rparr>) = ((), w1)"
    and "run_state (deliver_job E cfg job) w1 = (r, w2)"
  shows "t_find mail_ID i (mails w2) = Some (m\<lparr>mail_Status := MailStatusProcessing,
      mail_UpdatedAt := x_clock E (Suc (Suc n))\<rparr>)"
    and "broker w2 = broker w" "timers w2 = timers w" "active_jobs w2 = active_jobs w" "posts w1 = posts w"
proof -
  note w2 = worker.store_unchanged [OF assms(5)]
  have w1: "w1 = snd (run_state (mark_processing E cfg job) (w\<lparr>ticks := n\<rparr>))" by (simp add: assms(4))
  then show "broker w2 = broker w" "timers w2 = timers w" "active_jobs w2 = active_jobs w" "posts w1 = posts w"
    by (simp_all add: w2 mark_processing_up assms(1) posts_def)
  show "t_find mail_ID i (mails w2) = Some (m\<lparr>mail_Status := MailStatusProcessing,
      mail_UpdatedAt := x_clock E (Suc (Suc n))\<rparr>)"
    by (simp add: w2 w1 mark_processing_up assms(1,3) job_row_eq [OF assms(2)] mail_rows.find_update)
qed

lemma handle_job_outcome:
  assumes "up E" and "run_state (handle_job E (worker_consumer E cfg) tag job) w = (r, w')"
    and "x_pg_uuid E (job_MailID job) = Some i" and "t_keys_unique mail_ID (mails w)"
    and "t_find mail_ID i (mails w) = Some m" and "declared (co_FailedQueueName cfg) w"
  shows "r = Returns () \<and> active_jobs w' = active_jobs w
    \<and> bk_unacked (broker w') = filter (\<lambda>(t, q, m). t \<noteq> tag) (bk_unacked (broker w))
    \<and> (\<exists>reqs. posts w' = posts w @ reqs \<and> length reqs \<le> 1 \<and> list_all (carries job) reqs)
    \<and> (if mail_Status m = MailStatusCancelled then handled_cancelled w w'
       else handled_sent job i w w' \<or> handled_retry cfg job i w w' \<or> handled_failed cfg job i w w')"
  using assms(2)
proof (cases rule: handle_job_cases)
  case (cancelled m')
  have "m' = m"
    using cancelled(3) assms(4,5) by (simp add: job_row_eq [OF assms(3)] t_first_unique)
  then show ?thesis using cancelled
    by (auto simp: handled_cancelled_def waiting_def posts_def intro!: exI [of _ "[]"])
next
  case (sent w1 w2)
  note p = processing_then_deliver [OF assms(1,3,5) sent(3,4)]
  have alive: "mail_Status m \<noteq> MailStatusCancelled"
    using sent(2) assms(1,4,5) by (simp add: alive_def up_def job_row_eq [OF assms(3)] t_first_unique)
  obtain req where req: "posts w2 = posts w @ [req]" "carries job req"
    using worker.success [OF sent(4)] p(5) by auto
  have w': "w' = snd (run_state (mark_sent E cfg tag job) w2)" by (simp add: sent(5))
  have posts: "posts w' = posts w2" by (simp add: w' mark_sent_up assms(1) posts_def)
  have "handled_sent job i w w'"
    unfolding handled_sent_def posts
  proof (intro conjI exI)
    show "t_find mail_ID i (mails w') = Some (m\<lparr>mail_Status := MailStatusSent,
        mail_SentAt := Some (x_clock E (ticks w2)), mail_UpdatedAt := x_clock E (Suc (ticks w2))\<rparr>)"
      by (simp add: w' mark_sent_up assms(1) job_row_eq [OF assms(3)] mail_rows.find_update p(1))
    show "cached_status (job_MailID job) w' = Some ''sent''"
      by (rule cached_literal) (simp_all add: w' mark_sent_up assms(1) is_ascii_def)
  qed (use req p in \<open>simp_all add: w' mark_sent_up assms(1) waiting_def\<close>)
  then show ?thesis using sent(1) alive req posts p
    by (simp add: w' mark_sent_up assms(1))
next
  case (failed w1 w2 e)
  note p = processing_then_deliver [OF assms(1,3,5) failed(3,4)]
  have alive: "mail_Status m \<noteq> MailStatusCancelled"
    using failed(2) assms(1,4,5) by (simp add: alive_def up_def job_row_eq [OF assms(3)] t_first_unique)
  have reqs: "\<exists>reqs. posts w2 = posts w @ reqs \<and> length reqs \<le> 1 \<and> list_all (carries job) reqs"
    using worker.at_most_one [OF failed(4)] p(5) by simp
  have w': "w' = snd (run_state (handleRetry E (worker_consumer E cfg) tag job e) w2)"
    by (simp add: failed(5))
  show ?thesis
  proof (cases "co_MaxRetryCount cfg \<le>s job_RetryCount job + 1")
    case True
    note run = handleRetry_final [OF assms(1) refl, of "worker_consumer E cfg", simplified, OF True]
    have "handled_failed cfg job i w w'"
      unfolding handled_failed_def
    proof (intro conjI allI)
      show "cached_status (job_MailID job) w' = Some ''failed''"
        by (rule cached_literal) (simp_all add: w' run is_ascii_def)
      show "row_status i w' = Some MailStatusFailed"
        by (simp add: w' run row_status_def job_row_eq [OF assms(3)] mail_rows.find_update p(1))
      show "waiting w' q = waiting w q
          @ (if q = co_FailedQueueName cfg then [plain_message q (next_job job)] else [])" for q
        using assms(6) by (simp add: w' run waiting_def publish_default plain_message_def p declared_def
            next_job_def)
    qed (use True p in \<open>simp_all add: w' run\<close>)
    moreover have "posts w' = posts w2" by (simp add: w' run posts_def)
    ultimately show ?thesis using failed(1) alive reqs p by (simp add: w' run)
  next
    case False
    note run = handleRetry_again [OF assms(1) refl, of "worker_consumer E cfg", simplified, OF False]
    have "handled_retry cfg job i w w'"
      unfolding handled_retry_def
    proof (intro conjI allI)
      show "cached_status (job_MailID job) w' = Some ''queued''"
        by (rule cached_literal) (simp_all add: w' run is_ascii_def)
      show "row_status i w' = Some MailStatusProcessing"
        by (simp add: w' run row_status_def job_row_eq [OF assms(3)] mail_rows.find_update p(1))
    qed (use False p in \<open>simp_all add: w' run waiting_def next_job_def\<close>)
    moreover have "posts w' = posts w2" by (simp add: w' run posts_def)
    ultimately show ?thesis using failed(1) alive reqs p by (simp add: w' run)
  qed
qed

lemma posts_active [simp]: "posts (w\<lparr>active_jobs := n\<rparr>) = posts w"
  by (simp add: posts_def)

lemma handled_active [simp]:
  "handled_cancelled (w\<lparr>active_jobs := n\<rparr>) v = handled_cancelled w v"
  "handled_cancelled w (v\<lparr>active_jobs := n\<rparr>) = handled_cancelled w v"
  "handled_sent job i (w\<lparr>active_jobs := n\<rparr>) v = handled_sent job i w v"
  "handled_sent job i w (v\<lparr>active_jobs := n\<rparr>) = handled_sent job i w v"
  "handled_retry cfg job i (w\<lparr>active_jobs := n\<rparr>) v = handled_retry cfg job i w v"
  "handled_retry cfg job i w (v\<lparr>active_jobs := n\<rparr>) = handled_retry cfg job i w v"
  "handled_failed cfg job i (w\<lparr>active_jobs := n\<rparr>) v = handled_failed cfg job i w v"
  "handled_failed cfg job i w (v\<lparr>active_jobs := n\<rparr>) = handled_failed cfg job i w v"
  by (simp_all add: handled_cancelled_def handled_sent_def handled_retry_def handled_failed_def
      waiting_def posts_def row_status_def cached_status_def)

lemma handleMessage_ok:
  assumes "up E" and "run_state (handleMessage E (worker_consumer E cfg) (tag, msg)) w = (r, w')"
    and "unmarshal_job (msg_Body msg) = Some job" and "x_pg_uuid E (job_MailID job) = Some i"
    and "t_keys_unique mail_ID (mails w)" and "t_find mail_ID i (mails w) = Some m"
    and "declared (co_FailedQueueName cfg) w"
  shows "r = Returns () \<and> active_jobs w' = active_jobs w
    \<and> bk_unacked (broker w') = filter (\<lambda>(t, q, m). t \<noteq> tag) (bk_unacked (broker w))
    \<and> (\<exists>reqs. posts w' = posts w @ reqs \<and> length reqs \<le> 1 \<and> list_all (carries job) reqs)
    \<and> (if mail_Status m = MailStatusCancelled then handled_cancelled w w'
       else handled_sent job i w w' \<or> handled_retry cfg job i w w' \<or> handled_failed cfg job i w w')"
proof -
  let ?w = "w\<lparr>active_jobs := active_jobs w + 1\<rparr>"
  obtain v where h: "run_state (handle_job E (worker_consumer E cfg) tag job) ?w = (r, v)"
    and w': "w' = v\<lparr>active_jobs := active_jobs v - 1\<rparr>"
    using assms(2,3) by (auto simp: handleMessage_def split: prod.splits)
  have "r = Returns () \<and> active_jobs v = active_jobs ?w
    \<and> bk_unacked (broker v) = filter (\<lambda>(t, q, m). t \<noteq> tag) (bk_unacked (broker ?w))
    \<and> (\<exists>reqs. posts v = posts ?w @ reqs \<and> length reqs \<le> 1 \<and> list_all (carries job) reqs)
    \<and> (if mail_Status m = MailStatusCancelled then handled_cancelled ?w v
       else handled_sent job i ?w v \<or> handled_retry cfg job i ?w v \<or> handled_failed cfg job i ?w v)"
    using assms(5-7) by (intro handle_job_outcome [OF assms(1) h assms(4)]) (simp_all add: declared_def)
  then show ?thesis by (simp add: w' cong: if_cong)
qed

text \<open>
  C2: what the worker does with a message, when the database, the cache and the broker answer
  and the mail's row is there. A cancelled mail is acknowledged and nothing else happens.
  Otherwise at most one mail request goes out, and the mail ends in one of three ways: sent
  (exactly one request that carries the job; row and cache say so), waiting for its next
  attempt with one more retry counted, or failed for good and in the failed queue. Which of the
  last two it is depends on the count of attempts only, whatever the error says, and the next
  attempt is a timer of this process, not a message of the retry queue. The delivery is
  settled in each case, and no other is touched.
\<close>

theorem handleMessage_outcome:
  assumes "up E" and "run_state (handleMessage E (worker_consumer E cfg) (tag, msg)) w = (r, w')"
    and "unmarshal_job (msg_Body msg) = Some job" and "x_pg_uuid E (job_MailID job) = Some i"
    and "t_keys_unique mail_ID (mails w)" and "t_find mail_ID i (mails w) = Some m"
    and "declared (co_FailedQueueName cfg) w"
  shows "r = Returns () \<and> active_jobs w' = active_jobs w
    \<and> bk_unacked (broker w') = filter (\<lambda>(t, q, m). t \<noteq> tag) (bk_unacked (broker w))
    \<and> (\<exists>reqs. posts w' = posts w @ reqs \<and> length reqs \<le> 1 \<and> list_all (carries job) reqs)
    \<and> (if mail_Status m = MailStatusCancelled then handled_cancelled w w'
       else handled_sent job i w w' \<or> handled_retry cfg job i w w' \<or> handled_failed cfg job i w w')"
  using assms by (rule handleMessage_ok)

definition sample_row :: mail where
  "sample_row =
     \<lparr>mail_ID = ''m1'', mail_FromAddress = ''a@b.org'', mail_ToAddresses = [''c@d.org''],
      mail_CCAddresses = [], mail_BCCAddresses = [], mail_Subject = ''Hi'', mail_Body = ''text'',
      mail_HTML = [], mail_Status = MailStatusQueued, mail_RetryCount = 0, mail_ErrorMessage = [],
      mail_SentAt = None, mail_CreatedAt = 0, mail_UpdatedAt = 0, mail_ClientID = ''client'',
      mail_ClientName = ''Client'', mail_Metadata = [], mail_SenderConfigID = None,
      mail_Attachments = []\<rparr>"

definition sample_delivery :: delivery where
  "sample_delivery = (0, plain_message ''mail-queue'' sample_job)"

lemma sample_message [simp]:
  "unmarshal_job (msg_Body (plain_message key sample_job)) = Some sample_job"
  by (simp add: plain_message_def unmarshal_marshal_job)

theorem handleMessage_outcome_witness:
  "\<exists>reqs. posts (snd (run_state (handleMessage sample_ext (worker_consumer sample_ext default_config)
      sample_delivery) (sample_world\<lparr>mails := [sample_row]\<rparr>))) = reqs \<and> length reqs \<le> 1"
proof -
  let ?w = "sample_world\<lparr>mails := [sample_row]\<rparr>"
  let ?r = "run_state (handleMessage sample_ext (worker_consumer sample_ext default_config)
      (0, plain_message ''mail-queue'' sample_job)) ?w"
  have "?r = (fst ?r, snd ?r)" by simp
  from handleMessage_outcome [OF sample_up this, of sample_job "''m1''" sample_row] show ?thesis
    by (simp add: t_keys_unique_def t_find_def sample_row_def declared_def sample_broker_def
        sample_delivery_def) (auto simp: posts_def)
qed

section \<open>Settling under failures\<close>

definition unacked :: "world \<Rightarrow> (nat \<times> string \<times> message) list" where
  "unacked w = bk_unacked (broker w)"

text \<open>An operation that settles one delivery, by acknowledging or rejecting it.\<close>

definition settles :: "nat \<Rightarrow> (world, unit) state \<Rightarrow> bool" where
  "settles tag m \<longleftrightarrow>
     (\<forall>w. unacked (snd (run_state m w)) = filter (\<lambda>(t, q, m). t \<noteq> tag) (unacked w))"


lemma bk_unacked_requeue [simp]: "bk_unacked (requeue q m b) = bk_unacked b"
  by (simp add: requeue_def split: option.splits)

lemma bk_unacked_dead_letter [simp]: "bk_unacked (dead_letter q m b) = bk_unacked b"
  by (simp add: dead_letter_def split: option.splits)

lemma bk_unacked_nack:
  "bk_unacked (nack tag again b) = filter (\<lambda>(t, q, m). t \<noteq> tag) (bk_unacked b)"
proof (cases "find (\<lambda>(t, q, m). t = tag) (bk_unacked b)")
  case None
  then have "filter (\<lambda>(t, q, m). t \<noteq> tag) (bk_unacked b) = bk_unacked b"
    by (auto simp: find_None_iff filter_id_conv)
  with None show ?thesis by (simp add: nack_def)
next
  case (Some d)
  then show ?thesis by (cases d) (simp add: nack_def)
qed

lemma settles_Nack: "settles tag (mq_Nack tag again)"
  by (simp add: settles_def unacked_def mq_Nack_def bk_unacked_nack)










section \<open>Attempts and delays\<close>

text \<open>
  C36: the waiting time before attempt number \<open>n + 1\<close> is two to the \<open>n\<close> seconds as long as
  that fits (\<open>n\<close> up to 33); at 34 the 64-bit product is negative, and from 55 on it is zero, so
  that such a retry is published at once.
\<close>

theorem retry_delay_exact:
  "(if n \<le> 33 then sint (retry_delay (of_nat n)) = 2 ^ n * 1000000000
    else if n = 34 then sint (retry_delay (of_nat n)) < 0
    else if 55 \<le> n \<and> n < 2 ^ 64 then retry_delay (of_nat n) = 0 else True)"
proof -
  have small: "sint (retry_delay (of_nat n)) = 2 ^ n * 1000000000" if "n \<le> 33"
  proof -
    have "n \<in> set [0..<34]" using that by simp
    then show ?thesis
      by (simp add: upt_rec retry_delay_def time_Second_def) (elim disjE; simp add: push_bit_eq_mult)
  qed
  have neg: "sint (retry_delay (of_nat 34)) < 0"
    by (simp add: retry_delay_def time_Second_def push_bit_eq_mult)
  have zero: "retry_delay (of_nat n) = 0" if "55 \<le> n" "n < 2 ^ 64"
  proof -
    have u: "unat (of_nat n :: go_int) = n" using that by (simp add: unat_of_nat)
    have "(2 :: go_int) ^ n = 2 ^ (n - 55) * 2 ^ 55"
      using that(1) by (metis le_add_diff_inverse2 power_add)
    then have "(2 :: go_int) ^ n * 1000000000 = 2 ^ (n - 55) * (2 ^ 55 * 1000000000)"
      by (simp only: mult.assoc)
    moreover have "(2 :: go_int) ^ 55 * 1000000000 = 0" by simp
    ultimately have "(2 :: go_int) ^ n * 1000000000 = 0" by (simp only: mult_zero_right)
    then show ?thesis
      by (simp add: retry_delay_def time_Second_def push_bit_eq_mult u)
  qed
  show ?thesis using small neg zero by simp
qed

text \<open>
  How many attempts a job gets when every attempt fails: the recursion follows the count the
  worker keeps. It ends, since the count runs towards the limit even across the wrap-around.
\<close>

lemma one_step_closer:
  fixes m n :: go_int
  assumes "\<not> m \<le>s n + 1"
  shows "unat (m - n - 2) < unat (m - n - 1)"
proof -
  have "m \<noteq> n + 1" using assms by auto
  then have x: "m - n - 1 \<noteq> 0" by (simp add: algebra_simps)
  then have "unat (m - n - 1) \<noteq> 0" by (simp add: unat_eq_zero)
  then have "unat (m - n - 1 - 1) < unat (m - n - 1)"
    using unat_minus_one [OF x] by simp
  moreover have "m - n - 1 - 1 = m - n - 2" by simp
  ultimately show ?thesis by simp
qed

function attempts :: "config \<Rightarrow> mail_job \<Rightarrow> nat" where
  "attempts cfg job =
     (if co_MaxRetryCount cfg \<le>s job_RetryCount job + 1 then 1 else Suc (attempts cfg (next_job job)))"
  by pat_completeness auto
termination
  by (relation "measure (\<lambda>(cfg, job). unat (co_MaxRetryCount cfg - job_RetryCount job - 1))")
     (auto simp: next_job_def one_step_closer)

declare attempts.simps [simp del]

lemma attempts_count:
  assumes "0 \<le> sint (job_RetryCount job)" "sint (job_RetryCount job) < sint (co_MaxRetryCount cfg)"
  shows "int (attempts cfg job) = sint (co_MaxRetryCount cfg) - sint (job_RetryCount job)"
  using assms
proof (induction cfg job rule: attempts.induct)
  case (1 cfg job)
  let ?n = "sint (job_RetryCount job)" and ?m = "sint (co_MaxRetryCount cfg)"
  have "?m < 2 ^ 63" using sint_range_size [of "co_MaxRetryCount cfg"] by (simp add: word_size)
  then have "signed_take_bit 63 (?n + 1) = ?n + 1"
    using 1(2,3) by (intro signed_take_bit_int_eq_self) auto
  then have s: "sint (job_RetryCount job + 1) = ?n + 1" by (simp add: sint_word_ariths)
  show ?case
  proof (cases "co_MaxRetryCount cfg \<le>s job_RetryCount job + 1")
    case True
    then have "?m = ?n + 1" using s 1(3) by (simp add: word_sle_eq)
    with True show ?thesis by (simp add: attempts.simps [of cfg job])
  next
    case False
    then have "int (attempts cfg (next_job job)) = ?m - (?n + 1)"
      using 1 s by (simp add: next_job_def word_sle_eq)
    with False show ?thesis by (simp add: attempts.simps [of cfg job])
  qed
qed

text \<open>
  A fresh job whose every attempt fails is attempted exactly as often as the configured
  maximum says, the first attempt included (so five times by default: four retries), and at
  least once when the maximum is not positive.
\<close>

lemma attempts_total:
  assumes "job_RetryCount job = 0"
  shows "attempts cfg job = max 1 (nat (sint (co_MaxRetryCount cfg)))"
proof (cases "0 < sint (co_MaxRetryCount cfg)")
  case True
  with attempts_count [of job cfg] assms show ?thesis by simp
next
  case False
  then have "co_MaxRetryCount cfg \<le>s job_RetryCount job + 1"
    using assms by (simp add: word_sle_eq)
  with False show ?thesis by (simp add: attempts.simps [of cfg job])
qed

lemma attempts_total_witness: "attempts default_config sample_job = 5"
  using attempts_total [of sample_job default_config] by simp

section \<open>A pending retry lives in the process alone\<close>

text \<open>
  While a job waits for its next attempt no broker queue and no unsettled delivery holds
  it: its delivery is acknowledged, every queue is as it was, and only the timer of this
  process knows it. A process that ends in that time (its timers gone) leaves a mail that is
  \<open>processing\<close> in the database and in no queue.
\<close>

lemma retry_only_in_memory:
  assumes "up E" and "run_state (handleMessage E (worker_consumer E cfg) (tag, msg)) w = (r, w')"
    and "unmarshal_job (msg_Body msg) = Some job" and "x_pg_uuid E (job_MailID job) = Some i"
    and "t_keys_unique mail_ID (mails w)" and "t_find mail_ID i (mails w) = Some m"
    and "declared (co_FailedQueueName cfg) w" and "timers w' \<noteq> timers w"
  shows "row_status i (w'\<lparr>timers := []\<rparr>) = Some MailStatusProcessing
    \<and> (\<forall>q. waiting (w'\<lparr>timers := []\<rparr>) q = waiting w q)
    \<and> (\<forall>d\<in>set (bk_unacked (broker w')). fst d \<noteq> tag)
    \<and> timers w' = timers w @ [(retry_delay (job_RetryCount job + 1), next_job job)]"
proof -
  let ?w = "w\<lparr>active_jobs := active_jobs w + 1\<rparr>"
  obtain v where h: "run_state (handle_job E (worker_consumer E cfg) tag job) ?w = (r, v)"
    and w': "w' = v\<lparr>active_jobs := active_jobs v - 1\<rparr>"
    using assms(2,3) by (auto simp: handleMessage_def split: prod.splits)
  note o = handle_job_outcome [OF assms(1) h assms(4), of m] 
  from o assms(5-8) w' have "handled_retry cfg job i w v"
    by (auto simp: declared_def handled_cancelled_def handled_sent_def handled_failed_def split: if_splits)
  moreover from o assms(5-7) have "bk_unacked (broker v) = filter (\<lambda>(t, q, m). t \<noteq> tag) (bk_unacked (broker w))"
    by (simp add: declared_def)
  ultimately show ?thesis
    by (auto simp: handled_retry_def w' row_status_def waiting_def)
qed

definition failing_ext :: ext where
  "failing_ext = sample_ext\<lparr>x_sendgrid := \<lambda>n. Inl ''down''\<rparr>"

lemma failing_up [simp]: "up failing_ext"
  by (simp add: up_def failing_ext_def)

lemma failing_retries:
  "timers (snd (run_state (handleMessage failing_ext (worker_consumer failing_ext default_config)
     sample_delivery) (sample_world\<lparr>mails := [sample_row]\<rparr>)))
   = [(retry_delay 1, next_job sample_job)]"
proof -
  have send: "run_state (deliver_job failing_ext default_config sample_job) w
      = (Some ''failed to send email via SendGrid: down'',
         w\<lparr>ticks := Suc (ticks w), outbox := outbox w @ [SendGridPost (sendgrid_message sample_job)]\<rparr>)" for w
  proof -
    have "\<not> org_sender failing_ext default_config (job_FromAddress sample_job)"
      using not_org_sample by (simp add: failing_ext_def sample_job_def org_sender_def)
    then show ?thesis
      by (simp add: deliver_job_def send_job_def sender_service_def default_config_def Load_def
          worker_SendMail_run SendGrid_SendMail_def SendGrid_loadAttachments_def sendgrid_Send_def
          split: option.splits) (simp add: failing_ext_def)
  qed
  note again = handleRetry_again [OF failing_up refl, of "worker_consumer failing_ext default_config" sample_job]
  show ?thesis
    by (simp add: sample_delivery_def handleMessage_def handle_job_def mails_First_def db_exec_def
        mark_processing_up deliver_job_run send again word_sle_eq next_job_def
        t_first_def job_row_def id_is_def loaded_def sample_row_def failing_ext_def [THEN arg_cong [where f = x_db]]
        failing_ext_def [THEN arg_cong [where f = x_pg_uuid]])
qed

lemma retry_only_in_memory_witness:
  "row_status ''m1'' ((snd (run_state (handleMessage failing_ext (worker_consumer failing_ext default_config)
     sample_delivery) (sample_world\<lparr>mails := [sample_row]\<rparr>)))\<lparr>timers := []\<rparr>) = Some MailStatusProcessing"
proof -
  let ?w = "sample_world\<lparr>mails := [sample_row]\<rparr>"
  let ?r = "run_state (handleMessage failing_ext (worker_consumer failing_ext default_config)
      (0, plain_message ''mail-queue'' sample_job)) ?w"
  have r: "?r = (fst ?r, snd ?r)" by simp
  have "x_pg_uuid failing_ext ''m1'' = Some ''m1''" by (simp add: failing_ext_def)
  with retry_only_in_memory [OF failing_up r, of sample_job "''m1''" sample_row] failing_retries
  show ?thesis
    by (simp add: t_keys_unique_def t_find_def sample_row_def declared_def sample_broker_def
        sample_delivery_def)
qed

text \<open>
  When its timer fires the job goes back to the mail queue, to no other, as a message that
  decodes to the job with its count of attempts; the timer is gone.
\<close>

lemma fire_retry_requeues:
  assumes "i < length (timers w)" and "valid_job (snd (timers w ! i))"
    and "declared (co_MailQueueName cfg) w" and "x_mq E (ticks w) = None"
  shows "let w' = snd (run_state (fire_retry E cfg i) w) in
    \<exists>m. waiting w' q = waiting w q @ (if q = co_MailQueueName cfg then [m] else [])
      \<and> unmarshal_job (msg_Body m) = Some (snd (timers w ! i))
      \<and> timers w' = take i (timers w) @ drop (Suc i) (timers w)"
proof -
  let ?m = "retry_message cfg (snd (timers w ! i))"
  have "unmarshal_job (msg_Body ?m) = Some (snd (timers w ! i))"
    using assms(2) by (simp add: retry_message_def plain_message_def unmarshal_marshal_job)
  moreover have "msg_RoutingKey ?m = co_MailQueueName cfg" by (simp add: retry_message_def plain_message_def)
  ultimately show ?thesis using assms(1,3,4) unfolding Let_def
    by (intro exI [of _ ?m])
       (simp add: fire_retry_def mq_Publish_def waiting_def declared_def publish_default)
qed

lemma fire_retry_requeues_witness:
  "waiting (snd (run_state (fire_retry sample_ext default_config 0)
     (sample_world\<lparr>timers := [(0, sample_job)]\<rparr>))) ''failed-mails'' = []"
  using fire_retry_requeues [of 0 "sample_world\<lparr>timers := [(0, sample_job)]\<rparr>" default_config sample_ext "''failed-mails''"]
  by (simp add: declared_def sample_broker_def Let_def waiting_def queue_of_def)

section \<open>What handling a message leaves alone\<close>

text \<open>The identifiers in the table, the rows of other mails, which queues are declared and the shutdown flag.\<close>

definition others :: "uuid \<Rightarrow> world \<Rightarrow> uuid list \<times> (uuid \<Rightarrow> mail option) \<times> (string \<Rightarrow> bool) \<times> bool" where
  "others i w = (map mail_ID (mails w), (\<lambda>k. t_find mail_ID k (mails w))(i := None),
     (\<lambda>q. declared q w), is_shutdown w)"

lemma update_ids: "(\<And>m. mail_ID (f m) = mail_ID m) \<Longrightarrow> map mail_ID (t_update P f ms) = map mail_ID ms"
  by (induction ms) (simp_all add: t_update_def)

lemma others_update [simp]:
  "(\<And>m. mail_ID (f m) = mail_ID m) \<Longrightarrow>
   others i (w\<lparr>ticks := n, mails := t_update (\<lambda>m. mail_ID m = i) f (mails w)\<rparr>) = others i w"
  by (simp add: others_def fun_eq_iff mail_rows.find_update declared_def update_ids)

lemma nack_declared [simp]: "(bk_queues (nack tag again b) q = None) = (bk_queues b q = None)"
  by (auto simp: nack_def requeue_def dead_letter_def split: option.splits)

lemma others_fields [simp]:
  "others i (w\<lparr>ticks := n\<rparr>) = others i w" "others i (w\<lparr>ticks := n, cache := c\<rparr>) = others i w"
  "others i (w\<lparr>active_jobs := a\<rparr>) = others i w" "others i (w\<lparr>timers := ts\<rparr>) = others i w"
  "others i (w\<lparr>broker := ack tag (broker w)\<rparr>) = others i w"
  "others i (w\<lparr>broker := nack tag again (broker w)\<rparr>) = others i w"
  "others i (w\<lparr>ticks := n, broker := publish_to ex m (broker w)\<rparr>) = others i w"
  by (simp_all add: others_def declared_def fun_eq_iff)

lemma deliver_others: "within (same (others i)) (deliver_job E cfg job)"
proof
  fix w
  obtain r w' where d: "run_state (deliver_job E cfg job) w = (r, w')" by fastforce
  then have "mails w' = mails w" "broker w' = broker w" "is_shutdown w' = is_shutdown w"
    using worker.store_unchanged [OF d] by blast+
  with d show "same (others i) w (snd (run_state (deliver_job E cfg job) w))"
    by (simp add: same_def others_def declared_def)
qed

lemma mark_others:
  assumes "x_pg_uuid E (job_MailID job) = Some i"
  shows "within (same (others i)) (mark_processing E cfg job)" "within (same (others i)) (mark_sent E cfg tag job)"
    "within (same (others i)) (handleRetry E c tag job err)"
proof -
  note row = job_row_eq [OF assms]
  show "within (same (others i)) (mark_processing E cfg job)"
    unfolding mark_processing_def row by (intro frames same.rules; simp add: same_def)
  show "within (same (others i)) (mark_sent E cfg tag job)"
    unfolding mark_sent_def row by (intro frames same.rules; simp add: same_def)
  show "within (same (others i)) (handleRetry E c tag job err)"
    unfolding handleRetry_def Let_def job_row_retry row by (intro frames same.rules; simp add: same_def)
qed

lemma handle_job_others:
  assumes "x_pg_uuid E (job_MailID job) = Some i"
    and "run_state (handle_job E (worker_consumer E cfg) tag job) w = (r, w')"
  shows "others i w' = others i w"
  using assms(2)
proof (cases rule: handle_job_cases)
  case (cancelled m)
  then show ?thesis by (simp add: others_def declared_def)
next
  case (sent w1 w2)
  note within_same [OF mark_others(1) [OF assms(1)] sent(3)] within_same [OF deliver_others sent(4)]
    within_same [OF mark_others(2) [OF assms(1)] sent(5)]
  then show ?thesis by simp
next
  case (failed w1 w2 e)
  note within_same [OF mark_others(1) [OF assms(1)] failed(3)] within_same [OF deliver_others failed(4)]
    within_same [OF mark_others(3) [OF assms(1)] failed(5)]
  then show ?thesis by simp
qed

lemma handleMessage_others:
  assumes "unmarshal_job (msg_Body (snd d)) = Some job" and "x_pg_uuid E (job_MailID job) = Some i"
    and "run_state (handleMessage E (worker_consumer E cfg) d) w = (r, w')"
  shows "others i w' = others i w"
proof -
  obtain v where h: "run_state (handle_job E (worker_consumer E cfg) (fst d) job)
      (w\<lparr>active_jobs := active_jobs w + 1\<rparr>) = (r, v)" and w': "w' = v\<lparr>active_jobs := active_jobs v - 1\<rparr>"
    using assms(1,3) by (auto simp: handleMessage_def split: prod.splits)
  from handle_job_others [OF assms(2) h] show ?thesis by (simp add: w')
qed

end
