(* ===== verification/Smtp.thy ===== *)
theory Smtp
  imports Storage KeyDB Queue
begin

text \<open>
  The SMTP receiver, \<open>internal/smtp\<close>. A session keeps the envelope (\<open>from\<close>, \<open>to\<close>) between
  the commands that the SMTP library dispatches; \<open>Data\<close> parses the message, stores mail and
  attachments and queues the job. The MIME reader is a parameter: its header fields and what
  the n-th call of \<open>NextPart\<close> yields. The loop over the parts has no bound of its own, so it
  is a partial function: \<open>None\<close> is a call of \<open>Data\<close> that never returns.
\<close>

section \<open>The session\<close>

record smtp_session =
  ss_from :: string
  ss_to :: "string list"

definition NewSession :: smtp_session where
  "NewSession = \<lparr>ss_from = [], ss_to = []\<rparr>"

definition AuthPlain :: "config \<Rightarrow> string \<Rightarrow> string \<Rightarrow> go_error option" where
  "AuthPlain cfg username password =
     (if \<not> co_SMTPAuthRequired cfg then None
      else if password = co_JWTSecret cfg then None
      else Some ''invalid credentials'')"

definition cleanEmail :: "string \<Rightarrow> string" where
  "cleanEmail email = TrimSuffix (TrimPrefix (TrimSpace email) ''<'') ''>''"

definition sender_allowed :: "ext \<Rightarrow> config \<Rightarrow> string \<Rightarrow> bool" where
  "sender_allowed E cfg from \<longleftrightarrow>
     co_SMTPAllowedDomains cfg = []
     \<or> list_ex (\<lambda>domain. HasSuffix (ToLower (x_lower E) from) (ToLower (x_lower E) domain))
         (co_SMTPAllowedDomains cfg)"

definition Mail :: "ext \<Rightarrow> config \<Rightarrow> string \<Rightarrow> smtp_session \<Rightarrow> go_error option \<times> smtp_session" where
  "Mail E cfg arg s =
     (let from = cleanEmail arg in
      if \<not> sender_allowed E cfg from then (Some (''sender domain not allowed: '' @ from), s)
      else (None, s\<lparr>ss_from := from\<rparr>))"

definition Rcpt :: "string \<Rightarrow> smtp_session \<Rightarrow> go_error option \<times> smtp_session" where
  "Rcpt arg s = (None, s\<lparr>ss_to := ss_to s @ [cleanEmail arg]\<rparr>)"

definition Reset :: "smtp_session \<Rightarrow> smtp_session" where
  "Reset s = s\<lparr>ss_from := [], ss_to := []\<rparr>"

definition Logout :: "go_error option" where
  "Logout = None"

section \<open>Attachments\<close>

text \<open>The name given in \<open>Content-Disposition\<close>, read by hand: the first piece that begins so.\<close>

definition disposition_filename :: "string \<Rightarrow> string" where
  "disposition_filename disp =
     (case find (\<lambda>p. HasPrefix p ''filename='') (map TrimSpace (split_on CHR '';'' disp)) of
        None \<Rightarrow> []
      | Some p \<Rightarrow> trim_char CHR 0x22 (TrimPrefix p ''filename=''))"

definition default_extension :: "string \<Rightarrow> string" where
  "default_extension contentType =
     (if HasPrefix contentType ''image/'' then
        (let parts = split_on CHR ''/'' contentType in
         if length parts = 2 then ''.'' @ parts ! 1 else ''.bin'')
      else if HasPrefix contentType ''application/pdf'' then ''.pdf''
      else if HasPrefix contentType ''text/'' then ''.txt''
      else ''.bin'')"

text \<open>The fallbacks, each tried when the name is still empty; the last one uses the time.\<close>

definition given_filename ::
  "string \<Rightarrow> (string \<times> string) list option \<Rightarrow> (string \<Rightarrow> string) \<Rightarrow> string" where
  "given_filename filename params header =
     (let f1 = (if filename = [] \<and> header ''Content-Disposition'' \<noteq> []
                then disposition_filename (header ''Content-Disposition'') else filename);
          f2 = (if f1 = [] then
                  (case params of
                     None \<Rightarrow> f1
                   | Some ps \<Rightarrow> (case map_of ps ''name'' of None \<Rightarrow> f1 | Some name \<Rightarrow> name))
                else f1)
      in if f2 = [] then header ''X-Attachment-Name'' else f2)"

definition attachment_filename ::
  "ext \<Rightarrow> string \<Rightarrow> string \<Rightarrow> (string \<times> string) list option \<Rightarrow> (string \<Rightarrow> string) \<Rightarrow> (world, string) state" where
  "attachment_filename E filename contentType params header =
     (let name = given_filename filename params header in
      if name = [] then do {
        now \<leftarrow> time_Now E;
        ret (''attachment_'' @ dec_int (now div 1000000000) @ default_extension contentType) }
      else ret name)"

section \<open>Parsing\<close>

record parsed =
  pm_Text :: string
  pm_HTML :: string
  pm_Attachments :: "attachment list"
  pm_Data :: "bytes list"

definition nothing_parsed :: parsed where
  "nothing_parsed = \<lparr>pm_Text = [], pm_HTML = [], pm_Attachments = [], pm_Data = []\<rparr>"

text \<open>The body of the loop for one part; a part that cannot be read is skipped.\<close>

fun handle_part :: "ext \<Rightarrow> mime_part \<Rightarrow> parsed \<Rightarrow> (world, parsed) state" where
  "handle_part E (PartInline contentType content) p =
     ret (if HasPrefix contentType ''text/plain'' then p\<lparr>pm_Text := content\<rparr>
          else if HasPrefix contentType ''text/html'' then p\<lparr>pm_HTML := content\<rparr>
          else p)"
| "handle_part E (PartAttachment filename contentType params header content) p = do {
     name \<leftarrow> attachment_filename E filename contentType params header;
     case content of
       Inl _ \<Rightarrow> ret p
     | Inr data \<Rightarrow> do {
         i \<leftarrow> uuid_New E;
         ret (p\<lparr>pm_Attachments := pm_Attachments p @
                  [\<lparr>att_ID = i, att_MailID = [], att_Filename = name, att_ContentType = contentType,
                    att_SizeBytes = of_nat (length data), att_StoragePath = [], att_CreatedAt = 0\<rparr>],
                pm_Data := pm_Data p @ [data]\<rparr>) } }"
| "handle_part E (PartError _) p = ret p"
| "handle_part E PartEOF p = ret p"

text \<open>The loop: it ends at the first \<open>io.EOF\<close> and goes on after any other error.\<close>

partial_function (option) read_parts ::
  "ext \<Rightarrow> (nat \<Rightarrow> mime_part) \<Rightarrow> nat \<Rightarrow> parsed \<Rightarrow> world \<Rightarrow> (parsed \<times> world) option" where
  "read_parts E part n p w =
     (if part n = PartEOF then Some (p, w)
      else read_parts E part (Suc n) (fst (run_state (handle_part E (part n) p) w))
             (snd (run_state (handle_part E (part n) p) w)))"

definition saveAttachmentWithMailID ::
  "ext \<Rightarrow> config \<Rightarrow> uuid \<Rightarrow> string \<Rightarrow> bytes \<Rightarrow> (world, go_error + string) state" where
  "saveAttachmentWithMailID E cfg mailID filename data = do {
     r \<leftarrow> store_file E cfg mailID (Base filename) data;
     ret (case r of
            Inl (MkdirFailed e) \<Rightarrow> Inl (''failed to create attachment directory: '' @ e)
          | Inl (WriteFailed e) \<Rightarrow> Inl (''failed to write attachment file: '' @ e)
          | Inr storagePath \<Rightarrow> Inr storagePath) }"

text \<open>An attachment that cannot be stored keeps its entry, with no path.\<close>

fun save_parsed ::
  "ext \<Rightarrow> config \<Rightarrow> uuid \<Rightarrow> attachment list \<Rightarrow> bytes list \<Rightarrow> (world, attachment list) state" where
  "save_parsed E cfg mailID [] _ = ret []"
| "save_parsed E cfg mailID (a # as) [] = do {
     rest \<leftarrow> save_parsed E cfg mailID as [];
     ret (a\<lparr>att_MailID := mailID\<rparr> # rest) }"
| "save_parsed E cfg mailID (a # as) (d # ds) = do {
     r \<leftarrow> saveAttachmentWithMailID E cfg mailID (att_Filename a) d;
     rest \<leftarrow> save_parsed E cfg mailID as ds;
     ret ((case r of
             Inl _ \<Rightarrow> a\<lparr>att_MailID := mailID\<rparr>
           | Inr path \<Rightarrow> a\<lparr>att_MailID := mailID, att_StoragePath := path\<rparr>) # rest) }"

definition addresses :: "mime_reader \<Rightarrow> string \<Rightarrow> string list" where
  "addresses mr k = (case mr_AddressList mr k of Inl _ \<Rightarrow> [] | Inr as \<Rightarrow> as)"

definition envelope_from :: "smtp_session \<Rightarrow> mime_reader \<Rightarrow> string" where
  "envelope_from s mr =
     (if ss_from s = [] then (case addresses mr ''From'' of [] \<Rightarrow> [] | a # _ \<Rightarrow> a) else ss_from s)"

definition envelope_to :: "smtp_session \<Rightarrow> mime_reader \<Rightarrow> string list" where
  "envelope_to s mr = (if ss_to s = [] then addresses mr ''To'' else ss_to s)"

definition inbound_mail ::
  "uuid \<Rightarrow> string \<Rightarrow> string list \<Rightarrow> string list \<Rightarrow> string list \<Rightarrow> string \<Rightarrow> string \<Rightarrow> string \<Rightarrow>
   (string \<times> string) list \<Rightarrow> mail" where
  "inbound_mail i from tos cc bcc subject body html metadata =
     \<lparr>mail_ID = i, mail_FromAddress = from, mail_ToAddresses = tos, mail_CCAddresses = cc,
      mail_BCCAddresses = bcc, mail_Subject = subject, mail_Body = body, mail_HTML = html,
      mail_Status = MailStatusQueued, mail_RetryCount = 0, mail_ErrorMessage = [], mail_SentAt = None,
      mail_CreatedAt = 0, mail_UpdatedAt = 0, mail_ClientID = ''smtp-inbound'',
      mail_ClientName = ''SMTP Receiver'', mail_Metadata = metadata, mail_SenderConfigID = None,
      mail_Attachments = []\<rparr>"

definition createSimpleMailJob :: "ext \<Rightarrow> smtp_session \<Rightarrow> bytes \<Rightarrow> (world, mail) state" where
  "createSimpleMailJob E s rawContent = do {
     i \<leftarrow> uuid_New E;
     now \<leftarrow> time_Now E;
     ret (inbound_mail i (ss_from s) (ss_to s) [] [] ''(No Subject)'' rawContent []
       [(''raw_content'', ''true''), (''received_at'', x_rfc3339_local E now), (''source'', ''smtp-inbound'')]) }"

text \<open>From the parts to the mail, its attachments stored.\<close>

definition build_mail ::
  "ext \<Rightarrow> config \<Rightarrow> smtp_session \<Rightarrow> mime_reader \<Rightarrow> bytes \<Rightarrow> parsed \<Rightarrow> (world, mail) state" where
  "build_mail E cfg s mr buf p = do {
     let bodyText = (if pm_Text p = [] \<and> pm_HTML p = [] then buf else pm_Text p);
     mailID \<leftarrow> uuid_New E;
     now \<leftarrow> time_Now E;
     let m = inbound_mail mailID (envelope_from s mr) (envelope_to s mr) (addresses mr ''Cc'')
       (addresses mr ''Bcc'') (mr_Subject mr) bodyText (pm_HTML p)
       [(''received_at'', x_rfc3339_local E now), (''source'', ''smtp-inbound'')];
     attachments \<leftarrow> save_parsed E cfg mailID (pm_Attachments p) (pm_Data p);
     ret (m\<lparr>mail_Attachments := attachments\<rparr>) }"

text \<open>The parser never fails: what is no MIME message is a mail of plain text.\<close>

definition parseMailData ::
  "ext \<Rightarrow> config \<Rightarrow> smtp_session \<Rightarrow> bytes \<Rightarrow> world \<Rightarrow> (mail \<times> world) option" where
  "parseMailData E cfg s buf w =
     (case x_mime E buf of
        Inl _ \<Rightarrow> Some (run_state (createSimpleMailJob E s buf) w)
      | Inr mr \<Rightarrow>
          map_option (\<lambda>(p, w1). run_state (build_mail E cfg s mr buf p) w1)
            (read_parts E (mr_part mr) 0 nothing_parsed w))"

section \<open>Receiving\<close>

definition info_of_attachment :: "attachment \<Rightarrow> attachment_info" where
  "info_of_attachment att =
     \<lparr>ai_Filename = att_Filename att, ai_ContentType = att_ContentType att,
      ai_SizeBytes = att_SizeBytes att, ai_StoragePath = att_StoragePath att\<rparr>"

definition inbound_job :: "ext \<Rightarrow> mail \<Rightarrow> mail_job" where
  "inbound_job E m =
     \<lparr>job_MailID = x_uuid_string E (mail_ID m), job_FromAddress = mail_FromAddress m,
      job_ToAddresses = mail_ToAddresses m, job_CCAddresses = mail_CCAddresses m,
      job_BCCAddresses = mail_BCCAddresses m, job_Subject = mail_Subject m, job_Body = mail_Body m,
      job_HTML = mail_HTML m, job_Attachments = map info_of_attachment (mail_Attachments m),
      job_Metadata = mail_Metadata m, job_RetryCount = 0, job_SenderConfigID = []\<rparr>"

definition enqueue_mail :: "ext \<Rightarrow> config \<Rightarrow> mail \<Rightarrow> (world, go_error option) state" where
  "enqueue_mail E cfg m = do {
     r \<leftarrow> mails_Create E m;
     case r of
       Inl e \<Rightarrow> ret (Some (''failed to create mail record: '' @ gorm_text e))
     | Inr _ \<Rightarrow> do {
         err \<leftarrow> PublishMail E cfg (inbound_job E m);
         case err of
           Some e \<Rightarrow> do {
             ignore (mails_Update E (\<lambda>r. mail_ID r = mail_ID m)
               (\<lambda>t r. r\<lparr>mail_Status := MailStatusFailed\<rparr>));
             ret (Some (''failed to queue mail: '' @ e)) }
         | None \<Rightarrow> do {
             ignore (SetStatus E cfg (x_uuid_string E (mail_ID m)) ''queued'' 0 []);
             ret None } } }"

definition max_message_bytes :: "config \<Rightarrow> go_int" where
  "max_message_bytes cfg = co_SMTPMaxMessageSize cfg * 1024 * 1024"

definition too_long_text :: "go_int \<Rightarrow> go_int \<Rightarrow> string" where
  "too_long_text n limit =
     ''message too large: '' @ dec_int (sint n) @ '' bytes (max: '' @ dec_int (sint limit) @ '' bytes)''"

text \<open>\<open>Data\<close> on what reading the connection to its end gives.\<close>

definition Data ::
  "ext \<Rightarrow> config \<Rightarrow> smtp_session \<Rightarrow> go_error + bytes \<Rightarrow> world \<Rightarrow> (go_error option \<times> world) option" where
  "Data E cfg s input w =
     (case input of
        Inl e \<Rightarrow> Some (Some (''failed to read mail data: '' @ e), w)
      | Inr buf \<Rightarrow>
          (let size = of_nat (length buf) in
           if max_message_bytes cfg <s size then Some (Some (too_long_text size (max_message_bytes cfg)), w)
           else
             (case parseMailData E cfg s buf w of
                None \<Rightarrow> None
              | Some (m, w1) \<Rightarrow> Some (run_state (enqueue_mail E cfg m) w1))))"

section \<open>The server\<close>

record smtp_server =
  sv_Addr :: string
  sv_Domain :: string
  sv_ReadTimeout :: go_int
  sv_WriteTimeout :: go_int
  sv_MaxMessageBytes :: go_int
  sv_MaxRecipients :: nat
  sv_AllowInsecureAuth :: bool

text \<open>What \<open>Start\<close> hands to the SMTP library, and the error when listening ends with one.\<close>

definition server_settings :: "config \<Rightarrow> smtp_server" where
  "server_settings cfg =
     \<lparr>sv_Addr = '':'' @ co_SMTPInboundPort cfg, sv_Domain = ''mail-proxy.local'',
      sv_ReadTimeout = 30 * time_Second, sv_WriteTimeout = 30 * time_Second,
      sv_MaxMessageBytes = co_SMTPMaxMessageSize cfg * 1024 * 1024, sv_MaxRecipients = 50,
      sv_AllowInsecureAuth = True\<rparr>"

definition Server_Start :: "(smtp_server \<Rightarrow> go_error option) \<Rightarrow> config \<Rightarrow> go_error option" where
  "Server_Start listen cfg = map_option (\<lambda>e. ''SMTP server error: '' @ e) (listen (server_settings cfg))"

section \<open>The loop over the parts\<close>

text \<open>The reference: the body run over a list of parts.\<close>

fun handle_all :: "ext \<Rightarrow> mime_part list \<Rightarrow> parsed \<Rightarrow> (world, parsed) state" where
  "handle_all E [] p = ret p"
| "handle_all E (x # xs) p = do { q \<leftarrow> handle_part E x p; handle_all E xs q }"

lemma handle_all_Cons:
  "run_state (handle_all E (x # xs) p) w =
     run_state (handle_all E xs (fst (run_state (handle_part E x p) w))) (snd (run_state (handle_part E x p) w))"
  by (simp add: case_prod_unfold)

lemma read_parts_upto:
  "n \<le> k \<Longrightarrow> part k = PartEOF \<Longrightarrow> (\<forall>j. n \<le> j \<and> j < k \<longrightarrow> part j \<noteq> PartEOF) \<Longrightarrow>
   read_parts E part n p w = Some (run_state (handle_all E (map part [n..<k]) p) w)"
proof (induction "k - n" arbitrary: n p w)
  case 0
  then show ?case by (subst read_parts.simps) simp
next
  case (Suc d)
  then have lt: "n < k" by simp
  then have "part n \<noteq> PartEOF" using Suc.prems by simp
  then have "read_parts E part n p w = read_parts E part (Suc n) (fst (run_state (handle_part E (part n) p) w))
      (snd (run_state (handle_part E (part n) p) w))" by (subst read_parts.simps) simp
  also have "\<dots> = Some (run_state (handle_all E (map part [Suc n..<k])
      (fst (run_state (handle_part E (part n) p) w))) (snd (run_state (handle_part E (part n) p) w)))"
    using Suc lt by (intro Suc.hyps(1)) auto
  also have "\<dots> = Some (run_state (handle_all E (map part [n..<k]) p) w)"
    using lt by (simp only: upt_conv_Cons list.map handle_all_Cons)
  finally show ?case .
qed

lemma read_parts_ended:
  assumes "read_parts E part n p w = Some r"
  shows "\<exists>k\<ge>n. part k = PartEOF"
proof (rule read_parts.raw_induct [where P = "\<lambda>E part n p w r. \<exists>k\<ge>n. part k = PartEOF", OF _ assms])
  fix f E part n p w r
  assume IH: "\<And>E part n p w r. f E part n p w = Some r \<Longrightarrow> \<exists>k\<ge>n. part k = PartEOF"
    and eq: "(if part n = PartEOF then Some (p, w)
       else f E part (Suc n) (fst (run_state (handle_part E (part n) p) w))
              (snd (run_state (handle_part E (part n) p) w))) = Some r"
  show "\<exists>k\<ge>n. part k = PartEOF"
  proof (cases "part n = PartEOF")
    case False
    with eq IH have "\<exists>k\<ge>Suc n. part k = PartEOF" by (metis (no_types, lifting))
    then show ?thesis using Suc_leD by blast
  qed auto
qed

definition first_eof :: "(nat \<Rightarrow> mime_part) \<Rightarrow> nat" where
  "first_eof part = (LEAST k. part k = PartEOF)"

lemma read_parts_eof:
  assumes "part k = PartEOF"
  shows "read_parts E part 0 p w = Some (run_state (handle_all E (map part [0..<first_eof part]) p) w)"
proof (rule read_parts_upto)
  show "part (first_eof part) = PartEOF"
    unfolding first_eof_def using assms by (rule LeastI)
  show "\<forall>j. 0 \<le> j \<and> j < first_eof part \<longrightarrow> part j \<noteq> PartEOF"
    unfolding first_eof_def using not_less_Least by blast
qed simp

lemma read_parts_endless: "(\<And>n. part n \<noteq> PartEOF) \<Longrightarrow> read_parts E part n p w = None"
  using read_parts_ended by (metis not_None_eq)

text \<open>
  C25: the loop over the parts does what running its body over the parts up to the first end
  of input does, and it returns exactly when the reader reports an end at all: an error is
  skipped, so a reader that keeps failing keeps \<open>Data\<close> going for ever.
\<close>

theorem read_parts_reference:
  "read_parts E part 0 p w =
     (if \<exists>k. part k = PartEOF
      then Some (run_state (handle_all E (map part [0..<first_eof part]) p) w) else None)"
  using read_parts_eof read_parts_endless by (metis (full_types))

text \<open>
  C39: \<open>Data\<close> on a message within the size limit fails to return exactly when the message has
  a MIME structure whose reader never reports the end; it always returns on messages that are
  too long and on those that are no MIME message.
\<close>

theorem Data_returns:
  "(Data E cfg s (Inr buf) w = None) \<longleftrightarrow>
     \<not> max_message_bytes cfg <s of_nat (length buf)
     \<and> (\<exists>mr. x_mime E buf = Inr mr \<and> (\<forall>n. mr_part mr n \<noteq> PartEOF))"
proof (cases "x_mime E buf")
  case (Inl e)
  then show ?thesis by (simp add: Data_def parseMailData_def Let_def split: prod.splits)
next
  case (Inr mr)
  then show ?thesis
    by (cases "\<exists>k. mr_part mr k = PartEOF")
       (auto simp: Data_def parseMailData_def Let_def read_parts_eof read_parts_endless split: prod.splits)
qed

section \<open>Names and places of attachments\<close>

lemma default_extension_nonempty: "default_extension ct \<noteq> []"
  by (simp add: default_extension_def Let_def)

lemma attachment_filename_nonempty:
  "run_state (attachment_filename E f ct ps h) w = (name, w') \<Longrightarrow> name \<noteq> []"
  by (auto simp: attachment_filename_def Let_def split: if_splits)

text \<open>Every attachment that is read has a name.\<close>

definition names_given :: "parsed \<Rightarrow> bool" where
  "names_given p \<longleftrightarrow> list_all (\<lambda>a. att_Filename a \<noteq> []) (pm_Attachments p)
     \<and> length (pm_Data p) = length (pm_Attachments p)"

lemma handle_part_names:
  "names_given p \<Longrightarrow> names_given (fst (run_state (handle_part E x p) w))"
  by (cases x) (auto simp: names_given_def split: sum.splits prod.splits dest: attachment_filename_nonempty)

lemma handle_all_names:
  "names_given p \<Longrightarrow> names_given (fst (run_state (handle_all E xs p) w))"
  by (induction xs arbitrary: p w) (simp_all only: handle_all_Cons handle_part_names handle_all.simps(1), simp)

definition day_dir :: "ext \<Rightarrow> config \<Rightarrow> int \<Rightarrow> string" where
  "day_dir E cfg t = co_AttachmentPath cfg @ slash # date_path E t"

lemma stored_under_day: "stored_under E cfg t i = day_dir E cfg t @ slash # x_uuid_string E i"
  by (simp add: stored_under_def day_dir_def)

lemma day_dir_stack:
  assumes "co_AttachmentPath cfg \<noteq> []" and "plain_name (x_uuid_string E i)"
  shows "clean_stack (rooted (day_dir E cfg t)) (elements (day_dir E cfg t)) \<noteq> []"
proof -
  from date_path_elements obtain y m d where d: "date_path E t = y @ slash # m @ slash # d"
    "list_all plain_name [y, m, d]" by blast
  then have "elements (day_dir E cfg t) = elements (co_AttachmentPath cfg) @ [y, m, d]"
    by (simp add: day_dir_def elements_append elements_plain plain_name_def)
  with d show ?thesis by (simp add: clean_stack_append)
qed

lemma Clean_stored_under:
  assumes "co_AttachmentPath cfg \<noteq> []" and "plain_name (x_uuid_string E i)"
  shows "Clean (stored_under E cfg t i) = Clean (day_dir E cfg t) @ slash # x_uuid_string E i"
  unfolding stored_under_day
  by (rule Clean_snoc) (use assms day_dir_stack [OF assms] in \<open>auto simp: day_dir_def\<close>)

text \<open>The three names that \<open>Base\<close> can yield besides plain ones add nothing or go up one level.\<close>

lemma Clean_special:
  assumes "p \<noteq> []" and "clean_stack (rooted p) (elements p) \<noteq> []" and "plain_name e"
  shows "Clean ((p @ slash # e) @ slash # ''.'') = Clean (p @ slash # e)"
    "Clean ((p @ slash # e) @ slash # [slash]) = Clean (p @ slash # e)"
    "Clean ((p @ slash # e) @ slash # ''..'') = Clean p"
proof -
  have sep: "slash \<notin> set ''.''" "slash \<notin> set ''..''" by (simp_all add: slash_def)
  have root: "rooted ((p @ slash # e) @ q) = rooted p" for q using assms(1) by simp
  let ?st = "clean_stack (rooted p) (elements p)"
  have st: "clean_stack (rooted p) (elements (p @ slash # e)) = e # ?st"
    using clean_stack_snoc [OF assms(1,3)] assms(1) by simp
  have special: "elements ((p @ slash # e) @ slash # ''.'') = elements (p @ slash # e) @ [''.'']"
    "elements ((p @ slash # e) @ slash # ''..'') = elements (p @ slash # e) @ [''..'']"
    "elements ((p @ slash # e) @ slash # [slash]) = elements (p @ slash # e) @ [[], []]"
    using elements_append [of "p @ slash # e" "''.''"] elements_append [of "p @ slash # e" "''..''"]
      elements_append [of "p @ slash # e" "[slash]"] elements_append [of "[]" "[]"]
      elements_plain [OF sep(1)] elements_plain [OF sep(2)] elements_plain [of "[]"]
    by (simp_all only: append_Nil list.set empty_iff not_False_eq_True append.simps)
  show "Clean ((p @ slash # e) @ slash # ''.'') = Clean (p @ slash # e)"
    "Clean ((p @ slash # e) @ slash # [slash]) = Clean (p @ slash # e)"
    "Clean ((p @ slash # e) @ slash # ''..'') = Clean p"
    using assms(1,3) root [of "slash # ''.''"] root [of "slash # ''..''"] root [of "slash # [slash]"] root [of "[]"]
    unfolding Clean_def special
    by (simp_all add: clean_stack_append st clean_step_def plain_name_def)
qed

lemma Base_cases: "Base f \<in> {''.'', ''..'', [slash]} \<or> plain_name (Base f)"
  using Base_plain [of f] by blast

text \<open>
  C40: wherever the name of an SMTP attachment points, its file is written below the directory
  of the day: under the mail's own directory for every name whose last element is a plain one,
  and never outside for \<open>.\<close>, \<open>..\<close> and \<open>/\<close>. A failed write changes no file.
\<close>

theorem smtp_attachment_confined:
  assumes "co_AttachmentPath cfg \<noteq> []" and "plain_name (x_uuid_string E i)"
    and "run_state (saveAttachmentWithMailID E cfg i filename content) w = (r, w')"
  shows "(case r of
      Inl _ \<Rightarrow> files w' = files w
    | Inr path \<Rightarrow> files w' = (files w)(path \<mapsto> content)
        \<and> HasPrefix path (Clean (day_dir E cfg (x_clock E (ticks w))))
        \<and> (plain_name (Base filename) \<longrightarrow>
            path = Clean (day_dir E cfg (x_clock E (ticks w))) @ slash # x_uuid_string E i @ slash # Base filename))"
proof -
  let ?t = "x_clock E (ticks w)"
  let ?path = "storage_path E cfg ?t i (Base filename)" and ?day = "Clean (day_dir E cfg ?t)"
  have run: "r = Inr ?path \<and> files w' = (files w)(?path \<mapsto> content) \<or> (\<exists>e. r = Inl e) \<and> files w' = files w"
    using assms(3) by (auto simp: saveAttachmentWithMailID_def store_file_run Let_def split: option.splits)
  have plain: "?path = ?day @ slash # x_uuid_string E i @ slash # Base filename" if "plain_name (Base filename)"
    using storage_path_plain [OF assms(1,2) that] Clean_stored_under [OF assms(1,2)] by simp
  have day: "day_dir E cfg ?t \<noteq> []" by (simp add: day_dir_def)
  note special = Clean_special [OF day day_dir_stack [OF assms(1,2)] assms(2)]
  have "HasPrefix ?path ?day"
  proof (cases "plain_name (Base filename)")
    case True
    then show ?thesis by (simp add: plain)
  next
    case False
    with Base_cases [of filename] have "Base filename \<in> {''.'', ''..'', [slash]}" by blast
    then have "?path = Clean (stored_under E cfg ?t i) \<or> ?path = ?day"
      unfolding storage_path_Clean [OF assms(1)] stored_under_day using special by auto
    then show ?thesis using Clean_stored_under [OF assms(1,2)] HasPrefix_append [of ?day "[]"] by auto
  qed
  with run plain show ?thesis by auto
qed

theorem smtp_attachment_confined_witness:
  "\<exists>path. fst (run_state (saveAttachmentWithMailID sample_ext default_config ''m1'' ''../../etc/x'' ''hi'') sample_world)
     = Inr path \<and> Base ''../../etc/x'' = ''x'' \<and> HasPrefix path (Clean (day_dir sample_ext default_config 0))"
proof -
  let ?r = "run_state (saveAttachmentWithMailID sample_ext default_config ''m1'' ''../../etc/x'' ''hi'') sample_world"
  have "plain_name (x_uuid_string sample_ext ''m1'')" by (simp add: plain_name_def slash_def)
  moreover have "?r = (fst ?r, snd ?r)" by simp
  ultimately have c: "case fst ?r of Inl _ \<Rightarrow> files (snd ?r) = files sample_world
    | Inr path \<Rightarrow> files (snd ?r) = (files sample_world)(path \<mapsto> ''hi'')
        \<and> HasPrefix path (Clean (day_dir sample_ext default_config (x_clock sample_ext (ticks sample_world))))
        \<and> (plain_name (Base ''../../etc/x'') \<longrightarrow> path = Clean (day_dir sample_ext default_config
             (x_clock sample_ext (ticks sample_world))) @ slash # x_uuid_string sample_ext ''m1'' @ slash # Base ''../../etc/x'')"
    by (intro smtp_attachment_confined) simp_all
  have "\<exists>path. fst ?r = Inr path" by (simp add: saveAttachmentWithMailID_def store_file_run Let_def)
  moreover have "Base ''../../etc/x'' = ''x''" by code_simp
  ultimately show ?thesis using c by auto
qed

section \<open>Receiving: the cases\<close>

lemma parse_frames:
  "within (same but_files) (attachment_filename E f ct ps h)"
  "within (same but_files) (handle_part E x p)"
  "within (same but_files) (createSimpleMailJob E s buf)"
  "within (same but_files) (saveAttachmentWithMailID E cfg i f d)"
proof -
  show f: "within (same but_files) (attachment_filename E f ct ps h)" for f ct ps h
    unfolding attachment_filename_def by (intro frames same.rules) (simp add: same_def but_files_def)
  show "within (same but_files) (handle_part E x p)"
    by (cases x) (auto intro!: frames same.rules f simp: same_def but_files_def)
  show "within (same but_files) (createSimpleMailJob E s buf)"
    unfolding createSimpleMailJob_def by (intro frames same.rules; simp add: same_def but_files_def)
  show "within (same but_files) (saveAttachmentWithMailID E cfg i f d)"
    unfolding saveAttachmentWithMailID_def by (intro frames same.rules; simp add: same_def but_files_def)
qed

lemma handle_all_frame: "within (same but_files) (handle_all E xs p)"
  by (induction xs arbitrary: p) (auto intro!: same.rules parse_frames)

lemma save_parsed_frame: "within (same but_files) (save_parsed E cfg i as ds)"
  by (induction E cfg i as ds rule: save_parsed.induct) (auto intro!: same.rules parse_frames)

lemma build_mail_frame: "within (same but_files) (build_mail E cfg s mr buf p)"
  unfolding build_mail_def Let_def
  by (intro frames same.rules save_parsed_frame; simp add: same_def but_files_def)

lemma save_parsed_entries:
  "run_state (save_parsed E cfg i as ds) w = (as', w') \<Longrightarrow>
   map att_Filename as' = map att_Filename as \<and> map att_ID as' = map att_ID as
   \<and> list_all (\<lambda>a. att_MailID a = i) as'"
proof (induction E cfg i as ds arbitrary: w as' w' rule: save_parsed.induct)
  case (3 E cfg i a as d ds)
  obtain r w1 where r: "run_state (saveAttachmentWithMailID E cfg i (att_Filename a) d) w = (r, w1)" by fastforce
  obtain rest w2 where rest: "run_state (save_parsed E cfg i as ds) w1 = (rest, w2)" by fastforce
  from "3.prems" r rest "3.IH" [OF rest] show ?case by (auto split: sum.splits)
qed (fastforce split: prod.splits)+

text \<open>What the parser makes of a message, whatever its structure.\<close>

definition inbound :: "smtp_session \<Rightarrow> mail \<Rightarrow> bool" where
  "inbound s m \<longleftrightarrow> mail_Status m = MailStatusQueued \<and> mail_RetryCount m = 0
     \<and> mail_ClientID m = ''smtp-inbound'' \<and> mail_SenderConfigID m = None
     \<and> (ss_from s \<noteq> [] \<longrightarrow> mail_FromAddress m = ss_from s)
     \<and> (ss_to s \<noteq> [] \<longrightarrow> mail_ToAddresses m = ss_to s)
     \<and> list_all (\<lambda>a. att_Filename a \<noteq> [] \<and> att_MailID a = mail_ID m) (mail_Attachments m)"

lemma parseMailData_ok:
  assumes "parseMailData E cfg s buf w = Some (m, w')"
  shows "but_files w' = but_files w \<and> inbound s m"
proof (cases "x_mime E buf")
  case (Inl e)
  then have r: "run_state (createSimpleMailJob E s buf) w = (m, w')"
    using assms by (simp add: parseMailData_def)
  then have "inbound s m" by (auto simp: createSimpleMailJob_def inbound_def inbound_mail_def)
  with within_same [OF parse_frames(3) r] show ?thesis by simp
next
  case (Inr mr)
  then obtain p w1 where p: "read_parts E (mr_part mr) 0 nothing_parsed w = Some (p, w1)"
    and b: "run_state (build_mail E cfg s mr buf p) w1 = (m, w')"
    using assms by (auto simp: parseMailData_def)
  then have h: "run_state (handle_all E (map (mr_part mr) [0..<first_eof (mr_part mr)]) nothing_parsed) w = (p, w1)"
    using read_parts_ended [OF p] read_parts_eof [of "mr_part mr"] by fastforce
  have "names_given nothing_parsed" by (simp add: names_given_def nothing_parsed_def)
  from handle_all_names [OF this] h have names: "names_given p" by (metis fst_conv)
  from b obtain i as t w2 where a: "run_state (save_parsed E cfg i (pm_Attachments p) (pm_Data p)) w2 = (as, w')"
    and m: "mail_ID m = i" "mail_Attachments m = as" "inbound s (m\<lparr>mail_Attachments := []\<rparr>)"
    by (auto simp: build_mail_def Let_def inbound_def inbound_mail_def envelope_from_def envelope_to_def
        split: prod.splits)
  from save_parsed_entries [OF a] names have "list_all (\<lambda>a. att_Filename a \<noteq> []) as"
    by (auto simp: names_given_def list_all_iff) (metis (no_types, opaque_lifting) in_set_conv_nth length_map nth_map nth_mem)
  with save_parsed_entries [OF a] m have "inbound s m"
    by (auto simp: inbound_def list_all_iff)
  with within_same [OF handle_all_frame h] within_same [OF build_mail_frame b] show ?thesis by simp
qed

text \<open>The address in the \<open>From\<close> header, empty when there is none or the message is no mail.\<close>

definition header_from :: "ext \<Rightarrow> bytes \<Rightarrow> string" where
  "header_from E buf =
     (case x_mime E buf of
        Inl _ \<Rightarrow> []
      | Inr mr \<Rightarrow> (case addresses mr ''From'' of [] \<Rightarrow> [] | a # _ \<Rightarrow> a))"

lemma parseMailData_from:
  assumes "parseMailData E cfg s buf w = Some (m, w')"
  shows "mail_FromAddress m = (if ss_from s = [] then header_from E buf else ss_from s)"
proof (cases "x_mime E buf")
  case (Inl e)
  with assms show ?thesis
    by (auto simp: parseMailData_def createSimpleMailJob_def inbound_mail_def header_from_def)
next
  case (Inr mr)
  then obtain p w1 where b: "run_state (build_mail E cfg s mr buf p) w1 = (m, w')"
    using assms by (auto simp: parseMailData_def)
  have "mail_FromAddress (fst (run_state (build_mail E cfg s mr buf p) w1)) = envelope_from s mr"
    by (simp add: build_mail_def inbound_mail_def Let_def case_prod_unfold)
  with b Inr show ?thesis by (simp add: envelope_from_def header_from_def)
qed

lemma enqueue_mail_cases:
  assumes "run_state (enqueue_mail E cfg m) w = (r, w')"
  obtains
    (refused) e where "r = Some e" "mails w' = mails w" "broker w' = broker w"
  | (unqueued) e t where "r = Some e" "broker w' = broker w" "t_find mail_ID (mail_ID m) (mails w) = None"
      "mails w' = t_insert (stored_mail t m) (mails w)
       \<or> (\<exists>t'. mails w' = t_update (\<lambda>r. mail_ID r = mail_ID m)
             (\<lambda>r. r\<lparr>mail_Status := MailStatusFailed, mail_UpdatedAt := t'\<rparr>) (t_insert (stored_mail t m) (mails w)))"
  | (queued) t where "r = None" "t_find mail_ID (mail_ID m) (mails w) = None"
      "mails w' = t_insert (stored_mail t m) (mails w)"
      "broker w' = publish_to [] (plain_message (co_MailQueueName cfg) (inbound_job E m)) (broker w)"
      "status_written E cfg (x_uuid_string E (mail_ID m)) ''queued'' w w'"
proof -
  obtain c w1 where c: "run_state (mails_Create E m) w = (c, w1)" by fastforce
  show thesis
  proof (cases c)
    case (Inl e)
    with c have "mails w1 = mails w" "broker w1 = broker w"
      by (auto simp: mails_Create_run split: option.splits if_splits)
    with assms c Inl show thesis by (intro refused) (auto simp: enqueue_mail_def)
  next
    case (Inr m1)
    with c have w1: "mails w1 = t_insert (stored_mail (x_clock E (ticks w)) m) (mails w)"
        "broker w1 = broker w" "cache w1 = cache w" and new: "t_find mail_ID (mail_ID m) (mails w) = None"
      by (auto simp: mails_Create_run split: option.splits if_splits)
    show thesis
    proof (cases "x_mq E (ticks w1)")
      case None
      then obtain w2 where "run_state (PublishMail E cfg (inbound_job E m)) w1 = (None, w2)" "mails w2 = mails w1"
          "cache w2 = cache w1"
          "broker w2 = publish_to [] (plain_message (co_MailQueueName cfg) (inbound_job E m)) (broker w1)"
        by (simp add: PublishMail_run)
      moreover obtain z w3 where "run_state (SetStatus E cfg (x_uuid_string E (mail_ID m)) ''queued'' 0 []) w2 = (z, w3)"
        by fastforce
      moreover note SetStatus_store [OF this]
      ultimately show thesis using assms c Inr w1 new
        by (intro queued) (auto simp: enqueue_mail_def status_written_def)
    next
      case (Some e)
      obtain z w3 where u: "run_state (mails_Update E (\<lambda>r. mail_ID r = mail_ID m)
          (\<lambda>t r. r\<lparr>mail_Status := MailStatusFailed\<rparr>)) (w1\<lparr>ticks := Suc (ticks w1)\<rparr>) = (z, w3)" by fastforce
      with assms c Inr Some have "r = Some (''failed to queue mail: '' @ e)" "w' = w3"
        by (auto simp: enqueue_mail_def PublishMail_run)
      moreover note mails_Update_mails [OF u]
      ultimately show thesis using w1 new by (intro unqueued [where t = "x_clock E (ticks w)"]) auto
    qed
  qed
qed

section \<open>Receiving: properties\<close>

definition sample_session :: smtp_session where
  "sample_session = \<lparr>ss_from = ''a@b.org'', ss_to = [''c@d.org'']\<rparr>"

lemma sample_limit: "\<not> max_message_bytes default_config <s of_nat (length ''hi'')"
  by (simp add: max_message_bytes_def word_sless_alt)

lemma sample_parse:
  "\<exists>m w1. parseMailData sample_ext default_config s buf w = Some (m, w1)"
proof -
  obtain mr where mr: "x_mime sample_ext buf = Inr mr" "mr_part mr = (\<lambda>n. PartEOF)"
    by (simp add: sample_ext_def)
  then show ?thesis by (simp add: parseMailData_def read_parts_eof split: prod.splits)
qed

lemma sample_enqueue:
  "mails w = [] \<Longrightarrow> \<exists>w'. run_state (enqueue_mail sample_ext default_config m) w = (None, w')"
  by (simp add: enqueue_mail_def mails_Create_run PublishMail_run t_find_def)

lemma sample_data:
  "\<exists>w'. Data sample_ext default_config sample_session (Inr ''hi'') sample_world = Some (None, w')"
proof -
  obtain m w1 where p: "parseMailData sample_ext default_config sample_session ''hi'' sample_world = Some (m, w1)"
    using sample_parse by blast
  then have "mails w1 = []" using parseMailData_ok [OF p] by (auto dest: but_files_fields)
  from sample_enqueue [OF this] obtain w' where "run_state (enqueue_mail sample_ext default_config m) w1 = (None, w')" ..
  with p sample_limit show ?thesis by (simp add: Data_def Let_def del: list.size)
qed

lemma Data_accepted_ok:
  assumes "Data E cfg s (Inr buf) w = Some (None, w')"
  shows "\<exists>m t. inbound s m \<and> \<not> max_message_bytes cfg <s of_nat (length buf)
     \<and> t_find mail_ID (mail_ID m) (mails w) = None
     \<and> mails w' = t_insert (stored_mail t m) (mails w)
     \<and> broker w' = publish_to [] (plain_message (co_MailQueueName cfg) (inbound_job E m)) (broker w)
     \<and> job_SenderConfigID (inbound_job E m) = []"
proof -
  from assms obtain m w1 where m: "parseMailData E cfg s buf w = Some (m, w1)"
    and r: "run_state (enqueue_mail E cfg m) w1 = (None, w')" and small: "\<not> max_message_bytes cfg <s of_nat (length buf)"
    by (auto simp: Data_def Let_def split: if_splits option.splits)
  from parseMailData_ok [OF m] have w1: "mails w1 = mails w" "broker w1 = broker w" and i: "inbound s m"
    by (auto dest: but_files_fields)
  from r show ?thesis
  proof (cases rule: enqueue_mail_cases)
    case (queued t)
    with w1 i small show ?thesis by (intro exI [of _ m] exI [of _ t]) (simp add: inbound_job_def)
  qed simp_all
qed

lemma Data_accepted_from:
  assumes "Data E cfg s (Inr buf) w = Some (None, w')"
  shows "\<exists>row. mails w' = mails w @ [row]
     \<and> mail_FromAddress row = (if ss_from s = [] then header_from E buf else ss_from s)"
proof -
  from assms obtain m w1 where m: "parseMailData E cfg s buf w = Some (m, w1)"
    and r: "run_state (enqueue_mail E cfg m) w1 = (None, w')"
    by (auto simp: Data_def Let_def split: if_splits option.splits)
  from parseMailData_ok [OF m] have "mails w1 = mails w" by (auto dest: but_files_fields)
  with r parseMailData_from [OF m] show ?thesis
    by (cases rule: enqueue_mail_cases) (auto simp: t_insert_def stored_mail_def)
qed

text \<open>
  C16: a message that \<open>Data\<close> accepts (250 to the sender) was within the limit, is stored as one
  new queued row of the client \<open>smtp-inbound\<close> with the envelope's addresses and named
  attachments, and its job, which names no sender settings, is the one message published.
\<close>

theorem Data_accepted:
  assumes "Data E cfg s (Inr buf) w = Some (None, w')"
  shows "\<exists>m t. inbound s m \<and> \<not> max_message_bytes cfg <s of_nat (length buf)
     \<and> t_find mail_ID (mail_ID m) (mails w) = None
     \<and> mails w' = t_insert (stored_mail t m) (mails w)
     \<and> broker w' = publish_to [] (plain_message (co_MailQueueName cfg) (inbound_job E m)) (broker w)
     \<and> job_SenderConfigID (inbound_job E m) = []"
  using assms by (rule Data_accepted_ok)

theorem Data_accepted_witness:
  "\<exists>w'. Data sample_ext default_config sample_session (Inr ''hi'') sample_world = Some (None, w')
     \<and> length (mails w') = 1 \<and> mail_FromAddress (hd (mails w')) = ''a@b.org''"
proof -
  obtain w' where d: "Data sample_ext default_config sample_session (Inr ''hi'') sample_world = Some (None, w')"
    using sample_data ..
  from Data_accepted [OF d] show ?thesis
    using d by (auto simp: t_insert_def inbound_def stored_mail_def sample_session_def)
qed

text \<open>
  A message that \<open>Data\<close> refuses reaches no queue, and every row that was there before is
  as it was; at most one row is new, \<open>queued\<close> or \<open>failed\<close>.
\<close>

lemma Data_refused:
  assumes "Data E cfg s input w = Some (Some e, w')"
  shows "broker w' = broker w
     \<and> (\<exists>i m. \<forall>k. t_find mail_ID k (mails w') = t_find mail_ID k (mails w)
          \<or> (k = i \<and> t_find mail_ID k (mails w) = None \<and> t_find mail_ID k (mails w') = Some m
             \<and> mail_Status m \<in> {MailStatusQueued, MailStatusFailed}))"
proof (cases "\<exists>buf m w1. input = Inr buf \<and> parseMailData E cfg s buf w = Some (m, w1)
    \<and> run_state (enqueue_mail E cfg m) w1 = (Some e, w')")
  case False
  with assms have "w' = w"
    by (auto simp: Data_def Let_def split: sum.splits if_splits option.splits)
  then show ?thesis by simp
next
  case True
  then obtain buf m w1 where m: "parseMailData E cfg s buf w = Some (m, w1)"
    and r: "run_state (enqueue_mail E cfg m) w1 = (Some e, w')" by blast
  from parseMailData_ok [OF m] have w1: "mails w1 = mails w" "broker w1 = broker w" and i: "inbound s m"
    by (auto dest: but_files_fields)
  from r show ?thesis
  proof (cases rule: enqueue_mail_cases)
    case (unqueued e' t)
    let ?i = "mail_ID m" and ?row = "stored_mail t m"
    have "mail_ID ?row = ?i" "mail_Status ?row = MailStatusQueued" using i by (simp_all add: stored_mail_def inbound_def)
    from queued_or_failed [OF unqueued(4) unqueued(3) this] w1 unqueued(2,3) show ?thesis by (metis (no_types, lifting))
  qed (use w1 in simp_all)
qed

lemma Data_refused_witness:
  "\<exists>e w'. Data sample_ext default_config sample_session (Inl ''reset'') sample_world = Some (Some e, w')
     \<and> broker w' = sample_broker"
proof -
  have d: "Data sample_ext default_config sample_session (Inl ''reset'') sample_world
     = Some (Some (''failed to read mail data: '' @ ''reset''), sample_world)" by (simp add: Data_def)
  from Data_refused [OF d] d show ?thesis by (intro exI conjI) (assumption, simp)
qed

section \<open>Who may send\<close>

text \<open>The sessions that the commands can produce, in any order and with any arguments.\<close>

inductive smtp_reach :: "ext \<Rightarrow> config \<Rightarrow> smtp_session \<Rightarrow> bool" for E cfg where
  connected: "smtp_reach E cfg NewSession"
| mail_from: "smtp_reach E cfg s \<Longrightarrow> Mail E cfg arg s = (r, s') \<Longrightarrow> smtp_reach E cfg s'"
| rcpt_to: "smtp_reach E cfg s \<Longrightarrow> Rcpt arg s = (r, s') \<Longrightarrow> smtp_reach E cfg s'"
| reset: "smtp_reach E cfg s \<Longrightarrow> smtp_reach E cfg (Reset s)"

text \<open>The same by the list of the commands, the first one first.\<close>

datatype smtp_command = MAIL string | RCPT string | RSET

fun command :: "ext \<Rightarrow> config \<Rightarrow> smtp_command \<Rightarrow> smtp_session \<Rightarrow> smtp_session" where
  "command E cfg (MAIL arg) s = snd (Mail E cfg arg s)"
| "command E cfg (RCPT arg) s = snd (Rcpt arg s)"
| "command E cfg RSET s = Reset s"

lemma command_reach: "smtp_reach E cfg s \<Longrightarrow> smtp_reach E cfg (command E cfg c s)"
  by (cases c) (auto intro: smtp_reach.reset smtp_reach.mail_from smtp_reach.rcpt_to prod.collapse [symmetric])

lemma smtp_reach_commands: "smtp_reach E cfg s \<longleftrightarrow> (\<exists>cs. s = fold (command E cfg) cs NewSession)"
proof
  assume "smtp_reach E cfg s"
  then show "\<exists>cs. s = fold (command E cfg) cs NewSession"
  proof induction
    case connected
    show ?case by (intro exI [of _ "[]"]) simp
  next
    case (mail_from s arg r s')
    then obtain cs where "s = fold (command E cfg) cs NewSession" by blast
    with mail_from(2) show ?case by (intro exI [of _ "cs @ [MAIL arg]"]) simp
  next
    case (rcpt_to s arg r s')
    then obtain cs where "s = fold (command E cfg) cs NewSession" by blast
    with rcpt_to(2) show ?case by (intro exI [of _ "cs @ [RCPT arg]"]) simp
  next
    case (reset s)
    then obtain cs where "s = fold (command E cfg) cs NewSession" by blast
    then show ?case by (intro exI [of _ "cs @ [RSET]"]) simp
  qed
next
  have "smtp_reach E cfg s \<Longrightarrow> smtp_reach E cfg (fold (command E cfg) cs s)" for s cs
    by (induction cs arbitrary: s) (simp_all add: command_reach)
  then show "\<exists>cs. s = fold (command E cfg) cs NewSession \<Longrightarrow> smtp_reach E cfg s"
    by (auto intro: smtp_reach.connected)
qed

text \<open>
  The sender of the last \<open>MAIL\<close> that the allow-list admitted since the last \<open>RSET\<close>: what the
  protocol says the sender of the next message is.
\<close>

definition next_sender :: "ext \<Rightarrow> config \<Rightarrow> smtp_command \<Rightarrow> string option \<Rightarrow> string option" where
  "next_sender E cfg c sender =
     (case c of
        MAIL arg \<Rightarrow> if sender_allowed E cfg (cleanEmail arg) then Some (cleanEmail arg) else sender
      | RCPT _ \<Rightarrow> sender
      | RSET \<Rightarrow> None)"

definition admitted_sender :: "ext \<Rightarrow> config \<Rightarrow> smtp_command list \<Rightarrow> string option" where
  "admitted_sender E cfg cs = fold (next_sender E cfg) cs None"

lemma session_sender:
  "ss_from (fold (command E cfg) cs NewSession) = (case admitted_sender E cfg cs of None \<Rightarrow> [] | Some a \<Rightarrow> a)
   \<and> (\<forall>a. admitted_sender E cfg cs = Some a \<longrightarrow> sender_allowed E cfg a)"
  unfolding admitted_sender_def
proof (induction cs rule: rev_induct)
  case Nil
  show ?case by (simp add: NewSession_def)
next
  case (snoc c cs)
  then show ?case
    by (cases c) (auto simp: next_sender_def Mail_def Rcpt_def Reset_def Let_def split: option.splits)
qed

text \<open>An allow-list that admits the null sender admits everybody.\<close>

lemma null_sender: "sender_allowed E cfg [] \<Longrightarrow> sender_allowed E cfg a"
proof -
  have "HasSuffix (ToLower L []) d \<Longrightarrow> HasSuffix b d" for L d b
    by (simp add: ToLower_def is_ascii_def HasSuffix_def)
  then show "sender_allowed E cfg [] \<Longrightarrow> sender_allowed E cfg a"
    unfolding sender_allowed_def list_ex_iff by blast
qed

text \<open>
  C26: whatever commands came before, in any order, the sender a message is stored under is told
  by them. When a \<open>MAIL\<close> was admitted since the last \<open>RSET\<close>, it is the address of the last such
  \<open>MAIL\<close> (or, for the null sender, the one in the header), and the allow-list admits it. When
  none was, it is the address in the header of the message, which nobody has checked: the guard
  is then only that the library refuses \<open>DATA\<close> before \<open>MAIL\<close>.
\<close>

theorem inbound_sender_allowed:
  assumes "s = fold (command E cfg) cs NewSession" and "Data E cfg s (Inr buf) w = Some (None, w')"
  shows "\<exists>row. mails w' = mails w @ [row] \<and>
     (case admitted_sender E cfg cs of
        Some a \<Rightarrow> mail_FromAddress row = (if a = [] then header_from E buf else a)
          \<and> sender_allowed E cfg (mail_FromAddress row)
      | None \<Rightarrow> mail_FromAddress row = header_from E buf)"
proof -
  obtain row where row: "mails w' = mails w @ [row]"
    "mail_FromAddress row = (if ss_from s = [] then header_from E buf else ss_from s)"
    using Data_accepted_from [OF assms(2)] by blast
  show ?thesis
  proof (cases "admitted_sender E cfg cs")
    case None
    then have "ss_from s = []" using session_sender [of E cfg cs] assms(1) by simp
    with row None show ?thesis by simp
  next
    case (Some a)
    then have a: "ss_from s = a" "sender_allowed E cfg a" using session_sender [of E cfg cs] assms(1) by simp_all
    then have "sender_allowed E cfg (mail_FromAddress row)" using row(2) null_sender [of E cfg] by (cases "a = []") auto
    with row Some a(1) show ?thesis by simp
  qed
qed

theorem inbound_sender_allowed_witness:
  "\<exists>w' row. Data sample_ext default_config sample_session (Inr ''hi'') sample_world = Some (None, w')
     \<and> mails w' = [row] \<and> mail_FromAddress row = ''a@b.org'' \<and> sender_allowed sample_ext default_config ''a@b.org''"
proof -
  let ?cs = "[MAIL ''<x@y.org>'', RSET, MAIL ''<a@b.org>'', RCPT ''c@d.org'']"
  have clean: "cleanEmail ''<x@y.org>'' = ''x@y.org''" "cleanEmail ''<a@b.org>'' = ''a@b.org''" "cleanEmail ''c@d.org'' = ''c@d.org''"
    by code_simp+
  then have s: "sample_session = fold (command sample_ext default_config) ?cs NewSession"
    and a: "admitted_sender sample_ext default_config ?cs = Some ''a@b.org''"
    by (simp_all add: Mail_def Rcpt_def Reset_def NewSession_def sample_session_def sender_allowed_def
        admitted_sender_def next_sender_def)
  obtain w' where d: "Data sample_ext default_config sample_session (Inr ''hi'') sample_world = Some (None, w')"
    using sample_data ..
  from inbound_sender_allowed [OF s d] a d show ?thesis by auto
qed

section \<open>The size limit\<close>

text \<open>
  With a limit between 0 and 2 to the 43 megabytes the 64-bit product is exact and a
  message is refused for its size exactly when it has more bytes; at 2 to the 43 the product
  wraps round to the least negative number, and every message is refused.
\<close>

lemma Data_size_limit:
  assumes "length buf < 2 ^ 63" and "0 \<le> n" and "n \<le> 2 ^ 43" and "co_SMTPMaxMessageSize cfg = of_int n"
  shows "if n = 2 ^ 43 then \<exists>e. Data E cfg s (Inr buf) w = Some (Some e, w)
     else if n * 1048576 < int (length buf)
       then Data E cfg s (Inr buf) w = Some (Some (too_long_text (of_nat (length buf)) (max_message_bytes cfg)), w)
     else Data E cfg s (Inr buf) w =
       map_option (\<lambda>(m, w1). run_state (enqueue_mail E cfg m) w1) (parseMailData E cfg s buf w)"
proof -
  have len: "sint (of_nat (length buf) :: go_int) = int (length buf)"
    using assms(1) sint_sbintrunc' [where 'a = 64, of "int (length buf)"] by (simp add: signed_take_bit_int_eq_self)
  have prod: "max_message_bytes cfg = (word_of_int (n * 1048576) :: go_int)"
    by (simp add: max_message_bytes_def assms(4) mult.assoc)
  have "sint (max_message_bytes cfg) = (if n = 2 ^ 43 then - (2 ^ 63) else n * 1048576)"
  proof (cases "n = 2 ^ 43")
    case True
    then show ?thesis by (simp add: prod)
  next
    case False
    with assms(2,3) have "signed_take_bit 63 (n * 1048576) = n * 1048576"
      by (intro signed_take_bit_int_eq_self) auto
    with False show ?thesis by (simp only: prod sint_sbintrunc') simp
  qed
  then show ?thesis
    by (auto simp: Data_def Let_def word_sless_alt len split: option.splits)
qed

lemma Data_size_limit_witness:
  "\<exists>e. Data sample_ext (default_config\<lparr>co_SMTPMaxMessageSize := of_int (2 ^ 43)\<rparr>) sample_session (Inr []) sample_world
     = Some (Some e, sample_world)"
  using Data_size_limit [of "[]" "2 ^ 43" "default_config\<lparr>co_SMTPMaxMessageSize := of_int (2 ^ 43)\<rparr>" sample_ext
      sample_session sample_world] by simp

end
