(* ===== verification/System.thy ===== *)
theory System
  imports Routes Worker Smtp "HOL-Library.Option_ord"
begin

text \<open>
  The three processes of \<open>cmd/\<close> on their shared state. A step is one HTTP request, one SMTP
  message, one delivery handled by the worker, one retry goroutine that wakes up, or the
  signal to stop. Steps of different processes come in any order; a step itself is not
  interleaved with others. The invariant relates the rows of the mails to the jobs that wait
  in the mail queue and in the timers of the worker.
\<close>

section \<open>Steps\<close>

text \<open>The next message of the mail queue is delivered to the worker and handled.\<close>

definition work_step :: "ext \<Rightarrow> config \<Rightarrow> world \<Rightarrow> world option" where
  "work_step E cfg w =
     (case deliver (co_MailQueueName cfg) (broker w) of
        None \<Rightarrow> None
      | Some (d, b) \<Rightarrow>
          Some (snd (run_state (process_delivery E (worker_consumer E cfg) d) (w\<lparr>broker := b\<rparr>))))"

inductive worker_step :: "ext \<Rightarrow> config \<Rightarrow> world \<Rightarrow> world \<Rightarrow> bool" for E cfg where
  work: "work_step E cfg w = Some w' \<Longrightarrow> worker_step E cfg w w'"
| wake: "i < length (timers w) \<Longrightarrow> run_state (fire_retry E cfg i) w = ((), w') \<Longrightarrow> worker_step E cfg w w'"

inductive sys_step :: "ext \<Rightarrow> config \<Rightarrow> world \<Rightarrow> world \<Rightarrow> bool" for E cfg where
  api: "run_state (serve E cfg (sender_service cfg) ep rq) w = (answer, w') \<Longrightarrow> sys_step E cfg w w'"
| smtp: "smtp_reach E cfg s \<Longrightarrow> Data E cfg s input w = Some (r, w') \<Longrightarrow> sys_step E cfg w w'"
| worker: "worker_step E cfg w w' \<Longrightarrow> sys_step E cfg w w'"
| stop: "run_state shutdown_begin w = ((), w') \<Longrightarrow> sys_step E cfg w w'"

text \<open>The state the services start from: the queues declared and empty, no mail yet.\<close>

definition fresh :: "config \<Rightarrow> world \<Rightarrow> bool" where
  "fresh cfg w \<longleftrightarrow> topology cfg (broker w) \<and> waiting w (co_MailQueueName cfg) = []
     \<and> bk_unacked (broker w) = [] \<and> mails w = [] \<and> timers w = []"

inductive sys_reach :: "ext \<Rightarrow> config \<Rightarrow> world \<Rightarrow> bool" for E cfg where
  start: "fresh cfg w \<Longrightarrow> sys_reach E cfg w"
| step: "sys_reach E cfg w \<Longrightarrow> sys_step E cfg w w' \<Longrightarrow> sys_reach E cfg w'"

inductive_cases work_stepE: "worker_step E cfg w w'"

section \<open>The books\<close>

text \<open>The mail identifiers of the jobs that wait: in the mail queue, then in the timers.\<close>

definition msg_mail_id :: "message \<Rightarrow> string option" where
  "msg_mail_id m = map_option job_MailID (unmarshal_job (msg_Body m))"

definition pending_ids :: "config \<Rightarrow> world \<Rightarrow> string option list" where
  "pending_ids cfg w = map msg_mail_id (waiting w (co_MailQueueName cfg))
     @ map (\<lambda>t. Some (job_MailID (snd t))) (timers w)"

definition pending :: "ext \<Rightarrow> config \<Rightarrow> world \<Rightarrow> uuid \<Rightarrow> nat" where
  "pending E cfg w i =
     count_list (map (\<lambda>x. Option.bind x (x_pg_uuid E)) (pending_ids cfg w)) (Some i)"

text \<open>How many pending jobs a mail has, by its status.\<close>

fun pending_ok :: "mail_status option \<Rightarrow> nat \<Rightarrow> bool" where
  "pending_ok None n \<longleftrightarrow> n = 0"
| "pending_ok (Some MailStatusQueued) n \<longleftrightarrow> n = 1"
| "pending_ok (Some MailStatusProcessing) n \<longleftrightarrow> n = 1"
| "pending_ok (Some MailStatusSent) n \<longleftrightarrow> n = 0"
| "pending_ok (Some MailStatusFailed) n \<longleftrightarrow> n = 0"
| "pending_ok (Some MailStatusCancelled) n \<longleftrightarrow> n \<le> 1"

definition names_mail :: "ext \<Rightarrow> string option \<Rightarrow> bool" where
  "names_mail E x \<longleftrightarrow> (\<exists>s. x = Some s \<and> is_ascii s \<and> x_pg_uuid E s \<noteq> None)"

definition sys_inv :: "ext \<Rightarrow> config \<Rightarrow> world \<Rightarrow> bool" where
  "sys_inv E cfg w \<longleftrightarrow>
     t_keys_unique mail_ID (mails w)
     \<and> declared (co_MailQueueName cfg) w \<and> declared (co_FailedQueueName cfg) w
     \<and> bk_unacked (broker w) = []
     \<and> list_all (names_mail E) (pending_ids cfg w)
     \<and> (\<forall>i. pending_ok (row_status i w) (pending E cfg w i))"

text \<open>What is assumed of identifiers: they print as plain text that denotes them in SQL.\<close>

definition printed_ids :: "ext \<Rightarrow> bool" where
  "printed_ids E \<longleftrightarrow> (\<forall>i. is_ascii (x_uuid_string E i) \<and> x_pg_uuid E (x_uuid_string E i) = Some i)"

lemma sys_inv_books:
  "mails w' = mails w \<Longrightarrow> broker w' = broker w \<Longrightarrow> timers w' = timers w \<Longrightarrow>
   sys_inv E cfg w' = sys_inv E cfg w"
  by (simp add: sys_inv_def declared_def pending_ids_def pending_def waiting_def row_status_def)

lemma sys_inv_fresh: "fresh cfg w \<Longrightarrow> sys_inv E cfg w"
  by (auto simp: fresh_def sys_inv_def topology_def t_keys_unique_def declared_def pending_ids_def
      pending_def row_status_def t_find_def)

lemma publish_pending:
  assumes "declared (co_MailQueueName cfg) w" and "is_ascii (job_MailID job)"
    and "broker w' = publish_to [] m (broker w)" and "msg_RoutingKey m = co_MailQueueName cfg"
    and "msg_Body m = Json (marshal_job job)"
  shows "waiting w' (co_MailQueueName cfg) = waiting w (co_MailQueueName cfg) @ [m]"
    and "msg_mail_id m = Some (job_MailID job)"
proof -
  show "waiting w' (co_MailQueueName cfg) = waiting w (co_MailQueueName cfg) @ [m]"
    using assms(1,3,4) by (simp add: waiting_def declared_def publish_default)
  have "to_valid_utf8 (job_MailID job) = job_MailID job" using assms(2) by simp
  with unmarshal_total [of job] show "msg_mail_id m = Some (job_MailID job)"
    by (auto simp: msg_mail_id_def assms(5))
qed

section \<open>New mails\<close>

lemma sys_inv_new:
  assumes inv: "sys_inv E cfg w" and E: "printed_ids E" and new: "t_find mail_ID i (mails w) = None"
    and row: "mails w' = t_insert row (mails w)" "mail_ID row = i" "mail_Status row = MailStatusQueued"
    and pub: "broker w' = publish_to [] (plain_message (co_MailQueueName cfg) job) (broker w)"
    and job: "job_MailID job = x_uuid_string E i" and ts: "timers w' = timers w"
  shows "sys_inv E cfg w'"
proof -
  let ?m = "plain_message (co_MailQueueName cfg) job"
  have decl: "declared (co_MailQueueName cfg) w" using inv by (simp add: sys_inv_def)
  have asc: "is_ascii (job_MailID job)" and id: "x_pg_uuid E (job_MailID job) = Some i"
    using E by (simp_all add: job printed_ids_def)
  note q = publish_pending [OF decl asc pub, simplified plain_message_def message.simps, OF refl refl,
      folded plain_message_def]
  have ids: "pending E cfg w' k = pending E cfg w k + (if k = i then 1 else 0)" for k
    using q id by (simp add: pending_def pending_ids_def ts)
  have names: "list_all (names_mail E) (pending_ids cfg w')"
    using inv q asc id by (simp add: sys_inv_def pending_ids_def ts names_mail_def)
  have row': "row_status k w' = (if k = i then Some MailStatusQueued else row_status k w)" for k
    using new row by (simp add: row_status_def mail_rows.find_add)
  have "pending E cfg w i = 0"
    using inv new by (auto simp: sys_inv_def row_status_def dest!: spec [of _ i])
  then have "pending_ok (row_status k w') (pending E cfg w' k)" for k
    using inv by (simp add: row' ids sys_inv_def)
  moreover have "t_keys_unique mail_ID (mails w')"
    using inv new row by (simp add: sys_inv_def t_insert_unique t_find_None)
  ultimately show ?thesis using inv names by (simp add: sys_inv_def declared_def pub)
qed

lemma accept_mail_up: "up E \<Longrightarrow> fst (run_state (accept_mail E cfg m atts) w) \<noteq> Inl QueueFailed"
  by (auto simp: accept_mail_def PublishMail_run up_def split: prod.splits sum.splits)

lemma enqueue_mail_up:
  assumes "up E" and "run_state (enqueue_mail E cfg m) w = (r, w')"
  obtains "mails w' = mails w" "broker w' = broker w" "timers w' = timers w" "is_shutdown w' = is_shutdown w"
  | t where "t_find mail_ID (mail_ID m) (mails w) = None" "mails w' = t_insert (stored_mail t m) (mails w)"
      "broker w' = publish_to [] (plain_message (co_MailQueueName cfg) (inbound_job E m)) (broker w)"
      "timers w' = timers w" "is_shutdown w' = is_shutdown w"
proof -
  have "within (same timers) (enqueue_mail E cfg m)" "within (same is_shutdown) (enqueue_mail E cfg m)"
    unfolding enqueue_mail_def by (intro frames same.rules; simp add: same_def)+
  note ts = within_same [OF this(1) assms(2)] within_same [OF this(2) assms(2)]
  from assms(2) show thesis
  proof (cases rule: enqueue_mail_cases)
    case (unqueued e t)
    then have "mails w' \<noteq> mails w" by (auto simp: t_insert_def t_update_def dest: arg_cong [of _ _ length])
    with assms ts unqueued show thesis
      by (auto simp: enqueue_mail_def PublishMail_run mails_Create_run up_def split: if_splits)
  qed (use that ts in blast)+
qed

lemma accept_mail_keeps:
  assumes "up E" and "printed_ids E" and "mail_Status m = MailStatusQueued"
  shows "within (kept (sys_inv E cfg)) (accept_mail E cfg m atts)"
proof
  fix w
  obtain r w' where a: "run_state (accept_mail E cfg m atts) w = (r, w')" by fastforce
  have "within (same (untouched EP_Send)) (accept_mail E cfg m atts)" by (rule accept_within) simp
  from arg_cong [OF within_same [OF this a], of timers] have ts: "timers w' = timers w" by simp
  have "sys_inv E cfg w'" if inv: "sys_inv E cfg w"
    using a
  proof (cases rule: accept_mail_cases)
    case (refused e)
    with ts inv sys_inv_books [of w' w] show ?thesis by simp
  next
    case (unqueued saved t)
    with accept_mail_up [OF assms(1), of cfg m atts w] a show ?thesis by simp
  next
    case (queued saved t)
    show ?thesis
      by (rule sys_inv_new [OF inv assms(2) queued(3,4) _ _ queued(5) _ ts])
        (simp_all add: stored_mail_def job_of_mail_def assms(3))
  qed
  then show "kept (sys_inv E cfg) w (snd (run_state (accept_mail E cfg m atts) w))"
    by (simp add: kept_def a)
qed

text \<open>A message received by SMTP leaves the books alone or adds one mail with its job.\<close>

lemma Data_up:
  assumes "up E" and "Data E cfg s input w = Some (r, w')"
  obtains "mails w' = mails w" "broker w' = broker w" "timers w' = timers w" "is_shutdown w' = is_shutdown w"
  | m t where "inbound s m" "t_find mail_ID (mail_ID m) (mails w) = None"
      "mails w' = t_insert (stored_mail t m) (mails w)"
      "broker w' = publish_to [] (plain_message (co_MailQueueName cfg) (inbound_job E m)) (broker w)"
      "timers w' = timers w" "is_shutdown w' = is_shutdown w"
proof (cases "\<exists>buf m w1. input = Inr buf \<and> parseMailData E cfg s buf w = Some (m, w1)
    \<and> run_state (enqueue_mail E cfg m) w1 = (r, w')")
  case False
  with assms(2) have "w' = w" by (auto simp: Data_def Let_def split: sum.splits if_splits option.splits)
  with that(1) show thesis by simp
next
  case True
  then obtain buf m w1 where m: "parseMailData E cfg s buf w = Some (m, w1)"
    and e: "run_state (enqueue_mail E cfg m) w1 = (r, w')" by blast
  from parseMailData_ok [OF m] have f: "but_files w1 = but_files w" and i: "inbound s m" by simp_all
  have "timers w1 = timers w" "is_shutdown w1 = is_shutdown w"
    using arg_cong [OF f, of timers] arg_cong [OF f, of is_shutdown] by (simp_all add: but_files_def)
  with but_files_fields [OF f] have w1: "mails w1 = mails w" "broker w1 = broker w" "timers w1 = timers w"
    "is_shutdown w1 = is_shutdown w" by simp_all
  from assms(1) e show thesis
    by (cases rule: enqueue_mail_up) (use w1 i in \<open>simp_all add: that\<close>)
qed

lemma Data_keeps:
  assumes "up E" and "printed_ids E" and inv: "sys_inv E cfg w" and "Data E cfg s input w = Some (r, w')"
  shows "sys_inv E cfg w'"
  using assms(1,4)
proof (cases rule: Data_up)
  case 1
  with inv sys_inv_books [of w' w] show ?thesis by simp
next
  case (2 m t)
  show ?thesis
    by (rule sys_inv_new [OF inv assms(2) 2(2,3) _ _ 2(4) _ 2(5)])
      (use 2(1) in \<open>simp_all add: stored_mail_def inbound_job_def inbound_def\<close>)
qed

section \<open>Requests\<close>

lemma ticked_inv: "ticked (kept (sys_inv E cfg))"
  by (simp add: kept_def sys_inv_books [of "w\<lparr>ticks := n\<rparr>" w for w n])

lemma send_keeps:
  assumes "up E" and "printed_ids E"
  shows "within (kept (sys_inv E cfg)) (Send E cfg svc ctx body)"
    and "within (kept (sys_inv E cfg)) (SendBatch E cfg ctx body)"
  unfolding Send_def SendBatch_def processSingleMail_def prod.case
  by (intro frames kept.rules outcome_within accept_mail_keeps [OF assms] read_within ticked_inv
      kept.frame_rel_axioms; simp add: new_mail_def)+

lemma Cancel_keeps:
  assumes "up E"
  shows "within (kept (sys_inv E cfg)) (Cancel E cfg ctx s)"
proof
  fix w
  obtain answer w' where c: "run_state (Cancel E cfg ctx s) w = (answer, w')" by fastforce
  from arg_cong [OF within_same [OF mail_within(3) c], of timers] have ts: "timers w' = timers w" by simp
  have "within (kept (\<lambda>w. t_keys_unique mail_ID (mails w))) (Cancel E cfg ctx s)"
    unfolding Cancel_def by (intro frames kept.rules; simp add: kept_def t_update_unique)
  note uniq = within_kept [OF this _ c]
  have "sys_inv E cfg w'" if inv: "sys_inv E cfg w"
  proof -
    have u: "t_keys_unique mail_ID (mails w)" using inv by (simp add: sys_inv_def)
    note out = Cancel_ok [OF assms u c]
    show ?thesis
    proof (cases "case own_mail E ctx s w of Some m \<Rightarrow> mail_Status m = MailStatusQueued | None \<Rightarrow> False")
      case False
      with out have "but_ticks w' = but_ticks w" by (auto split: option.splits if_splits)
      with ts inv but_ticks_fields [OF this] sys_inv_books [of w' w] show ?thesis by simp
    next
      case True
      then obtain m where m: "own_mail E ctx s w = Some m" "mail_Status m = MailStatusQueued"
        by (auto split: option.splits)
      then have row: "row_status (mail_ID m) w = Some MailStatusQueued"
        by (auto simp: own_mail_def row_status_def split: option.splits if_splits dest: t_find_Some)
      from out m have b: "broker w' = broker w"
        and rows: "row_status k w' = (if k = mail_ID m then Some MailStatusCancelled else row_status k w)" for k
        by (simp_all add: row_status_def)
      have p: "pending E cfg w' = pending E cfg w" "pending_ids cfg w' = pending_ids cfg w"
        by (simp_all add: pending_def pending_ids_def waiting_def b ts fun_eq_iff)
      from inv row have "pending E cfg w (mail_ID m) = 1"
        by (auto simp: sys_inv_def dest!: spec [of _ "mail_ID m"])
      with inv rows p b uniq u show ?thesis by (simp add: sys_inv_def declared_def)
    qed
  qed
  then show "kept (sys_inv E cfg) w (snd (run_state (Cancel E cfg ctx s) w))" by (simp add: kept_def c)
qed

lemma untouched_keeps:
  assumes "untouched ep w' = untouched ep w" and "ep \<noteq> EP_Send" "ep \<noteq> EP_SendBatch" "\<And>i. ep \<noteq> EP_Cancel i"
  shows "sys_inv E cfg w' = sys_inv E cfg w"
  by (rule sys_inv_books;
      use assms(2-4) arg_cong [OF assms(1), of mails] arg_cong [OF assms(1), of broker]
        arg_cong [OF assms(1), of timers] in \<open>cases ep; simp\<close>)

lemma handler_keeps:
  assumes "up E" and "printed_ids E" and "svc = None \<longrightarrow> \<not> sender_config_group ep"
  shows "within (kept (sys_inv E cfg)) (handler E cfg svc ep rq ctx)"
proof (cases "ep = EP_Send \<or> ep = EP_SendBatch \<or> (\<exists>i. ep = EP_Cancel i)")
  case True
  have "within (kept (sys_inv E cfg)) (answers (Cancel E cfg ctx i))" for i
    by (rule answers_within [OF kept.frame_rel_axioms Cancel_keeps [OF assms(1)]])
  with True send_keeps [OF assms(1,2)] show ?thesis by auto
next
  case False
  then have "sys_inv E cfg (snd (run_state (handler E cfg svc ep rq ctx) w)) = sys_inv E cfg w" for w
    using within_snd [OF handler_within [OF assms(3)]] by (intro untouched_keeps [of ep]) (auto simp: same_def)
  then show ?thesis by (simp add: within_def kept_def)
qed

lemma serve_keeps:
  assumes "up E" and "printed_ids E" and "sys_inv E cfg w"
    and "run_state (serve E cfg svc ep rq) w = (answer, w')"
  shows "sys_inv E cfg w'"
  using assms(4)
proof (cases rule: serve_cases)
  case refused
  from untouched_but_ticks [OF refused(1), of EP_Health] untouched_keeps [of EP_Health w' w] assms(3)
  show ?thesis by simp
next
  case health
  from within_same [OF read_untouched(1) health(2), of EP_Health] untouched_keeps [of EP_Health w' w] assms(3)
  show ?thesis by simp
next
  case (handled ctx w1 r)
  from untouched_but_ticks [OF handled(4), of EP_Health] untouched_keeps [of EP_Health w1 w] assms(3)
  have "sys_inv E cfg w1" by simp
  with handler_keeps [OF assms(1,2) handled(2)] handled(6) show ?thesis by (metis within_kept)
qed

section \<open>The worker\<close>

lemma count_pick:
  "i < length xs \<Longrightarrow>
   count_list (map f (take i xs @ drop (Suc i) xs)) y + (if f (xs ! i) = y then 1 else 0) = count_list (map f xs) y"
proof -
  assume "i < length xs"
  then have "xs = take i xs @ xs ! i # drop (Suc i) xs" by (rule id_take_nth_drop)
  then have "count_list (map f xs) y = count_list (map f (take i xs @ xs ! i # drop (Suc i) xs)) y" by simp
  then show ?thesis by simp
qed

lemma fire_retry_up:
  "up E \<Longrightarrow> i < length (timers w) \<Longrightarrow> run_state (fire_retry E cfg i) w =
     ((), w\<lparr>timers := take i (timers w) @ drop (Suc i) (timers w), ticks := Suc (ticks w),
        broker := publish_to [] (retry_message cfg (snd (timers w ! i))) (broker w)\<rparr>)"
  by (simp add: fire_retry_def mq_Publish_up)

text \<open>A woken retry moves from the timers to the queue; nothing else of the books changes.\<close>

lemma wake_moves:
  assumes "up E" and inv: "sys_inv E cfg w" and i: "i < length (timers w)"
    and r: "run_state (fire_retry E cfg i) w = ((), w')"
  defines "job \<equiv> snd (timers w ! i)"
  shows "mails w' = mails w" "is_shutdown w' = is_shutdown w" "bk_unacked (broker w') = bk_unacked (broker w)"
    "declared q w' = declared q w"
    "waiting w' (co_MailQueueName cfg) = waiting w (co_MailQueueName cfg) @ [retry_message cfg job]"
    "timers w' = take i (timers w) @ drop (Suc i) (timers w)"
    "msg_mail_id (retry_message cfg job) = Some (job_MailID job)" "names_mail E (Some (job_MailID job))"
proof -
  have w': "w' = w\<lparr>timers := take i (timers w) @ drop (Suc i) (timers w), ticks := Suc (ticks w),
        broker := publish_to [] (retry_message cfg job) (broker w)\<rparr>"
    using r fire_retry_up [OF assms(1) i] by (simp add: job_def)
  then show "mails w' = mails w" "is_shutdown w' = is_shutdown w" "bk_unacked (broker w') = bk_unacked (broker w)"
    "declared q w' = declared q w" "timers w' = take i (timers w) @ drop (Suc i) (timers w)"
    by (simp_all add: declared_def)
  have "(\<lambda>t. Some (job_MailID (snd t))) (timers w ! i) \<in> set (pending_ids cfg w)"
    unfolding pending_ids_def set_append set_map using i by (intro UnI2 imageI) simp
  with inv show n: "names_mail E (Some (job_MailID job))"
    by (simp add: sys_inv_def list_all_iff job_def)
  have "declared (co_MailQueueName cfg) w" using inv by (simp add: sys_inv_def)
  note publish_pending [OF this, of job w' "retry_message cfg job"]
  with n w' show "waiting w' (co_MailQueueName cfg) = waiting w (co_MailQueueName cfg) @ [retry_message cfg job]"
    "msg_mail_id (retry_message cfg job) = Some (job_MailID job)"
    by (simp_all add: names_mail_def retry_message_def plain_message_def)
qed

lemma wake_keeps:
  assumes "up E" and inv: "sys_inv E cfg w" and i: "i < length (timers w)"
    and r: "run_state (fire_retry E cfg i) w = ((), w')"
  shows "sys_inv E cfg w'"
proof -
  note w = wake_moves [OF assms]
  let ?f = "\<lambda>x. Option.bind (Some (job_MailID (snd x))) (x_pg_uuid E)"
  have "pending E cfg w' k = pending E cfg w k" for k
    using count_pick [OF i, of ?f "Some k"] w(5-7)
    by (simp add: pending_def pending_ids_def comp_def split: if_splits)
  moreover have "set (timers w') \<subseteq> set (timers w)" using w(6) by (auto dest: in_set_takeD in_set_dropD)
  then have "list_all (names_mail E) (pending_ids cfg w')"
    using inv w(5,7,8) by (auto simp: sys_inv_def pending_ids_def list_all_iff)
  ultimately show ?thesis using inv w(1-4) by (simp add: sys_inv_def row_status_def)
qed

lemma deliver_run:
  assumes "deliver q b = Some (d, b')" and "bk_unacked b = []"
  obtains ms where "bk_queues b q = Some (snd d # ms)" "bk_queues b' = (bk_queues b)(q \<mapsto> ms)"
    "bk_unacked b' = [(fst d, q, snd d)]"
  using assms by (cases d) (auto simp: deliver_def split: option.splits list.splits)

lemma work_moves:
  assumes "up E" and inv: "sys_inv E cfg w" and q: "co_MailQueueName cfg \<noteq> co_FailedQueueName cfg"
    and work: "work_step E cfg w = Some w'"
  obtains
    (returned) "is_shutdown w" "mails w' = mails w" "timers w' = timers w" "is_shutdown w' = is_shutdown w"
      "\<And>q. declared q w' = declared q w" "bk_unacked (broker w') = []"
      "waiting w' (co_MailQueueName cfg) = waiting w (co_MailQueueName cfg)"
  | (handled) m ms job i where "\<not> is_shutdown w" "waiting w (co_MailQueueName cfg) = m # ms"
      "unmarshal_job (msg_Body m) = Some job" "x_pg_uuid E (job_MailID job) = Some i"
      "others i w' = others i w" "bk_unacked (broker w') = []" "waiting w' (co_MailQueueName cfg) = ms"
      "if row_status i w = Some MailStatusCancelled
       then timers w' = timers w \<and> row_status i w' = row_status i w \<and> posts w' = posts w
       else timers w' = timers w \<and> row_status i w' \<in> {Some MailStatusSent, Some MailStatusFailed}
         \<or> timers w' = timers w @ [(retry_delay (job_RetryCount job + 1), next_job job)]
            \<and> \<not> co_MaxRetryCount cfg \<le>s job_RetryCount job + 1 \<and> row_status i w' = Some MailStatusProcessing"
proof -
  let ?q = "co_MailQueueName cfg"
  obtain d b where d: "deliver ?q (broker w) = Some (d, b)"
    using work by (auto simp: work_step_def split: option.splits)
  let ?w = "w\<lparr>broker := b\<rparr>"
  obtain r where p: "run_state (process_delivery E (worker_consumer E cfg) d) ?w = (r, w')"
    using work d by (auto simp: work_step_def) (metis prod.collapse)
  have "bk_unacked (broker w) = []" using inv by (simp add: sys_inv_def)
  with d obtain ms where ms: "bk_queues (broker w) ?q = Some (snd d # ms)" "bk_queues b = (bk_queues (broker w))(?q \<mapsto> ms)"
    "bk_unacked b = [(fst d, ?q, snd d)]" by (rule deliver_run)
  then have wait: "waiting w ?q = snd d # ms" "waiting ?w ?q = ms" and decl: "declared k ?w = declared k w" for k
    by (auto simp: waiting_def queue_of_def declared_def)
  show thesis
  proof (cases "is_shutdown w")
    case True
    then have "w' = w\<lparr>broker := nack (fst d) True b\<rparr>" using p by (simp add: process_delivery_def mq_Nack_def)
    then show thesis using True ms
      by (intro returned) (auto simp: nack_def requeue_def waiting_def queue_of_def declared_def)
  next
    case False
    then have h: "run_state (handleMessage E (worker_consumer E cfg) (fst d, snd d)) ?w = (r, w')"
      using p by (simp add: process_delivery_def)
    have "names_mail E (msg_mail_id (snd d))" using inv wait by (simp add: sys_inv_def pending_ids_def)
    then obtain job i where job: "unmarshal_job (msg_Body (snd d)) = Some job" and i: "x_pg_uuid E (job_MailID job) = Some i"
      by (auto simp: names_mail_def msg_mail_id_def)
    have "pending E cfg w i \<noteq> 0" using wait job i by (simp add: pending_def pending_ids_def msg_mail_id_def)
    then have "row_status i w \<noteq> None"
      using inv by (cases "row_status i w") (auto simp: sys_inv_def dest!: spec [of _ i])
    then obtain row where row: "t_find mail_ID i (mails w) = Some row" by (auto simp: row_status_def)
    have o: "others i w' = others i w"
      using handleMessage_others [of d job E i cfg ?w r w'] job i h decl by (simp add: others_def)
    have u: "t_keys_unique mail_ID (mails ?w)" "t_find mail_ID i (mails ?w) = Some row" "declared (co_FailedQueueName cfg) ?w"
      using inv row decl by (simp_all add: sys_inv_def)
    note out = handleMessage_ok [OF assms(1) h job i u]
    consider "mail_Status row = MailStatusCancelled" "handled_cancelled ?w w'"
      | "mail_Status row \<noteq> MailStatusCancelled" "handled_sent job i ?w w'"
      | "mail_Status row \<noteq> MailStatusCancelled" "handled_retry cfg job i ?w w'"
      | "mail_Status row \<noteq> MailStatusCancelled" "handled_failed cfg job i ?w w'"
      using out by metis
    then have "(if row_status i w = Some MailStatusCancelled
       then timers w' = timers w \<and> row_status i w' = row_status i w \<and> posts w' = posts w
       else timers w' = timers w \<and> row_status i w' \<in> {Some MailStatusSent, Some MailStatusFailed}
         \<or> timers w' = timers w @ [(retry_delay (job_RetryCount job + 1), next_job job)]
            \<and> \<not> co_MaxRetryCount cfg \<le>s job_RetryCount job + 1 \<and> row_status i w' = Some MailStatusProcessing)
        \<and> waiting w' ?q = waiting ?w ?q"
      using q row by cases (auto simp: handled_cancelled_def handled_sent_def handled_retry_def
          handled_failed_def row_status_def posts_def)
    moreover have "bk_unacked (broker w') = []" using out ms(3) by simp
    ultimately show thesis
      unfolding wait(2) by (intro handled [OF False wait(1) job i o]) (auto split: if_splits)
  qed
qed

lemma others_fields_eq:
  assumes "others i w' = others i w"
  shows "k \<noteq> i \<Longrightarrow> row_status k w' = row_status k w" "declared q w' = declared q w"
    "t_keys_unique mail_ID (mails w') = t_keys_unique mail_ID (mails w)" "is_shutdown w' = is_shutdown w"
  using assms by (auto simp: others_def row_status_def t_keys_unique_def fun_eq_iff split: if_splits)

lemma pending_ok_one: "pending_ok s n \<Longrightarrow> 1 \<le> n \<Longrightarrow> n = 1"
  by (cases "(s, n)" rule: pending_ok.cases) auto

lemma work_keeps:
  assumes "up E" and inv: "sys_inv E cfg w" and q: "co_MailQueueName cfg \<noteq> co_FailedQueueName cfg"
    and work: "work_step E cfg w = Some w'"
  shows "sys_inv E cfg w'"
  using assms
proof (cases rule: work_moves)
  case returned
  with inv show ?thesis by (simp add: sys_inv_def pending_def pending_ids_def row_status_def)
next
  case (handled m ms job i)
  note o = others_fields_eq [OF handled(5)]
  let ?again = "timers w' \<noteq> timers w"
  have id: "msg_mail_id m = Some (job_MailID job)" using handled(3) by (simp add: msg_mail_id_def)
  have again: "timers w' = timers w @ (if ?again then [(retry_delay (job_RetryCount job + 1), next_job job)] else [])"
    using handled(8) by (auto split: if_splits)
  have p: "pending E cfg w k + (if k = i \<and> ?again then 1 else 0) = pending E cfg w' k + (if k = i then 1 else 0)" for k
    using again handled(2,4,7) id by (auto simp: pending_def pending_ids_def next_job_def)
  have names: "list_all (names_mail E) (pending_ids cfg w')"
    using inv handled(2,4,7,8) id by (auto simp: sys_inv_def pending_ids_def next_job_def split: if_splits)
  have "1 \<le> pending E cfg w i" using handled(2,4) id by (simp add: pending_def pending_ids_def)
  moreover have "pending_ok (row_status i w) (pending E cfg w i)" using inv by (simp add: sys_inv_def)
  ultimately have one: "pending E cfg w i = 1" by (rule pending_ok_one [rotated])
  have "pending_ok (row_status k w') (pending E cfg w' k)" for k
  proof (cases "k = i")
    case False
    moreover have "pending_ok (row_status k w) (pending E cfg w k)" using inv by (simp add: sys_inv_def)
    ultimately show ?thesis using p [of k] o(1) [of k] by simp
  next
    case True
    then show ?thesis using handled(8) p [of i] one by (cases ?again) (auto split: if_splits)
  qed
  with inv names o handled(6) show ?thesis by (simp add: sys_inv_def)
qed

section \<open>Reachable states\<close>

text \<open>The deployment: the services answer, identifiers print as such, two different queues.\<close>

definition deployed :: "ext \<Rightarrow> config \<Rightarrow> bool" where
  "deployed E cfg \<longleftrightarrow> up E \<and> printed_ids E \<and> co_MailQueueName cfg \<noteq> co_FailedQueueName cfg"

lemma worker_step_keeps:
  "deployed E cfg \<Longrightarrow> sys_inv E cfg w \<Longrightarrow> worker_step E cfg w w' \<Longrightarrow> sys_inv E cfg w'"
  by (erule work_stepE) (auto simp: deployed_def intro: work_keeps wake_keeps)

lemma sys_step_keeps:
  assumes "deployed E cfg" and "sys_inv E cfg w" and "sys_step E cfg w w'"
  shows "sys_inv E cfg w'"
  using assms(3)
proof cases
  case (api ep rq answer)
  with assms(1,2) show ?thesis by (auto simp: deployed_def intro: serve_keeps)
next
  case (smtp s input r)
  with assms(1,2) show ?thesis by (auto simp: deployed_def intro: Data_keeps)
next
  case worker
  with assms(1,2) show ?thesis by (rule worker_step_keeps)
next
  case stop
  then have "w' = w\<lparr>is_shutdown := True\<rparr>" by (simp add: shutdown_begin_def)
  with assms(2) sys_inv_books [of w' w] show ?thesis by simp
qed

lemma reach_inv: "sys_reach E cfg w \<Longrightarrow> deployed E cfg \<Longrightarrow> sys_inv E cfg w"
  by (induction rule: sys_reach.induct) (auto intro: sys_inv_fresh sys_step_keeps)

section \<open>The status of a mail\<close>

text \<open>The moves a status can make; \<open>None\<close> is a mail that does not exist yet.\<close>

fun status_next :: "mail_status option \<Rightarrow> mail_status option \<Rightarrow> bool" where
  "status_next None s \<longleftrightarrow> s \<in> {None, Some MailStatusQueued}"
| "status_next (Some MailStatusQueued) s \<longleftrightarrow> s \<noteq> None"
| "status_next (Some MailStatusProcessing) s \<longleftrightarrow>
     s \<in> Some ` {MailStatusProcessing, MailStatusSent, MailStatusFailed}"
| "status_next (Some st) s \<longleftrightarrow> s = Some st"

lemma status_next_refl [simp]: "status_next s s"
  by (cases "(s, s)" rule: status_next.cases) simp_all

text \<open>
  The statuses are ordered by what may still become of a mail; the final ones are maximal. With
  no row below every status (the order of \<open>option\<close>), a run ascends.
\<close>

instantiation mail_status :: order
begin

definition less_eq_mail_status :: "mail_status \<Rightarrow> mail_status \<Rightarrow> bool" where
  "s \<le> t \<longleftrightarrow> status_next (Some s) (Some t)"

definition less_mail_status :: "mail_status \<Rightarrow> mail_status \<Rightarrow> bool" where
  "s < t \<longleftrightarrow> s \<le> t \<and> s \<noteq> (t :: mail_status)"

instance
proof
  fix s t u :: mail_status
  show "s \<le> s" by (simp add: less_eq_mail_status_def)
  show "s \<le> t \<Longrightarrow> t \<le> u \<Longrightarrow> s \<le> u"
    by (cases s; cases t) (auto simp: less_eq_mail_status_def)
  show "s \<le> t \<Longrightarrow> t \<le> s \<Longrightarrow> s = t"
    by (cases s; cases t) (auto simp: less_eq_mail_status_def)
  show "s < t \<longleftrightarrow> s \<le> t \<and> \<not> t \<le> s"
    by (cases s; cases t) (auto simp: less_mail_status_def less_eq_mail_status_def)
qed

end


lemma final_status: "s \<in> {MailStatusSent, MailStatusFailed, MailStatusCancelled} \<longleftrightarrow> (\<forall>t. \<not> s < t)"
  by (cases s) (auto simp: less_mail_status_def less_eq_mail_status_def intro: exI [of _ MailStatusSent])












section \<open>The work that is left\<close>

text \<open>
  A bound on the steps the worker still takes: each attempt of a job is one delivery and, if
  it fails, one timer.
\<close>

definition message_work :: "config \<Rightarrow> message \<Rightarrow> nat" where
  "message_work cfg m = (case unmarshal_job (msg_Body m) of None \<Rightarrow> 0 | Some job \<Rightarrow> 2 * attempts cfg job - 1)"

definition work_left :: "config \<Rightarrow> world \<Rightarrow> nat" where
  "work_left cfg w = sum_list (map (message_work cfg) (waiting w (co_MailQueueName cfg)))
     + sum_list (map (\<lambda>t. 2 * attempts cfg (snd t)) (timers w))"

lemma attempts_pos: "1 \<le> attempts cfg job"
  by (simp add: attempts.simps [of cfg job])

lemma attempts_cong: "job_RetryCount j = job_RetryCount j' \<Longrightarrow> attempts cfg j = attempts cfg j'"
proof (induction cfg j arbitrary: j' rule: attempts.induct)
  case (1 cfg j)
  have "\<not> co_MaxRetryCount cfg \<le>s job_RetryCount j + 1 \<Longrightarrow> attempts cfg (next_job j) = attempts cfg (next_job j')"
    by (rule "1.IH") (simp_all add: next_job_def "1.prems")
  then show ?case by (simp add: attempts.simps [of cfg j] attempts.simps [of cfg j'] "1.prems")
qed

lemma sum_pick:
  "i < length xs \<Longrightarrow> sum_list (map f (take i xs @ drop (Suc i) xs)) + f (xs ! i) = (sum_list (map f xs) :: nat)"
proof -
  assume "i < length xs"
  then have "xs = take i xs @ xs ! i # drop (Suc i) xs" by (rule id_take_nth_drop)
  then have "sum_list (map f xs) = sum_list (map f (take i xs @ xs ! i # drop (Suc i) xs))" by simp
  then show ?thesis by simp
qed

lemma worker_step_progress:
  assumes "deployed E cfg" and inv: "sys_inv E cfg w" and down: "\<not> is_shutdown w" and "worker_step E cfg w w'"
  shows "work_left cfg w' < work_left cfg w \<and> \<not> is_shutdown w'"
  using assms(4)
proof cases
  case (wake i)
  let ?job = "snd (timers w ! i)"
  have "up E" using assms(1) by (simp add: deployed_def)
  note w = wake_moves [OF this inv wake]
  obtain j where "unmarshal_job (msg_Body (retry_message cfg ?job)) = Some j" "job_RetryCount j = job_RetryCount ?job"
    using unmarshal_total [of ?job] by (auto simp: retry_message_def plain_message_def)
  then have "message_work cfg (retry_message cfg ?job) = 2 * attempts cfg ?job - 1"
    using attempts_cong [of j ?job cfg] by (simp add: message_work_def)
  with sum_pick [OF wake(1), of "\<lambda>t. 2 * attempts cfg (snd t)"] w(2,5,6) attempts_pos [of cfg ?job] down
  show ?thesis by (simp add: work_left_def)
next
  case work
  have up: "up E" and q: "co_MailQueueName cfg \<noteq> co_FailedQueueName cfg" using assms(1) by (simp_all add: deployed_def)
  from up inv q work show ?thesis
  proof (cases rule: work_moves)
    case returned
    with down show ?thesis by simp
  next
    case (handled m ms job i)
    have m: "message_work cfg m = 2 * attempts cfg job - 1" using handled(3) by (simp add: message_work_def)
    have "sum_list (map (\<lambda>t. 2 * attempts cfg (snd t)) (timers w')) < 2 * attempts cfg job - 1
        + sum_list (map (\<lambda>t. 2 * attempts cfg (snd t)) (timers w))"
      using handled(8) attempts_pos [of cfg job] attempts.simps [of cfg job]
      by (auto split: if_splits)
    with m handled(2,7) others_fields_eq(4) [OF handled(5)] down show ?thesis by (simp add: work_left_def)
  qed
qed

lemma worker_run:
  "(worker_step E cfg ^^ n) w w' \<Longrightarrow> deployed E cfg \<Longrightarrow> sys_inv E cfg w \<Longrightarrow> \<not> is_shutdown w \<Longrightarrow>
   n + work_left cfg w' \<le> work_left cfg w \<and> sys_inv E cfg w' \<and> \<not> is_shutdown w'"
proof (induction n arbitrary: w')
  case (Suc n)
  then obtain v where "(worker_step E cfg ^^ n) w v" and s: "worker_step E cfg v w'" by auto
  from Suc.IH [OF this(1) Suc.prems(2-4)]
  have v: "n + work_left cfg v \<le> work_left cfg w" "sys_inv E cfg v" "\<not> is_shutdown v" by auto
  from worker_step_progress [OF Suc.prems(2) v(2,3) s] worker_step_keeps [OF Suc.prems(2) v(2) s] v(1)
  show ?case by simp
qed simp

lemma worker_idle:
  assumes "deployed E cfg" and inv: "sys_inv E cfg w" and idle: "\<And>w'. \<not> worker_step E cfg w w'"
  shows "waiting w (co_MailQueueName cfg) = []" "timers w = []"
proof -
  have "work_step E cfg w = None" using idle by (metis not_None_eq work)
  then have "deliver (co_MailQueueName cfg) (broker w) = None"
    by (auto simp: work_step_def split: option.splits prod.splits)
  then show "waiting w (co_MailQueueName cfg) = []"
    by (auto simp: deliver_def waiting_def queue_of_def split: option.splits list.splits)
  have "up E" using assms(1) by (simp add: deployed_def)
  show "timers w = []"
  proof (rule ccontr)
    assume "timers w \<noteq> []"
    then have "0 < length (timers w)" by simp
    from wake [OF this fire_retry_up [OF \<open>up E\<close> this]] idle show False by blast
  qed
qed

section \<open>A sample deployment\<close>

text \<open>Identifiers are any texts; they print in base64, so that each prints as plain text.\<close>

definition deployed_ext :: ext where
  "deployed_ext = sample_ext\<lparr>x_uuid_string := b64_encode, x_pg_uuid := b64_decode\<rparr>"

lemma b64_char_ascii [simp]: "d < 64 \<Longrightarrow> (of_char (b64_char d) :: nat) < 128"
proof -
  have "b64_val c = Some d \<Longrightarrow> (of_char c :: nat) < 128" for c
    by (auto simp: b64_val_def Let_def split: if_splits)
  then show "d < 64 \<Longrightarrow> ?thesis" by simp
qed

lemma b64_encode_ascii: "is_ascii (b64_encode s)"
  by (induction s rule: b64_encode.induct) (simp_all add: Let_def is_ascii_def pad_def)

lemma deployed_sample: "deployed deployed_ext default_config"
  by (simp add: deployed_def up_def printed_ids_def deployed_ext_def b64_encode_ascii)

lemma sample_fresh: "fresh default_config sample_world"
  by (simp add: fresh_def topology_def sample_broker_def waiting_def queue_of_def)

lemma deployed_data:
  "\<exists>w'. Data deployed_ext default_config sample_session (Inr ''hi'') sample_world = Some (None, w')"
proof -
  obtain mr where mr: "x_mime deployed_ext ''hi'' = Inr mr" "mr_part mr = (\<lambda>n. PartEOF)"
    by (simp add: sample_ext_def deployed_ext_def)
  then have "\<exists>m w1. parseMailData deployed_ext default_config sample_session ''hi'' sample_world = Some (m, w1)"
    by (simp add: parseMailData_def read_parts_eof split: prod.splits)
  then obtain m w1 where p: "parseMailData deployed_ext default_config sample_session ''hi'' sample_world = Some (m, w1)"
    by blast
  then have "mails w1 = []" using parseMailData_ok [OF p] by (auto dest: but_files_fields)
  then obtain w' where "run_state (enqueue_mail deployed_ext default_config m) w1 = (None, w')"
    by (simp add: enqueue_mail_def mails_Create_run PublishMail_run t_find_def deployed_ext_def)
  with p sample_limit show ?thesis by (simp add: Data_def Let_def del: list.size)
qed

lemma sample_session_reach: "smtp_reach deployed_ext default_config sample_session"
proof -
  have "cleanEmail ''a@b.org'' = ''a@b.org''" "cleanEmail ''c@d.org'' = ''c@d.org''" by code_simp+
  then have "Mail deployed_ext default_config ''a@b.org'' NewSession = (None, \<lparr>ss_from = ''a@b.org'', ss_to = []\<rparr>)"
    "Rcpt ''c@d.org'' \<lparr>ss_from = ''a@b.org'', ss_to = []\<rparr> = (None, sample_session)"
    by (simp_all add: Mail_def Rcpt_def NewSession_def sample_session_def sender_allowed_def)
  then show ?thesis by (blast intro: smtp_reach.intros)
qed

text \<open>The state after one message was received: one row, and its job in the queue.\<close>

lemma deployed_received:
  obtains w' m ms where "sys_step deployed_ext default_config sample_world w'"
    "sys_reach deployed_ext default_config w'" "\<not> is_shutdown w'" "mails w' = [m]"
    "mail_Status m = MailStatusQueued" "waiting w' ''mail-queue'' = [ms]" "timers w' = []"
proof -
  obtain w' where d: "Data deployed_ext default_config sample_session (Inr ''hi'') sample_world = Some (None, w')"
    using deployed_data ..
  have step: "sys_step deployed_ext default_config sample_world w'" using sample_session_reach d by (rule smtp)
  from Data_accepted_ok [OF d] obtain m t where m: "inbound sample_session m" "mails w' = [stored_mail t m]"
    "broker w' = publish_to [] (plain_message ''mail-queue'' (inbound_job deployed_ext m)) sample_broker"
    by (auto simp: t_insert_def)
  have "waiting w' ''mail-queue'' = [plain_message ''mail-queue'' (inbound_job deployed_ext m)]"
    unfolding waiting_def m(3)
    by (subst publish_default) (simp_all add: plain_message_def sample_broker_def queue_of_def)
  moreover have "mail_Status (stored_mail t m) = MailStatusQueued" using m(1) by (simp add: inbound_def stored_mail_def)
  moreover have "up deployed_ext" using deployed_sample by (simp add: deployed_def)
  from this d have "\<not> is_shutdown w' \<and> timers w' = []" by (cases rule: Data_up) simp_all
  ultimately show thesis
    using step m(2) by (intro that [OF step]) (auto intro: sys_reach.intros sample_fresh)
qed

section \<open>Properties\<close>

text \<open>
  C1: in every state the system can reach no mail is lost and none is queued twice. A mail
  that is \<open>queued\<close> or \<open>processing\<close> has exactly one job in the mail queue or in the timers
  of the worker, a mail that is \<open>sent\<close> or \<open>failed\<close> has none, a cancelled one at most one,
  and no job waits for a mail that has no row. Every waiting job decodes, the mails'
  identifiers are distinct, and no delivery is left unsettled between steps.
\<close>

theorem no_mail_lost:
  assumes "deployed E cfg" and "sys_reach E cfg w"
  shows "(\<forall>i. pending_ok (row_status i w) (pending E cfg w i))
    \<and> list_all (names_mail E) (pending_ids cfg w)
    \<and> t_keys_unique mail_ID (mails w) \<and> bk_unacked (broker w) = []"
  using reach_inv [OF assms(2,1)] by (simp add: sys_inv_def)

theorem no_mail_lost_witness:
  "\<exists>w m. sys_reach deployed_ext default_config w \<and> mails w = [m]
     \<and> pending deployed_ext default_config w (mail_ID m) = 1"
proof -
  obtain w m ms where w: "sys_reach deployed_ext default_config w" "mails w = [m]" "mail_Status m = MailStatusQueued"
    by (rule deployed_received)
  then have "row_status (mail_ID m) w = Some MailStatusQueued" by (simp add: row_status_def t_find_def)
  with no_mail_lost [OF deployed_sample w(1)] w show ?thesis by (metis pending_ok.simps(2))
qed





text \<open>After the signal to stop a delivery goes back to the head of its queue.\<close>

lemma stopped_step:
  assumes "is_shutdown w" and "waiting w (co_MailQueueName cfg) \<noteq> []"
  shows "\<exists>w'. worker_step E cfg w w' \<and> is_shutdown w' \<and> mails w' = mails w \<and> outbox w' = outbox w
    \<and> waiting w' (co_MailQueueName cfg) = waiting w (co_MailQueueName cfg)"
proof -
  let ?q = "co_MailQueueName cfg"
  obtain m ms where b: "bk_queues (broker w) ?q = Some (m # ms)"
    using assms(2) by (auto simp: waiting_def queue_of_def neq_Nil_conv split: option.splits)
  have "\<exists>w'. work_step E cfg w = Some w' \<and> is_shutdown w' \<and> mails w' = mails w \<and> outbox w' = outbox w
      \<and> waiting w' ?q = waiting w ?q"
    by (simp add: work_step_def deliver_def process_delivery_def mq_Nack_def nack_def requeue_def
        waiting_def queue_of_def b assms(1))
  then show ?thesis by (blast intro: work)
qed

lemma stopped_run:
  assumes "is_shutdown w" and "waiting w (co_MailQueueName cfg) \<noteq> []"
  shows "\<exists>w'. (worker_step E cfg ^^ n) w w' \<and> is_shutdown w' \<and> mails w' = mails w \<and> outbox w' = outbox w
    \<and> waiting w' (co_MailQueueName cfg) = waiting w (co_MailQueueName cfg)"
proof (induction n)
  case 0
  show ?case using assms(1) by (intro exI [of _ w]) simp
next
  case (Suc n)
  then obtain v where v: "(worker_step E cfg ^^ n) w v" "is_shutdown v" "mails v = mails w" "outbox v = outbox w"
    "waiting v (co_MailQueueName cfg) = waiting w (co_MailQueueName cfg)" by blast
  with stopped_step [of v cfg E] assms(2) obtain v' where "worker_step E cfg v v'" "is_shutdown v'" "mails v' = mails v"
    "outbox v' = outbox v" "waiting v' (co_MailQueueName cfg) = waiting v (co_MailQueueName cfg)" by auto
  with v show ?case by (intro exI [of _ v']) (auto intro: relpowp_Suc_I)
qed

text \<open>
  C14: the worker finishes unless it is told to stop. From every reachable state in which no
  stop was signalled it can take only a bounded number of steps by itself, at most twice the
  attempts its waiting jobs still have, and when it can take no more every mail is sent,
  failed or cancelled. Once a stop was signalled and jobs wait, there is no such bound: since
  \<open>GracefulShutdown\<close> cancels no consumer, the worker can take the same delivery and hand it back
  any number of times, with no mail changed and no request sent, until its channel is closed.
\<close>

theorem worker_finishes:
  assumes "deployed E cfg" and "sys_reach E cfg w"
  shows "(\<not> is_shutdown w \<longrightarrow> (\<forall>n w'. (worker_step E cfg ^^ n) w w' \<longrightarrow> n \<le> work_left cfg w
      \<and> ((\<forall>w''. \<not> worker_step E cfg w' w'') \<longrightarrow>
          (\<forall>m\<in>set (mails w'). mail_Status m \<in> {MailStatusSent, MailStatusFailed, MailStatusCancelled}))))
    \<and> (is_shutdown w \<and> waiting w (co_MailQueueName cfg) \<noteq> [] \<longrightarrow> (\<forall>n. \<exists>w'. (worker_step E cfg ^^ n) w w'
        \<and> mails w' = mails w \<and> outbox w' = outbox w
        \<and> waiting w' (co_MailQueueName cfg) = waiting w (co_MailQueueName cfg)))"
proof -
  have "n \<le> work_left cfg w \<and> ((\<forall>w''. \<not> worker_step E cfg w' w'') \<longrightarrow>
      (\<forall>m\<in>set (mails w'). mail_Status m \<in> {MailStatusSent, MailStatusFailed, MailStatusCancelled}))"
    if n: "\<not> is_shutdown w" and r: "(worker_step E cfg ^^ n) w w'" for n w'
  proof -
    note run = worker_run [OF r assms(1) reach_inv [OF assms(2,1)] n]
    have "mail_Status m \<in> {MailStatusSent, MailStatusFailed, MailStatusCancelled}"
      if idle: "\<And>w''. \<not> worker_step E cfg w' w''" and m: "m \<in> set (mails w')" for m
    proof -
      have inv: "sys_inv E cfg w'" using run by simp
      note empty = worker_idle [OF assms(1) inv idle]
      have "row_status (mail_ID m) w' = Some (mail_Status m)"
        using inv m by (simp add: sys_inv_def row_status_def t_find_mem)
      moreover have "pending E cfg w' (mail_ID m) = 0" using empty by (simp add: pending_def pending_ids_def)
      moreover have "pending_ok (row_status (mail_ID m) w') (pending E cfg w' (mail_ID m))" using inv by (simp add: sys_inv_def)
      ultimately show ?thesis by (cases "mail_Status m") auto
    qed
    with run show ?thesis by auto
  qed
  moreover have "\<exists>w'. (worker_step E cfg ^^ n) w w' \<and> mails w' = mails w \<and> outbox w' = outbox w
      \<and> waiting w' (co_MailQueueName cfg) = waiting w (co_MailQueueName cfg)"
    if "is_shutdown w" "waiting w (co_MailQueueName cfg) \<noteq> []" for n
    using stopped_run [OF that] by blast
  ultimately show ?thesis by blast
qed

theorem worker_finishes_witness:
  "\<exists>w w'. sys_reach deployed_ext default_config w \<and> worker_step deployed_ext default_config w w'
     \<and> 1 \<le> work_left default_config w"
proof -
  obtain w m ms where w: "sys_reach deployed_ext default_config w" "\<not> is_shutdown w" "waiting w ''mail-queue'' = [ms]"
    by (rule deployed_received)
  then obtain w' where s: "worker_step deployed_ext default_config w w'"
    using worker_idle(1) [OF deployed_sample reach_inv [OF w(1) deployed_sample]] by fastforce
  then have "(worker_step deployed_ext default_config ^^ 1) w w'" by (simp only: relpowp_1)
  with worker_finishes [OF deployed_sample w(1)] w(2) have "1 \<le> work_left default_config w" by blast
  with s w(1) show ?thesis by blast
qed

section \<open>Cancelling while a delivery is handled\<close>

text \<open>
  \<open>handleMessage\<close> reads the row once and then marks, sends and marks again. This is the part
  after the read, so that steps of the API can come between.
\<close>

definition after_check ::
  "ext \<Rightarrow> consumer \<Rightarrow> nat \<Rightarrow> mail_job \<Rightarrow> gorm_error + mail \<Rightarrow> (world, unit outcome) state" where
  "after_check E c tag job r =
     (if (case r of Inr mail \<Rightarrow> mail_Status mail = MailStatusCancelled | Inl _ \<Rightarrow> False)
      then do { mq_Ack tag; ret (Returns ()) }
      else do {
        mark_processing E (cs_cfg c) job;
        s \<leftarrow> send_job E c job;
        case s of
          Panics \<Rightarrow> ret Panics
        | Returns sendErr \<Rightarrow>
            (case sendErr of
               Some e \<Rightarrow> do { handleRetry E c tag job e; ret (Returns ()) }
             | None \<Rightarrow> do { mark_sent E (cs_cfg c) tag job; ret (Returns ()) }) })"

lemma handle_job_split:
  "handle_job E c tag job = do { r \<leftarrow> mails_First E (job_row E job); after_check E c tag job r }"
  by (simp add: handle_job_def after_check_def)

lemma own_mail_mails: "mails w' = mails w \<Longrightarrow> own_mail E ctx s w' = own_mail E ctx s w"
  by (simp add: own_mail_def cong: option.case_cong)

lemma after_check_status:
  assumes "up E" and id: "x_pg_uuid E (job_MailID job) = Some i" and "t_find mail_ID i (mails w) = Some row"
    and "mail_Status m \<noteq> MailStatusCancelled"
    and run: "run_state (after_check E (worker_consumer E cfg) tag job (Inr m)) w = (r, w')"
  shows "row_status i w' \<in> Some ` {MailStatusSent, MailStatusProcessing, MailStatusFailed}"
proof -
  obtain w1 where p: "run_state (mark_processing E cfg job) w = ((), w1)" by (metis old.unit.exhaust surj_pair)
  obtain s w2 where d: "run_state (deliver_job E cfg job) w1 = (s, w2)" by fastforce
  have p': "run_state (mark_processing E cfg job) (w\<lparr>ticks := ticks w\<rparr>) = ((), w1)" using p by simp
  note row = processing_then_deliver(1) [OF assms(1) id assms(3) p' d]
  from run p d assms(4) have w': "w' = snd (run_state (case s of None \<Rightarrow> mark_sent E cfg tag job
      | Some e \<Rightarrow> handleRetry E (worker_consumer E cfg) tag job e) w2)"
    by (auto simp: after_check_def deliver_job_run split: option.splits prod.splits)
  show ?thesis
  proof (cases s)
    case None
    with w' row show ?thesis
      by (simp add: mark_sent_up assms(1) row_status_def job_row_eq [OF id] mail_rows.find_update)
  next
    case (Some e)
    with w' row show ?thesis
      by (cases "co_MaxRetryCount cfg \<le>s job_RetryCount job + 1")
        (simp_all add: retry_runs assms(1) row_status_def job_row_eq [OF id] mail_rows.find_update)
  qed
qed

text \<open>
  Cancelling races with the worker. When the API cancels a mail (answer 200, the row says
  \<open>cancelled\<close>) after the worker has read the row and before it marks it, the worker goes on:
  it overwrites the status, the mail is sent, retried or failed, and the row never says
  \<open>cancelled\<close> again.
\<close>

lemma cancel_race:
  assumes "up E" and "t_keys_unique mail_ID (mails w)"
    and "x_pg_uuid E (job_MailID job) = Some i" and "own_mail E ctx s w = Some m" and "mail_ID m = i"
    and "run_state (mails_First E (job_row E job)) w = (Inr seen, w1)"
    and "run_state (Cancel E cfg ctx s) w1 = (answer, w2)" and "fst answer = 200"
    and "run_state (after_check E (worker_consumer E cfg) tag job (Inr seen)) w2 = (r, w3)"
  shows "row_status i w2 = Some MailStatusCancelled
    \<and> row_status i w3 \<in> Some ` {MailStatusSent, MailStatusProcessing, MailStatusFailed}"
proof -
  have w1: "w1 = w\<lparr>ticks := Suc (ticks w)\<rparr>" and first: "t_first mail_ID (job_row E job) (mails w) \<noteq> None"
    and seen: "\<And>x. t_first mail_ID (job_row E job) (mails w) = Some x \<Longrightarrow> mail_Status seen = mail_Status x"
    using assms(6) by (auto simp: mails_First_up [OF assms(1)] loaded_def split: option.splits)
  have own: "own_mail E ctx s w1 = Some m" and u: "t_keys_unique mail_ID (mails w1)"
    using assms(2,4) own_mail_mails [of w1 w E ctx s] by (simp_all add: w1)
  have row: "t_find mail_ID i (mails w) = Some m"
    using assms(4,5) by (auto simp: own_mail_def split: option.splits if_splits dest: t_find_Some)
  from Cancel_ok [OF assms(1) u assms(7)] own assms(5,8)
  have c: "mail_Status m = MailStatusQueued" "row_status i w2 = Some MailStatusCancelled"
    by (auto simp: row_status_def split: if_splits)
  have "mail_Status seen = MailStatusQueued"
    using seen [of m] row c(1) t_first_unique [OF assms(2), of mail_ID i] by (simp add: job_row_eq [OF assms(3)])
  moreover obtain x where "t_find mail_ID i (mails w2) = Some x" using c(2) by (auto simp: row_status_def)
  ultimately show ?thesis using after_check_status [OF assms(1,3) _ _ assms(9)] c(2) by simp
qed

lemma cancel_race_witness:
  "\<exists>w1 w2 w3 answer r. run_state (Cancel sample_ext default_config sample_ctx ''m1'') w1 = (answer, w2)
     \<and> fst answer = 200
     \<and> run_state (after_check sample_ext (worker_consumer sample_ext default_config) 0 sample_job (Inr sample_mail)) w2
         = (r, w3)
     \<and> row_status ''m1'' w3 \<noteq> Some MailStatusCancelled"
proof -
  let ?w = "sample_world\<lparr>mails := [sample_mail]\<rparr>"
  let ?w1 = "?w\<lparr>ticks := Suc (ticks ?w)\<rparr>"
  have m: "mail_ID sample_mail = ''m1''" "mail_Status sample_mail = MailStatusQueued" "mail_ClientID sample_mail = ''app''"
    "loaded sample_mail = sample_mail"
    by (simp_all add: sample_mail_def new_mail_def loaded_def)
  have u: "t_keys_unique mail_ID (mails ?w)" "t_keys_unique mail_ID (mails ?w1)" by (simp_all add: t_keys_unique_def)
  have own: "own_mail sample_ext sample_ctx ''m1'' ?w = Some sample_mail"
    by (simp add: own_mail_def t_find_def m)
  have id: "x_pg_uuid sample_ext (job_MailID sample_job) = Some ''m1''" by simp
  have first: "run_state (mails_First sample_ext (job_row sample_ext sample_job)) ?w = (Inr sample_mail, ?w1)"
    by (simp add: mails_First_up t_first_def job_row_eq [OF id] m)
  obtain answer w2 where c: "run_state (Cancel sample_ext default_config sample_ctx ''m1'') ?w1 = (answer, w2)" by fastforce
  have "own_mail sample_ext sample_ctx ''m1'' ?w1 = Some sample_mail" using own own_mail_mails [of ?w1 ?w] by simp
  with Cancel_ok [OF sample_up u(2) c] m have a: "fst answer = 200" by simp
  obtain r w3 where h: "run_state (after_check sample_ext (worker_consumer sample_ext default_config) 0 sample_job
      (Inr sample_mail)) w2 = (r, w3)" by fastforce
  from cancel_race [OF sample_up u(1) id own m(1) first c a h] c a h show ?thesis by fastforce
qed

end
