(* ===== verification/Calls.thy ===== *)
theory Calls
  imports System
begin

text \<open>
  The handlers that change mails, cut into their external calls. A goroutine is in a state
  that says which call comes next; a call is one statement, cache write, broker operation, or
  the sending of a mail. Run to its end without a pause, a goroutine does what the handler as
  one operation does, whatever fails. Between two calls other goroutines may run (theory
  \<open>Interleave\<close>).
\<close>

section \<open>Goroutines\<close>

fun run_calls :: "('p \<Rightarrow> (world, 'p) state) \<Rightarrow> nat \<Rightarrow> 'p \<Rightarrow> (world, 'p) state" where
  "run_calls call 0 p = ret p"
| "run_calls call (Suc n) p = do { q \<leftarrow> call p; run_calls call n q }"

text \<open>The contract of a goroutine: at its end nothing more happens.\<close>

locale goroutine =
  fixes call :: "'p \<Rightarrow> (world, 'p) state"
    and over :: "'p \<Rightarrow> bool"
  assumes over_idle: "over p \<Longrightarrow> call p = ret p"
begin

lemma run_over: "over p \<Longrightarrow> run_calls call n p = ret p"
  by (induction n) (simp_all add: over_idle)

lemma run_more:
  assumes "run_state (run_calls call n p) w = (q, w')" and "over q"
  shows "run_state (run_calls call (n + k) p) w = (q, w')"
  using assms
proof (induction n arbitrary: p w)
  case 0
  then show ?case by (simp add: run_over)
next
  case (Suc n)
  then show ?case by (auto split: prod.splits)
qed

text \<open>What is the end after some number of calls is the end after every larger number.\<close>

lemma run_enough:
  assumes "run_state (run_calls call m p) w = (q, w')" and "over q" and "m \<le> n"
  shows "run_state (run_calls call n p) w = (q, w')"
  using run_more [OF assms(1,2), of "n - m"] assms(3) by simp

end

section \<open>Handling a delivery\<close>

text \<open>
  \<open>handleMessage\<close> after the message was decoded, with \<open>handleRetry\<close>. \<open>Sending\<close> is the choice
  of the sender and the sending; it changes nothing that the other calls read.
\<close>

datatype job_pc =
    Looking
  | Marking_cache
  | Marking_row
  | Sending
  | Sent_row
  | Sent_cache
  | Failed_publish go_error
  | Failed_row go_error
  | Failed_cache go_error
  | Retry_row
  | Retry_cache
  | Retry_timer
  | Settling
  | Done "unit outcome"

fun job_call :: "ext \<Rightarrow> consumer \<Rightarrow> nat \<Rightarrow> mail_job \<Rightarrow> job_pc \<Rightarrow> (world, job_pc) state" where
  "job_call E c tag job Looking = do {
     r \<leftarrow> mails_First E (job_row E job);
     ret (if (case r of Inr mail \<Rightarrow> mail_Status mail = MailStatusCancelled | Inl _ \<Rightarrow> False)
       then Settling else Marking_cache) }"
| "job_call E c tag job Marking_cache = do {
     ignore (SetStatus E (cs_cfg c) (job_MailID job) ''processing'' (job_RetryCount job) []);
     ret Marking_row }"
| "job_call E c tag job Marking_row = do {
     ignore (mails_Update E (job_row E job) (\<lambda>t m. m\<lparr>mail_Status := MailStatusProcessing\<rparr>));
     ret Sending }"
| "job_call E c tag job Sending = do {
     s \<leftarrow> send_job E c job;
     ret (case s of
       Panics \<Rightarrow> Done Panics
     | Returns None \<Rightarrow> Sent_row
     | Returns (Some e) \<Rightarrow>
         if co_MaxRetryCount (cs_cfg c) \<le>s job_RetryCount job + 1 then Failed_publish e else Retry_row) }"
| "job_call E c tag job Sent_row = do {
     now \<leftarrow> time_Now E;
     ignore (mails_Update E (job_row E job)
       (\<lambda>t m. m\<lparr>mail_Status := MailStatusSent, mail_SentAt := Some now\<rparr>));
     ret Sent_cache }"
| "job_call E c tag job Sent_cache = do {
     ignore (SetStatus E (cs_cfg c) (job_MailID job) ''sent'' (job_RetryCount job) []);
     ret Settling }"
| "job_call E c tag job (Failed_publish e) = do {
     ignore (mq_Publish E [] (plain_message (co_FailedQueueName (cs_cfg c)) (next_job job)));
     ret (Failed_row e) }"
| "job_call E c tag job (Failed_row e) = do {
     ignore (mails_Update E (job_row E job) (\<lambda>t m. m\<lparr>mail_Status := MailStatusFailed,
        mail_RetryCount := job_RetryCount job + 1, mail_ErrorMessage := e\<rparr>));
     ret (Failed_cache e) }"
| "job_call E c tag job (Failed_cache e) = do {
     ignore (SetStatus E (cs_cfg c) (job_MailID job) ''failed'' (job_RetryCount job + 1) e);
     ret Settling }"
| "job_call E c tag job Retry_row = do {
     ignore (mails_Update E (job_row E job) (\<lambda>t m. m\<lparr>mail_RetryCount := job_RetryCount job + 1\<rparr>));
     ret Retry_cache }"
| "job_call E c tag job Retry_cache = do {
     ignore (SetStatus E (cs_cfg c) (job_MailID job) ''queued'' (job_RetryCount job + 1) []);
     ret Retry_timer }"
| "job_call E c tag job Retry_timer = do {
     modify (\<lambda>w. w\<lparr>timers := timers w @ [(retry_delay (job_RetryCount job + 1), next_job job)]\<rparr>);
     ret Settling }"
| "job_call E c tag job Settling = do { mq_Ack tag; ret (Done (Returns ())) }"
| "job_call E c tag job (Done r) = ret (Done r)"

text \<open>The body of the loop over the deliveries.\<close>

datatype delivery_pc =
    Received
  | Returning
  | Counting
  | Rejecting
  | Working mail_job job_pc
  | Uncounting "unit outcome"
  | Ended "unit outcome"

fun delivery_call :: "ext \<Rightarrow> consumer \<Rightarrow> delivery \<Rightarrow> delivery_pc \<Rightarrow> (world, delivery_pc) state" where
  "delivery_call E c d Received = do {
     down \<leftarrow> gets is_shutdown;
     ret (if down then Returning else Counting) }"
| "delivery_call E c d Returning = do { mq_Nack (fst d) True; ret (Ended (Returns ())) }"
| "delivery_call E c d Counting = do {
     modify (\<lambda>w. w\<lparr>active_jobs := active_jobs w + 1\<rparr>);
     ret (case unmarshal_job (msg_Body (snd d)) of None \<Rightarrow> Rejecting | Some job \<Rightarrow> Working job Looking) }"
| "delivery_call E c d Rejecting = do { mq_Nack (fst d) False; ret (Uncounting (Returns ())) }"
| "delivery_call E c d (Working job pc) = do {
     pc' \<leftarrow> job_call E c (fst d) job pc;
     ret (case pc' of Done r \<Rightarrow> Uncounting r | _ \<Rightarrow> Working job pc') }"
| "delivery_call E c d (Uncounting r) = do {
     modify (\<lambda>w. w\<lparr>active_jobs := active_jobs w - 1\<rparr>);
     ret (Ended r) }"
| "delivery_call E c d (Ended r) = ret (Ended r)"

definition delivery_over :: "delivery_pc \<Rightarrow> bool" where
  "delivery_over pc = (case pc of Ended _ \<Rightarrow> True | _ \<Rightarrow> False)"

interpretation delivering: goroutine "delivery_call E c d" delivery_over for E c d
  by unfold_locales (auto simp: delivery_over_def split: delivery_pc.splits)

lemma delivery_over_Ended [simp]: "delivery_over (Ended r)"
  by (simp add: delivery_over_def)

text \<open>The calls of a decoded job, as they follow each other.\<close>

lemma sent_calls:
  "run_state (run_calls (job_call E c tag job) (Suc (Suc (Suc 0))) Sent_row) w
     = (Done (Returns ()), snd (run_state (mark_sent E (cs_cfg c) tag job) w))"
  by (simp add: mark_sent_def split: prod.splits)

lemma retry_calls:
  "run_state (run_calls (job_call E c tag job) (Suc (Suc (Suc (Suc 0))))
       (if co_MaxRetryCount (cs_cfg c) \<le>s job_RetryCount job + 1 then Failed_publish e else Retry_row)) w
     = (Done (Returns ()), snd (run_state (handleRetry E c tag job e) w))"
  by (simp add: handleRetry_def Let_def next_job_def split: prod.splits)

definition job_over :: "job_pc \<Rightarrow> bool" where
  "job_over pc = (case pc of Done _ \<Rightarrow> True | _ \<Rightarrow> False)"

interpretation working: goroutine "job_call E c tag job" job_over for E c tag job
  by unfold_locales (auto simp: job_over_def split: job_pc.splits)

lemma job_over_Done [simp]: "job_over (Done r)"
  by (simp add: job_over_def)

lemma run_calls_Suc:
  "run_state (run_calls call (Suc n) p) w =
     (case run_state (call p) w of (q, w') \<Rightarrow> run_state (run_calls call n q) w')"
  by (simp split: prod.splits)

lemma run_calls_add:
  "run_state (run_calls call (m + n) p) w =
     (case run_state (run_calls call m p) w of (q, w') \<Rightarrow> run_state (run_calls call n q) w')"
  by (induction m arbitrary: p w) (auto split: prod.splits)

lemma sending_calls:
  "run_state (run_calls (job_call E c tag job) (Suc (Suc (Suc (Suc (Suc 0))))) Sending) w =
     (case run_state (send_job E c job) w of
        (Panics, w') \<Rightarrow> (Done Panics, w')
      | (Returns None, w') \<Rightarrow> (Done (Returns ()), snd (run_state (mark_sent E (cs_cfg c) tag job) w'))
      | (Returns (Some e), w') \<Rightarrow> (Done (Returns ()), snd (run_state (handleRetry E c tag job e) w')))"
proof -
  obtain s w' where s: "run_state (send_job E c job) w = (s, w')" by fastforce
  show ?thesis
  proof (cases s)
    case Panics
    then show ?thesis using s by simp
  next
    case (Returns err)
    show ?thesis
    proof (cases err)
      case None
      have "run_state (run_calls (job_call E c tag job) (Suc (Suc (Suc (Suc 0)))) Sent_row) w'
          = (Done (Returns ()), snd (run_state (mark_sent E (cs_cfg c) tag job) w'))"
        by (rule working.run_enough [OF sent_calls]) simp_all
      with Returns None s show ?thesis by (simp only: run_calls_Suc [of _ _ Sending]) simp
    next
      case (Some e)
      with Returns s retry_calls [of E c tag job e w'] show ?thesis
        by (simp only: run_calls_Suc [of _ _ Sending]) simp
    qed
  qed
qed

lemma job_calls:
  "run_state (run_calls (job_call E c tag job) (Suc (Suc (Suc (Suc (Suc (Suc (Suc (Suc 0)))))))) Looking) w =
     map_prod Done id (run_state (handle_job E c tag job) w)"
proof -
  obtain r w1 where r: "run_state (mails_First E (job_row E job)) w = (r, w1)" by fastforce
  show ?thesis
  proof (cases "case r of Inr mail \<Rightarrow> mail_Status mail = MailStatusCancelled | Inl _ \<Rightarrow> False")
    case True
    with r show ?thesis
      by (simp only: run_calls_Suc [of _ _ Looking]) (simp add: handle_job_def)
  next
    case False
    obtain w2 where m: "run_state (mark_processing E (cs_cfg c) job) w1 = ((), w2)" by (metis old.unit.exhaust surj_pair)
    then have "run_state (run_calls (job_call E c tag job) (Suc (Suc 0)) Marking_cache) w1 = (Sending, w2)"
      by (simp add: mark_processing_def split: prod.splits)
    with False r sending_calls [of E c tag job w2]
      run_calls_add [of "job_call E c tag job" "Suc (Suc 0)" "Suc (Suc (Suc (Suc (Suc 0))))" Marking_cache w1] m
    show ?thesis
      by (simp only: run_calls_Suc [of _ _ Looking])
        (auto simp: handle_job_def split: prod.splits outcome.splits option.splits)
  qed
qed

lemma working_calls:
  assumes "run_state (run_calls (job_call E c (fst d) job) n pc) w = (Done r, w')" and "\<not> job_over pc"
  shows "run_state (run_calls (delivery_call E c d) (Suc n) (Working job pc)) w
     = (Ended r, w'\<lparr>active_jobs := active_jobs w' - 1\<rparr>)"
  using assms
proof (induction n arbitrary: pc w)
  case 0
  then show ?case by simp
next
  case (Suc n)
  obtain q v where q: "run_state (job_call E c (fst d) job pc) w = (q, v)" by fastforce
  then have rest: "run_state (run_calls (job_call E c (fst d) job) n q) v = (Done r, w')"
    using Suc.prems(1) by simp
  show ?case
  proof (cases "job_over q")
    case True
    then obtain r' where r': "q = Done r'" by (cases q) (simp_all add: job_over_def)
    then have "r' = r" "v = w'" using rest working.run_over [of q E c "fst d" job n] True by simp_all
    then have "run_state (run_calls (delivery_call E c d) (Suc (Suc n)) (Working job pc)) w
        = run_state (run_calls (delivery_call E c d) (Suc n) (Uncounting r)) w'"
      using q r' by (simp only: run_calls_Suc [of _ _ "Working job pc"]) simp
    moreover have "run_state (run_calls (delivery_call E c d) (Suc n) (Uncounting r)) w'
        = (Ended r, w'\<lparr>active_jobs := active_jobs w' - 1\<rparr>)"
      by (rule delivering.run_enough [where m = "Suc 0"]) simp_all
    ultimately show ?thesis by simp
  next
    case False
    then have "run_state (delivery_call E c d (Working job pc)) w = (Working job q, v)"
      using q by (cases q) (simp_all add: job_over_def)
    with Suc.IH [OF rest False] show ?thesis
      by (simp only: run_calls_Suc [of _ _ "Working job pc"] prod.case)
  qed
qed

text \<open>How many calls a delivery takes at most: two at the beginning, eight for the job, one at the end.\<close>

definition delivery_calls :: nat where
  "delivery_calls = 11"

lemma delivery_calls_ok:
  assumes "delivery_calls \<le> n"
  shows "run_state (run_calls (delivery_call E c d) n Received) w
     = map_prod Ended id (run_state (process_delivery E c d) w)"
proof -
  obtain a v where p: "run_state (process_delivery E c d) w = (a, v)" by fastforce
  have enough: "run_state (run_calls (delivery_call E c d) n Received) w
      = map_prod Ended id (run_state (process_delivery E c d) w)"
    if "run_state (run_calls (delivery_call E c d) m Received) w
      = map_prod Ended id (run_state (process_delivery E c d) w)" "m \<le> n" for m n
    using delivering.run_enough [of E c d m Received w "Ended a" v n] that p by simp
  have "run_state (run_calls (delivery_call E c d) delivery_calls Received) w
     = map_prod Ended id (run_state (process_delivery E c d) w)"
  proof (cases "is_shutdown w")
    case True
    have "run_state (run_calls (delivery_call E c d) (Suc (Suc 0)) Received) w
      = map_prod Ended id (run_state (process_delivery E c d) w)"
      using True by (simp add: process_delivery_def split: prod.splits)
    from enough [OF this] show ?thesis by (simp add: delivery_calls_def)
  next
    case False
    let ?w = "w\<lparr>active_jobs := active_jobs w + 1\<rparr>"
    show ?thesis
    proof (cases "unmarshal_job (msg_Body (snd d))")
      case None
      have "run_state (run_calls (delivery_call E c d) (Suc (Suc (Suc (Suc 0)))) Received) w
        = map_prod Ended id (run_state (process_delivery E c d) w)"
        using False None by (simp add: process_delivery_def handleMessage_def split: prod.splits)
      from enough [OF this] show ?thesis by (simp add: delivery_calls_def)
    next
      case (Some job)
      obtain r w' where h: "run_state (handle_job E c (fst d) job) ?w = (r, w')" by fastforce
      have "run_state (run_calls (job_call E c (fst d) job) (Suc (Suc (Suc (Suc (Suc (Suc (Suc (Suc 0)))))))) Looking) ?w
          = (Done r, w')"
        by (simp add: job_calls h del: run_calls.simps)
      from working_calls [OF this]
      have "run_state (run_calls (delivery_call E c d) 9 (Working job Looking)) ?w
          = (Ended r, w'\<lparr>active_jobs := active_jobs w' - 1\<rparr>)"
        by (simp add: job_over_def eval_nat_numeral del: run_calls.simps)
      then have "run_state (run_calls (delivery_call E c d) (Suc 9) Counting) w
          = (Ended r, w'\<lparr>active_jobs := active_jobs w' - 1\<rparr>)"
        using Some by (simp only: run_calls_Suc) simp
      then have "run_state (run_calls (delivery_call E c d) (Suc (Suc 9)) Received) w
          = (Ended r, w'\<lparr>active_jobs := active_jobs w' - 1\<rparr>)"
        using False by (simp only: run_calls_Suc [of _ _ Received]) simp
      then have "run_state (run_calls (delivery_call E c d) delivery_calls Received) w
          = (Ended r, w'\<lparr>active_jobs := active_jobs w' - 1\<rparr>)" by (simp add: delivery_calls_def)
      with False Some h show ?thesis by (simp add: process_delivery_def handleMessage_def)
    qed
  qed
  from enough [OF this assms] show ?thesis .
qed

section \<open>Accepting a mail\<close>

text \<open>
  The end of \<open>Send\<close>, of \<open>processSingleMail\<close> and of the receiver's \<open>Data\<close>: the row, the job, and
  what is noted of the result.
\<close>

datatype accept_pc =
    Creating
  | Publishing
  | Noting_failed go_error
  | Noting_queued
  | Refused gorm_error
  | Unqueued go_error
  | Accepted

fun accept_call :: "ext \<Rightarrow> config \<Rightarrow> mail \<Rightarrow> mail_job \<Rightarrow> accept_pc \<Rightarrow> (world, accept_pc) state" where
  "accept_call E cfg m job Creating = do {
     r \<leftarrow> mails_Create E m;
     ret (case r of Inl e \<Rightarrow> Refused e | Inr _ \<Rightarrow> Publishing) }"
| "accept_call E cfg m job Publishing = do {
     err \<leftarrow> PublishMail E cfg job;
     ret (case err of Some e \<Rightarrow> Noting_failed e | None \<Rightarrow> Noting_queued) }"
| "accept_call E cfg m job (Noting_failed e) = do {
     ignore (mails_Update E (\<lambda>r. mail_ID r = mail_ID m) (\<lambda>t r. r\<lparr>mail_Status := MailStatusFailed\<rparr>));
     ret (Unqueued e) }"
| "accept_call E cfg m job Noting_queued = do {
     ignore (SetStatus E cfg (x_uuid_string E (mail_ID m)) ''queued'' 0 []);
     ret Accepted }"
| "accept_call E cfg m job (Refused e) = ret (Refused e)"
| "accept_call E cfg m job (Unqueued e) = ret (Unqueued e)"
| "accept_call E cfg m job Accepted = ret Accepted"

fun accept_over :: "accept_pc \<Rightarrow> bool" where
  "accept_over (Refused _) = True" | "accept_over (Unqueued _) = True" | "accept_over Accepted = True"
| "accept_over _ = False"

interpretation accepting: goroutine "accept_call E cfg m job" accept_over for E cfg m job
  by unfold_locales (auto elim: accept_over.elims)

text \<open>The answers of the API and of the receiver at the end.\<close>

definition accept_result :: "accept_pc \<Rightarrow> accept_error + unit" where
  "accept_result pc =
     (case pc of Refused _ \<Rightarrow> Inl CreateFailed | Accepted \<Rightarrow> Inr () | _ \<Rightarrow> Inl QueueFailed)"

definition inbound_result :: "accept_pc \<Rightarrow> go_error option" where
  "inbound_result pc =
     (case pc of Refused e \<Rightarrow> Some (''failed to create mail record: '' @ gorm_text e)
      | Unqueued e \<Rightarrow> Some (''failed to queue mail: '' @ e) | _ \<Rightarrow> None)"

lemma accept_calls_ok:
  "run_state (accept_mail E cfg m atts) w =
     (case run_state (for_err (save_attachment E cfg (mail_ID m)) atts) w of
        (Inl e, w1) \<Rightarrow> (Inl (AttachmentRefused e), w1)
      | (Inr saved, w1) \<Rightarrow> map_prod accept_result id (run_state
          (run_calls (accept_call E cfg (m\<lparr>mail_Attachments := map fst saved\<rparr>) (job_of_mail E m (map snd saved)))
             3 Creating) w1))"
  by (simp add: accept_mail_def eval_nat_numeral)
     (auto simp: accept_result_def eval_nat_numeral split: prod.splits sum.splits option.splits)

lemma inbound_calls_ok:
  "run_state (enqueue_mail E cfg m) w =
     map_prod inbound_result id (run_state (run_calls (accept_call E cfg m (inbound_job E m)) 3 Creating) w)"
  by (simp add: enqueue_mail_def eval_nat_numeral)
     (auto simp: inbound_result_def eval_nat_numeral split: prod.splits sum.splits option.splits)

section \<open>Cancelling\<close>

definition cancelled_response :: "string \<Rightarrow> response" where
  "cancelled_response mailID = (200, JO
     [(''success'', JB True), (''mail_id'', json_string mailID), (''status'', JS ''cancelled''),
      (''message'', JS (utf8 [233, 131, 181, 228, 187, 182, 229, 183, 178, 229, 143, 150, 230, 182, 136]))])"

datatype cancel_pc = Finding | Overwriting mail | Noting | Answered response

fun cancel_call :: "ext \<Rightarrow> config \<Rightarrow> gin_values \<Rightarrow> string \<Rightarrow> cancel_pc \<Rightarrow> (world, cancel_pc) state" where
  "cancel_call E cfg ctx mailID Finding = do {
     r \<leftarrow> mails_First E (\<lambda>m. id_is E mailID (mail_ID m)
            \<and> as_string (ctx ''client_id'') = Some (mail_ClientID m));
     ret (case r of
       Inl _ \<Rightarrow> Answered not_found
     | Inr m \<Rightarrow>
         if mail_Status m \<noteq> MailStatusQueued then
           Answered (gin_error 400 ''cannot_cancel'' ''Only queued mails can be cancelled'')
         else Overwriting m) }"
| "cancel_call E cfg ctx mailID (Overwriting m) = do {
     ignore (mails_Update E (\<lambda>r. mail_ID r = mail_ID m) (\<lambda>t r. r\<lparr>mail_Status := MailStatusCancelled\<rparr>));
     ret Noting }"
| "cancel_call E cfg ctx mailID Noting = do {
     ignore (SetStatus E cfg mailID ''cancelled'' 0 []);
     ret (Answered (cancelled_response mailID)) }"
| "cancel_call E cfg ctx mailID (Answered a) = ret (Answered a)"

definition cancel_over :: "cancel_pc \<Rightarrow> bool" where
  "cancel_over pc = (case pc of Answered _ \<Rightarrow> True | _ \<Rightarrow> False)"

interpretation cancelling: goroutine "cancel_call E cfg ctx i" cancel_over for E cfg ctx i
  by unfold_locales (auto simp: cancel_over_def split: cancel_pc.splits)

lemma cancel_calls_ok:
  "run_state (run_calls (cancel_call E cfg ctx i) 3 Finding) w
     = map_prod Answered id (run_state (Cancel E cfg ctx i) w)"
  by (simp add: Cancel_def eval_nat_numeral)
     (auto simp: cancelled_response_def eval_nat_numeral split: prod.splits sum.splits)

section \<open>Properties\<close>

text \<open>
  C6: the cut into calls is the code: for every environment and state, a delivery that makes
  its calls without a pause ends, after \<open>delivery_calls\<close> calls at the latest, with the result
  and the state of \<open>process_delivery\<close>; accepting a mail by the API or the receiver is the
  storing of attachments followed by three calls; and cancelling is three calls.
\<close>

theorem handlers_by_calls:
  "run_state (run_calls (delivery_call E c d) (delivery_calls + k) Received) w
     = map_prod Ended id (run_state (process_delivery E c d) w)
   \<and> run_state (accept_mail E cfg m atts) w =
     (case run_state (for_err (save_attachment E cfg (mail_ID m)) atts) w of
        (Inl e, w1) \<Rightarrow> (Inl (AttachmentRefused e), w1)
      | (Inr saved, w1) \<Rightarrow> map_prod accept_result id (run_state
          (run_calls (accept_call E cfg (m\<lparr>mail_Attachments := map fst saved\<rparr>) (job_of_mail E m (map snd saved)))
             3 Creating) w1))
   \<and> run_state (enqueue_mail E cfg m) w =
     map_prod inbound_result id (run_state (run_calls (accept_call E cfg m (inbound_job E m)) 3 Creating) w)
   \<and> run_state (run_calls (cancel_call E cfg ctx i) 3 Finding) w
     = map_prod Answered id (run_state (Cancel E cfg ctx i) w)"
  using delivery_calls_ok [of "delivery_calls + k"] accept_calls_ok inbound_calls_ok cancel_calls_ok by simp

end
