(* ===== verification/Faults.thy ===== *)
theory Faults
  imports System
begin

text \<open>
  What holds of the system whichever calls fail: database, cache, broker, files, HTTP. A mail
  may then be lost, but no mail ever has two jobs. The invariant is the part of the one of
  \<open>System\<close> that needs no service to answer.
\<close>

section \<open>The invariant without the services\<close>

definition has_row :: "uuid \<Rightarrow> world \<Rightarrow> bool" where
  "has_row i w \<longleftrightarrow> t_find mail_ID i (mails w) \<noteq> None"

definition safe :: "ext \<Rightarrow> config \<Rightarrow> world \<Rightarrow> bool" where
  "safe E cfg w \<longleftrightarrow> list_all (names_mail E) (pending_ids cfg w)
     \<and> (\<forall>i. pending E cfg w i \<le> 1 \<and> (pending E cfg w i = 1 \<longrightarrow> has_row i w))"

text \<open>Rows are never deleted.\<close>

definition rows_stay :: "world \<Rightarrow> world \<Rightarrow> bool" where
  "rows_stay w w' \<longleftrightarrow> (\<forall>i. has_row i w \<longrightarrow> has_row i w')"

interpretation rows_stay: frame_rel rows_stay
  by unfold_locales (auto simp: rows_stay_def)

lemma rows_stay_same: "mails w' = mails w \<Longrightarrow> rows_stay w w'"
  by (simp add: rows_stay_def has_row_def)

lemma rows_stay_changes:
  "(\<And>m. mail_ID (f m) = mail_ID m) \<Longrightarrow> rows_stay w (w\<lparr>ticks := n, mails := t_update P f (mails w)\<rparr>)"
  "rows_stay w (w\<lparr>ticks := n, mails := t_insert row (mails w)\<rparr>)"
  by (auto simp: rows_stay_def has_row_def t_find_update t_find_insert split: option.splits)

text \<open>Fewer jobs and more rows keep the invariant.\<close>

lemma safe_less:
  assumes "safe E cfg w" and "rows_stay w w'" and "set (pending_ids cfg w') \<subseteq> set (pending_ids cfg w)"
    and "\<And>i. pending E cfg w' i \<le> pending E cfg w i"
  shows "safe E cfg w'"
  unfolding safe_def
proof (intro conjI allI impI)
  show "list_all (names_mail E) (pending_ids cfg w')" using assms(1,3) by (auto simp: safe_def list_all_iff)
  fix i
  have "pending E cfg w i \<le> 1" using assms(1) by (simp add: safe_def)
  then show "pending E cfg w' i \<le> 1" using assms(4) [of i] by simp
  assume "pending E cfg w' i = 1"
  then have "pending E cfg w i = 1" using \<open>pending E cfg w i \<le> 1\<close> assms(4) [of i] by simp
  then show "has_row i w'" using assms(1,2) by (simp add: safe_def rows_stay_def)
qed

lemma safe_books:
  assumes "safe E cfg w" and "rows_stay w w'" and "broker w' = broker w" "timers w' = timers w"
  shows "safe E cfg w'"
  using assms(1,2)
  by (rule safe_less) (simp_all add: pending_def pending_ids_def waiting_def assms(3,4))

lemma safe_same:
  "mails w' = mails w \<Longrightarrow> broker w' = broker w \<Longrightarrow> timers w' = timers w \<Longrightarrow> safe E cfg w' = safe E cfg w"
  by (simp add: safe_def pending_def pending_ids_def waiting_def has_row_def)

lemma safe_fresh: "fresh cfg w \<Longrightarrow> safe E cfg w"
  by (simp add: fresh_def safe_def pending_def pending_ids_def)

section \<open>Publishing\<close>

lemma publish_queue:
  "queue_of (publish_to [] m b) q = queue_of b q
   \<or> (msg_RoutingKey m = q \<and> queue_of (publish_to [] m b) q = queue_of b q @ [m])"
  by (cases "bk_queues b (msg_RoutingKey m) = None") (simp_all add: publish_undeclared publish_default)

lemma publish_elsewhere: "msg_RoutingKey m \<noteq> q \<Longrightarrow> queue_of (publish_to [] m b) q = queue_of b q"
  using publish_queue by blast

text \<open>A job that is published for a mail with a row and no other job.\<close>

lemma safe_publish:
  assumes inv: "safe E cfg w" and row: "has_row i w'" "rows_stay w w'" and none: "pending E cfg w i = 0"
    and id: "is_ascii (job_MailID job)" "x_pg_uuid E (job_MailID job) = Some i"
    and m: "msg_Body m = Json (marshal_job job)" and b: "broker w' = publish_to [] m (broker w)"
    and ts: "timers w' = timers w"
  shows "safe E cfg w'"
proof -
  let ?q = "co_MailQueueName cfg"
  have "to_valid_utf8 (job_MailID job) = job_MailID job" using id(1) by simp
  with unmarshal_total [of job] have mid: "msg_mail_id m = Some (job_MailID job)"
    by (auto simp: msg_mail_id_def m)
  from publish_queue [of m "broker w" ?q] consider "waiting w' ?q = waiting w ?q" | "waiting w' ?q = waiting w ?q @ [m]"
    by (auto simp: waiting_def b)
  then show ?thesis
  proof cases
    case 1
    show ?thesis by (rule safe_less [OF inv row(2)]) (simp_all add: pending_def pending_ids_def 1 ts)
  next
    case 2
    have p: "pending E cfg w' k = pending E cfg w k + (if k = i then 1 else 0)" for k
      using id(2) by (simp add: pending_def pending_ids_def 2 ts mid)
    have "list_all (names_mail E) (pending_ids cfg w')"
      using inv id by (simp add: safe_def pending_ids_def 2 ts mid names_mail_def)
    moreover have "pending E cfg w' k \<le> 1 \<and> (pending E cfg w' k = 1 \<longrightarrow> has_row k w')" for k
      using inv none row by (auto simp: p safe_def rows_stay_def)
    ultimately show ?thesis by (simp add: safe_def)
  qed
qed

lemma safe_new:
  assumes inv: "safe E cfg w" and E: "printed_ids E" and new: "t_find mail_ID i (mails w) = None"
    and row: "mails w' = t_insert row (mails w)" "mail_ID row = i"
    and pub: "broker w' = publish_to [] (plain_message (co_MailQueueName cfg) job) (broker w)"
    and job: "job_MailID job = x_uuid_string E i" and ts: "timers w' = timers w"
  shows "safe E cfg w'"
proof (rule safe_publish [OF inv _ _ _ _ _ _ pub ts])
  show "has_row i w'" using new row by (simp add: has_row_def mail_rows.find_add)
  show "rows_stay w w'" using row(1) by (auto simp: rows_stay_def has_row_def t_find_insert split: option.splits)
  have "\<not> has_row i w" using new by (simp add: has_row_def)
  then show "pending E cfg w i = 0"
    using inv by (auto simp: safe_def le_Suc_eq dest!: spec [of _ i])
qed (use E in \<open>simp_all add: job printed_ids_def plain_message_def\<close>)

lemma rows_stay_created:
  assumes "mails w' = t_insert row (mails w) \<or> (\<exists>t'. mails w' = t_update P (f t') (t_insert row (mails w)))"
    and "\<And>t m. mail_ID (f t m) = mail_ID m"
  shows "rows_stay w w'"
  using assms by (auto simp: rows_stay_def has_row_def t_find_update t_find_insert split: option.splits)

lemma accept_mail_safe:
  assumes "printed_ids E"
  shows "within (kept (safe E cfg)) (accept_mail E cfg m atts)"
proof
  fix w
  obtain r w' where a: "run_state (accept_mail E cfg m atts) w = (r, w')" by fastforce
  have "within (same (untouched EP_Send)) (accept_mail E cfg m atts)" by (rule accept_within) simp
  from arg_cong [OF within_same [OF this a], of timers] have ts: "timers w' = timers w" by simp
  have "safe E cfg w'" if inv: "safe E cfg w"
    using a
  proof (cases rule: accept_mail_cases)
    case (refused e)
    with ts inv safe_same [of w' w] show ?thesis by simp
  next
    case (unqueued saved t)
    have "rows_stay w w'" using unqueued(4) by (rule rows_stay_created) simp
    then show ?thesis by (rule safe_books [OF inv _ unqueued(2) ts])
  next
    case (queued saved t)
    show ?thesis
      by (rule safe_new [OF inv assms queued(3,4) _ queued(5) _ ts])
        (simp_all add: stored_mail_def job_of_mail_def)
  qed
  then show "kept (safe E cfg) w (snd (run_state (accept_mail E cfg m atts) w))"
    by (simp add: kept_def a)
qed

lemma Data_safe:
  assumes E: "printed_ids E" and inv: "safe E cfg w" and d: "Data E cfg s input w = Some (r, w')"
  shows "safe E cfg w'"
proof (cases "\<exists>buf m w1. input = Inr buf \<and> parseMailData E cfg s buf w = Some (m, w1)
    \<and> run_state (enqueue_mail E cfg m) w1 = (r, w')")
  case False
  with d have "w' = w" by (auto simp: Data_def Let_def split: sum.splits if_splits option.splits)
  with inv show ?thesis by simp
next
  case True
  then obtain buf m w1 where m: "parseMailData E cfg s buf w = Some (m, w1)"
    and e: "run_state (enqueue_mail E cfg m) w1 = (r, w')" by blast
  from parseMailData_ok [OF m] have f: "but_files w1 = but_files w" by simp
  have "timers w1 = timers w" using arg_cong [OF f, of timers] by (simp add: but_files_def)
  with inv but_files_fields [OF f] safe_same [of w1 w] have inv1: "safe E cfg w1" by simp
  have "within (same timers) (enqueue_mail E cfg m)"
    unfolding enqueue_mail_def by (intro frames same.rules; simp add: same_def)
  note ts = within_same [OF this e]
  from e show ?thesis
  proof (cases rule: enqueue_mail_cases)
    case (refused e')
    with ts inv1 safe_same [of w' w1] show ?thesis by simp
  next
    case (unqueued e' t)
    have "rows_stay w1 w'" using unqueued(4) by (rule rows_stay_created) simp
    then show ?thesis by (rule safe_books [OF inv1 _ unqueued(2) ts])
  next
    case (queued t)
    show ?thesis
      by (rule safe_new [OF inv1 E queued(2,3) _ queued(4) _ ts])
        (simp_all add: stored_mail_def inbound_job_def)
  qed
qed

section \<open>Requests\<close>

lemma ticked_safe: "ticked (kept (safe E cfg))"
  by (simp add: kept_def safe_same [of "w\<lparr>ticks := n\<rparr>" w for w n])

lemma send_safe:
  assumes "printed_ids E"
  shows "within (kept (safe E cfg)) (Send E cfg svc ctx body)"
    and "within (kept (safe E cfg)) (SendBatch E cfg ctx body)"
  unfolding Send_def SendBatch_def processSingleMail_def prod.case
  by (intro frames kept.rules outcome_within accept_mail_safe [OF assms] read_within ticked_safe
      kept.frame_rel_axioms)+

lemma Cancel_rows: "within rows_stay (Cancel E cfg ctx i)"
  unfolding Cancel_def
  by (intro frames rows_stay.rules) (simp_all add: rows_stay_same rows_stay_changes)

lemma handler_safe:
  assumes "printed_ids E" and svc: "svc = None \<longrightarrow> \<not> sender_config_group ep"
  shows "within (kept (safe E cfg)) (handler E cfg svc ep rq ctx)"
proof (cases "ep = EP_Send \<or> ep = EP_SendBatch")
  case True
  then show ?thesis using send_safe [OF assms(1)] by auto
next
  case False
  have rows: "within rows_stay (handler E cfg svc ep rq ctx)" if "ep = EP_Cancel i" for i
    unfolding that handler.simps
    by (rule answers_within [OF rows_stay.frame_rel_axioms Cancel_rows])
  show ?thesis
  proof
    fix w
    let ?w' = "snd (run_state (handler E cfg svc ep rq ctx) w)"
    have u: "untouched ep ?w' = untouched ep w"
      using within_snd [OF handler_within [OF svc]] by (simp add: same_def)
    have "broker ?w' = broker w" using arg_cong [OF u, of broker] False by (cases ep) simp_all
    moreover have "timers ?w' = timers w" using arg_cong [OF u, of timers] False by (cases ep) simp_all
    moreover have "rows_stay w ?w'"
    proof (cases "\<exists>i. ep = EP_Cancel i")
      case True
      then obtain i where "ep = EP_Cancel i" ..
      from within_snd [OF rows [OF this]] show ?thesis .
    next
      case noc: False
      with arg_cong [OF u, of mails] False have "mails ?w' = mails w" by (cases ep) simp_all
      then show ?thesis by (rule rows_stay_same)
    qed
    ultimately show "kept (safe E cfg) w ?w'" unfolding kept_def by (intro impI) (rule safe_books)
  qed
qed

lemma serve_safe:
  assumes "printed_ids E" and inv: "safe E cfg w" and "run_state (serve E cfg svc ep rq) w = (answer, w')"
  shows "safe E cfg w'"
  using assms(3)
proof (cases rule: serve_cases)
  case refused
  from arg_cong [OF refused(1), of mails] arg_cong [OF refused(1), of broker] arg_cong [OF refused(1), of timers]
    inv safe_same [of w' w] show ?thesis by (simp add: but_ticks_def)
next
  case health
  note u = within_same [OF read_untouched(1) health(2), of EP_Health]
  from arg_cong [OF u, of mails] arg_cong [OF u, of broker] arg_cong [OF u, of timers] inv
    safe_same [of w' w] show ?thesis by simp
next
  case (handled ctx w1 r)
  from arg_cong [OF handled(4), of mails] arg_cong [OF handled(4), of broker] arg_cong [OF handled(4), of timers]
    inv safe_same [of w1 w] have "safe E cfg w1" by (simp add: but_ticks_def)
  with handler_safe [OF assms(1) handled(2)] handled(6) show ?thesis by (metis within_kept)
qed

section \<open>The worker\<close>

text \<open>What waits for the worker: the mail queue and the timers.\<close>

definition backlog :: "config \<Rightarrow> world \<Rightarrow> message list \<times> (go_int \<times> mail_job) list" where
  "backlog cfg w = (waiting w (co_MailQueueName cfg), timers w)"

lemma backlog_fields [simp]:
  "backlog cfg (w\<lparr>ticks := n\<rparr>) = backlog cfg w" "backlog cfg (w\<lparr>ticks := n, mails := ms\<rparr>) = backlog cfg w"
  "backlog cfg (w\<lparr>ticks := n, cache := c\<rparr>) = backlog cfg w" "backlog cfg (w\<lparr>active_jobs := a\<rparr>) = backlog cfg w"
  "backlog cfg (w\<lparr>broker := ack tag (broker w)\<rparr>) = backlog cfg w"
  by (simp_all add: backlog_def waiting_def)

lemma backlog_elsewhere [simp]:
  "msg_RoutingKey m \<noteq> co_MailQueueName cfg \<Longrightarrow>
   backlog cfg (w\<lparr>ticks := n, broker := publish_to [] m (broker w)\<rparr>) = backlog cfg w"
  by (simp add: backlog_def waiting_def publish_elsewhere)

lemma marks_backlog:
  "within (same (backlog cfg)) (mark_processing E cfg job)" "within (same (backlog cfg)) (mark_sent E cfg tag job)"
  unfolding mark_processing_def mark_sent_def by (intro frames same.rules; simp add: same_def)+

lemma worker_rows:
  "within rows_stay (mark_processing E cfg job)" "within rows_stay (mark_sent E cfg tag job)"
  "within rows_stay (handleRetry E c tag job e)"
  unfolding mark_processing_def mark_sent_def handleRetry_def Let_def
  by (intro frames rows_stay.rules; simp add: rows_stay_same rows_stay_changes)+

text \<open>What a delivery may leave behind: nothing, or one timer for the next attempt.\<close>

definition replanned :: "config \<Rightarrow> mail_job \<Rightarrow> world \<Rightarrow> world \<Rightarrow> bool" where
  "replanned cfg job w w' \<longleftrightarrow> waiting w' (co_MailQueueName cfg) = waiting w (co_MailQueueName cfg)
     \<and> (timers w' = timers w \<or> timers w' = timers w @ [(retry_delay (job_RetryCount job + 1), next_job job)])"

lemma replanned_backlog: "backlog cfg w' = backlog cfg w \<Longrightarrow> replanned cfg job w w'"
  by (simp add: replanned_def backlog_def)

lemma handleRetry_replans:
  assumes q: "co_MailQueueName cfg \<noteq> co_FailedQueueName cfg"
    and run: "run_state (handleRetry E (worker_consumer E cfg) tag job e) w = ((), w')"
  shows "replanned cfg job w w'"
proof (cases "co_MaxRetryCount cfg \<le>s job_RetryCount job + 1")
  case True
  have "within (same (backlog cfg)) (handleRetry E (worker_consumer E cfg) tag job e)"
    using True q unfolding handleRetry_def Let_def
    by simp (intro frames same.rules; simp add: same_def plain_message_def)
  then show ?thesis using run by (intro replanned_backlog) (rule within_same)
next
  case False
  let ?job = "next_job job"
  define before where "before = do {
       ignore (mails_Update E (job_row E job) (\<lambda>t m. m\<lparr>mail_RetryCount := job_RetryCount ?job\<rparr>));
       ignore (SetStatus E cfg (job_MailID ?job) ''queued'' (job_RetryCount ?job) []) }"
  have "within (same (backlog cfg)) before"
    unfolding before_def by (intro frames same.rules; simp add: same_def)
  then have "backlog cfg (snd (run_state before w)) = backlog cfg w" by (simp add: within_def same_def)
  moreover have "timers w' = timers (snd (run_state before w)) @ [(retry_delay (job_RetryCount job + 1), ?job)]"
    "broker w' = ack tag (broker (snd (run_state before w)))"
    using run False by (auto simp: handleRetry_def before_def next_job_def)
  ultimately show ?thesis by (simp add: replanned_def backlog_def waiting_def)
qed

lemma deliver_books:
  "run_state (deliver_job E cfg job) w = (r, w') \<Longrightarrow> backlog cfg w' = backlog cfg w \<and> rows_stay w w'"
  by (frule worker.store_unchanged(1), frule worker.store_unchanged(5), frule worker.store_unchanged(6))
    (simp add: backlog_def waiting_def rows_stay_same)

lemma handleMessage_replans:
  assumes q: "co_MailQueueName cfg \<noteq> co_FailedQueueName cfg" and job: "unmarshal_job (msg_Body (snd d)) = Some job"
    and run: "run_state (handleMessage E (worker_consumer E cfg) d) w = (r, w')"
  shows "replanned cfg job w w' \<and> rows_stay w w'"
proof -
  let ?w = "w\<lparr>active_jobs := active_jobs w + 1\<rparr>"
  obtain v where h: "run_state (handle_job E (worker_consumer E cfg) (fst d) job) ?w = (r, v)"
    and w': "w' = v\<lparr>active_jobs := active_jobs v - 1\<rparr>"
    using job run by (auto simp: handleMessage_def split: prod.splits)
  from h have "replanned cfg job ?w v \<and> rows_stay ?w v"
  proof (cases rule: handle_job_cases)
    case (cancelled m)
    then show ?thesis by (simp add: replanned_def waiting_def rows_stay_same)
  next
    case (sent w1 w2)
    have "backlog cfg v = backlog cfg ?w"
      using within_same [OF marks_backlog(1) sent(3)] deliver_books [OF sent(4)] within_same [OF marks_backlog(2) sent(5)]
      by simp
    moreover have "rows_stay ?w v"
      using withinD [OF worker_rows(1) sent(3)] deliver_books [OF sent(4)] withinD [OF worker_rows(2) sent(5)]
      by (simp add: rows_stay_def has_row_def)
    ultimately show ?thesis by (simp add: replanned_backlog)
  next
    case (failed w1 w2 e)
    have "backlog cfg w2 = backlog cfg ?w"
      using within_same [OF marks_backlog(1) failed(3)] deliver_books [OF failed(4)] by simp
    with handleRetry_replans [OF q failed(5)] have "replanned cfg job ?w v" by (simp add: replanned_def backlog_def)
    moreover have "rows_stay ?w v"
      using withinD [OF worker_rows(1) failed(3)] deliver_books [OF failed(4)] withinD [OF worker_rows(3) failed(5)]
      by (simp add: rows_stay_def has_row_def)
    ultimately show ?thesis by simp
  qed
  then show ?thesis by (simp add: w' replanned_def waiting_def rows_stay_def has_row_def)
qed

lemma deliver_some:
  assumes "deliver q b = Some (d, b')"
  obtains ms where "bk_queues b q = Some (snd d # ms)" "bk_queues b' = (bk_queues b)(q \<mapsto> ms)"
    "bk_unacked b' = (fst d, q, snd d) # bk_unacked b"
  using assms by (cases d) (auto simp: deliver_def split: option.splits list.splits)

lemma work_safe:
  assumes inv: "safe E cfg w" and q: "co_MailQueueName cfg \<noteq> co_FailedQueueName cfg"
    and work: "work_step E cfg w = Some w'"
  shows "safe E cfg w'"
proof -
  let ?q = "co_MailQueueName cfg"
  obtain d b where d: "deliver ?q (broker w) = Some (d, b)"
    using work by (auto simp: work_step_def split: option.splits)
  let ?w = "w\<lparr>broker := b\<rparr>"
  obtain r where p: "run_state (process_delivery E (worker_consumer E cfg) d) ?w = (r, w')"
    using work d by (auto simp: work_step_def) (metis prod.collapse)
  obtain ms where ms: "bk_queues (broker w) ?q = Some (snd d # ms)" "bk_queues b = (bk_queues (broker w))(?q \<mapsto> ms)"
    "bk_unacked b = (fst d, ?q, snd d) # bk_unacked (broker w)" using d by (rule deliver_some)
  then have wait: "waiting w ?q = snd d # ms" "waiting ?w ?q = ms" by (auto simp: waiting_def queue_of_def)
  show ?thesis
  proof (cases "is_shutdown w")
    case True
    then have w': "w' = w\<lparr>broker := nack (fst d) True b\<rparr>" using p by (simp add: process_delivery_def mq_Nack_def)
    then have "waiting w' ?q = waiting w ?q"
      using ms by (auto simp: nack_def requeue_def waiting_def queue_of_def)
    with w' show ?thesis
      by (intro safe_less [OF inv rows_stay_same]) (simp_all add: pending_def pending_ids_def)
  next
    case False
    then have h: "run_state (handleMessage E (worker_consumer E cfg) d) ?w = (r, w')"
      using p by (simp add: process_delivery_def)
    have "names_mail E (msg_mail_id (snd d))" using inv wait by (simp add: safe_def pending_ids_def)
    then obtain job i where job: "unmarshal_job (msg_Body (snd d)) = Some job" and i: "x_pg_uuid E (job_MailID job) = Some i"
      by (auto simp: names_mail_def msg_mail_id_def)
    from handleMessage_replans [OF q job h] have re: "replanned cfg job ?w w'" and "rows_stay w w'"
      by (simp_all add: rows_stay_def has_row_def)
    note wait' = re [unfolded replanned_def wait(2), THEN conjunct1]
    show ?thesis
    proof (rule safe_less [OF inv \<open>rows_stay w w'\<close>])
      have "timers w' = timers w \<or> timers w' = timers w @ [(retry_delay (job_RetryCount job + 1), next_job job)]"
        using re by (simp add: replanned_def)
      then show "set (pending_ids cfg w') \<subseteq> set (pending_ids cfg w)"
        by (elim disjE) (simp_all add: pending_ids_def wait wait' msg_mail_id_def job next_job_def, blast+)
      show "pending E cfg w' k \<le> pending E cfg w k" for k
        using re job by (auto simp: replanned_def pending_def pending_ids_def wait wait' msg_mail_id_def next_job_def)
    qed
  qed
qed

lemma wake_safe:
  assumes inv: "safe E cfg w" and i: "i < length (timers w)"
    and run: "run_state (fire_retry E cfg i) w = ((), w')"
  shows "safe E cfg w'"
proof -
  let ?job = "snd (timers w ! i)" and ?rest = "take i (timers w) @ drop (Suc i) (timers w)"
  let ?v = "w\<lparr>timers := ?rest\<rparr>" and ?f = "\<lambda>t. Option.bind (Some (job_MailID (snd t))) (x_pg_uuid E)"
  have id: "names_mail E (Some (job_MailID ?job))"
    using inv i by (auto simp: safe_def pending_ids_def list_all_iff)
  have p: "pending E cfg ?v k + (if x_pg_uuid E (job_MailID ?job) = Some k then 1 else 0) = pending E cfg w k" for k
    using count_pick [OF i, of ?f "Some k"] by (simp add: pending_def pending_ids_def waiting_def comp_def)
  have inv': "safe E cfg ?v"
  proof (rule safe_less [OF inv rows_stay_same])
    show "set (pending_ids cfg ?v) \<subseteq> set (pending_ids cfg w)"
      by (auto simp: pending_ids_def waiting_def dest: in_set_takeD in_set_dropD)
    show "pending E cfg ?v k \<le> pending E cfg w k" for k using p [of k] by linarith
  qed simp
  obtain k where k: "x_pg_uuid E (job_MailID ?job) = Some k" "is_ascii (job_MailID ?job)"
    using id by (auto simp: names_mail_def)
  have one: "pending E cfg w k \<le> 1" "pending E cfg w k = 1 \<longrightarrow> has_row k w" using inv by (simp_all add: safe_def)
  then have none: "pending E cfg ?v k = 0" "has_row k w" using p [of k] k(1) by simp_all
  show ?thesis
  proof (cases "x_mq E (ticks w)")
    case None
    then have w': "w' = ?v\<lparr>ticks := Suc (ticks w), broker := publish_to [] (retry_message cfg ?job) (broker w)\<rparr>"
      using run i by (simp add: fire_retry_def mq_Publish_def)
    show ?thesis
      by (rule safe_publish [OF inv' _ _ none(1) k(2,1)])
        (use none(2) in \<open>simp_all add: w' has_row_def rows_stay_same retry_message_def plain_message_def\<close>)
  next
    case (Some e)
    then have "w' = ?v\<lparr>ticks := Suc (ticks w)\<rparr>" using run i by (simp add: fire_retry_def mq_Publish_def)
    with inv' safe_same [of w' ?v] show ?thesis by simp
  qed
qed

lemma sys_step_safe:
  assumes E: "printed_ids E" and q: "co_MailQueueName cfg \<noteq> co_FailedQueueName cfg"
    and inv: "safe E cfg w" and "sys_step E cfg w w'"
  shows "safe E cfg w'"
  using assms(4)
proof cases
  case (api ep rq answer)
  with E inv show ?thesis by (rule serve_safe)
next
  case (smtp s input r)
  show ?thesis using E inv smtp(2) by (rule Data_safe)
next
  case worker
  then show ?thesis
  proof cases
    case work
    show ?thesis by (rule work_safe [OF inv q work])
  next
    case (wake i)
    show ?thesis by (rule wake_safe [OF inv wake])
  qed
next
  case stop
  then have "w' = w\<lparr>is_shutdown := True\<rparr>" by (simp add: shutdown_begin_def)
  with inv safe_same [of w' w] show ?thesis by simp
qed

text \<open>
  A worker process may also end at any time and be started again: its timers are gone, the rest
  of the state is kept by the services.
\<close>

inductive fault_reach :: "ext \<Rightarrow> config \<Rightarrow> world \<Rightarrow> bool" for E cfg where
  start: "fresh cfg w \<Longrightarrow> fault_reach E cfg w"
| step: "fault_reach E cfg w \<Longrightarrow> sys_step E cfg w w' \<Longrightarrow> fault_reach E cfg w'"
| crash: "fault_reach E cfg w \<Longrightarrow> fault_reach E cfg (w\<lparr>timers := [], is_shutdown := False, active_jobs := 0\<rparr>)"

lemma crash_safe: "safe E cfg w \<Longrightarrow> safe E cfg (w\<lparr>timers := [], is_shutdown := False, active_jobs := 0\<rparr>)"
  by (rule safe_less) (auto simp: rows_stay_same pending_def pending_ids_def waiting_def)

lemma fault_reach_safe:
  "fault_reach E cfg w \<Longrightarrow> printed_ids E \<Longrightarrow> co_MailQueueName cfg \<noteq> co_FailedQueueName cfg \<Longrightarrow> safe E cfg w"
  by (induction rule: fault_reach.induct) (blast intro: safe_fresh sys_step_safe crash_safe)+

section \<open>Properties\<close>

text \<open>
  C10: whichever calls fail, and however often the worker process dies, in every reachable state a mail has at most one job in the mail
  queue and the timers together, and every waiting job decodes and belongs to a mail that has
  a row. So failures can lose a mail but never queue it twice.
\<close>

theorem never_queued_twice:
  assumes "printed_ids E" and "co_MailQueueName cfg \<noteq> co_FailedQueueName cfg" and "fault_reach E cfg w"
  shows "pending E cfg w i \<le> 1 \<and> (pending E cfg w i = 1 \<longrightarrow> t_find mail_ID i (mails w) \<noteq> None)
    \<and> list_all (names_mail E) (pending_ids cfg w)"
  using fault_reach_safe [OF assms(3,1,2)] by (simp add: safe_def has_row_def)

text \<open>The cache is down: the mail is accepted all the same, and has its one job.\<close>

definition no_cache_ext :: ext where
  "no_cache_ext = deployed_ext\<lparr>x_kv := \<lambda>n. Some ''down''\<rparr>"

theorem never_queued_twice_witness:
  "\<exists>w. fault_reach no_cache_ext default_config w \<and> length (mails w) = 1
     \<and> (\<forall>i. pending no_cache_ext default_config w i \<le> 1)"
proof -
  have E: "printed_ids no_cache_ext" using deployed_sample by (simp add: deployed_def printed_ids_def no_cache_ext_def)
  obtain mr where mr: "x_mime no_cache_ext ''hi'' = Inr mr" "mr_part mr = (\<lambda>n. PartEOF)"
    by (simp add: sample_ext_def deployed_ext_def no_cache_ext_def)
  then have "\<exists>m w1. parseMailData no_cache_ext default_config NewSession ''hi'' sample_world = Some (m, w1)"
    by (simp add: parseMailData_def read_parts_eof split: prod.splits)
  then obtain m w1 where p: "parseMailData no_cache_ext default_config NewSession ''hi'' sample_world = Some (m, w1)"
    by blast
  then have "mails w1 = []" using parseMailData_ok [OF p] by (auto dest: but_files_fields)
  then obtain w' where "run_state (enqueue_mail no_cache_ext default_config m) w1 = (None, w')"
    by (simp add: enqueue_mail_def mails_Create_run PublishMail_run t_find_def no_cache_ext_def deployed_ext_def)
  with p sample_limit have d: "Data no_cache_ext default_config NewSession (Inr ''hi'') sample_world = Some (None, w')"
    by (simp add: Data_def Let_def del: list.size)
  from smtp [OF connected d] have r: "fault_reach no_cache_ext default_config w'"
    by (blast intro: fault_reach.intros sample_fresh)
  from Data_accepted_ok [OF d] have "length (mails w') = 1" by (auto simp: t_insert_def)
  moreover have "co_MailQueueName default_config \<noteq> co_FailedQueueName default_config"
    using deployed_sample by (simp add: deployed_def)
  ultimately show ?thesis using never_queued_twice [OF E _ r] r by blast
qed

end
