(* ===== verification/Interleave.thy ===== *)
theory Interleave
  imports Calls Faults "HOL-Library.Multiset"
begin

text \<open>
  Goroutines of the three processes that run at the same time, one call of one of them after
  the other, in any order. For each mail the steps are moves of a small abstract machine: its
  status, and the number of jobs that are on their way for it.
\<close>

section \<open>A mail, abstractly\<close>

text \<open>
  The status of the row, when there is one, and the number of carriers: jobs that will still
  be worked on. \<open>mail_slip\<close> is what failing services add.
\<close>

inductive mail_move :: "mail_status option \<Rightarrow> nat \<Rightarrow> mail_status option \<Rightarrow> nat \<Rightarrow> bool" where
  stay: "mail_move s n s n"
| accept: "mail_move None n (Some MailStatusQueued) (Suc n)"
| cancel: "mail_move (Some s) n (Some MailStatusCancelled) n"
| mark: "mail_move (Some s) (Suc n) (Some MailStatusProcessing) (Suc n)"
| finish: "s' \<in> {MailStatusSent, MailStatusFailed} \<Longrightarrow> mail_move (Some s) (Suc n) (Some s') n"
| skip: "mail_move (Some MailStatusCancelled) (Suc n) (Some MailStatusCancelled) n"

inductive mail_slip :: "mail_status option \<Rightarrow> nat \<Rightarrow> mail_status option \<Rightarrow> nat \<Rightarrow> bool" where
  lose: "mail_slip (Some s) (Suc n) (Some s) n"
| note_failed: "mail_slip (Some s) n (Some MailStatusFailed) n"

definition mail_step :: "bool \<Rightarrow> mail_status option \<Rightarrow> nat \<Rightarrow> mail_status option \<Rightarrow> nat \<Rightarrow> bool" where
  "mail_step answering s n s' n' \<longleftrightarrow> mail_move s n s' n' \<or> \<not> answering \<and> mail_slip s n s' n'"

lemma mail_step_stay [simp, intro]: "mail_step u s n s n"
  by (simp add: mail_step_def mail_move.stay)

lemma mail_step_add: "mail_step u s n s' n' \<Longrightarrow> mail_step u s (n + k) s' (n' + k)"
  by (auto simp: mail_step_def elim!: mail_move.cases mail_slip.cases intro: mail_move.intros mail_slip.intros)

text \<open>What the moves keep.\<close>

lemma mail_move_books: "mail_move s n s' n' \<Longrightarrow> pending_ok s n \<Longrightarrow> pending_ok s' n'"
proof (induction rule: mail_move.induct)
  case (cancel s n)
  then show ?case by (cases s) auto
next
  case (mark s n)
  then show ?case using pending_ok_one [of "Some s" "Suc n"] by simp
next
  case (finish s' s n)
  then show ?case using pending_ok_one [of "Some s" "Suc n"] by auto
qed auto

lemma mail_step_has_row: "mail_step u s n s' n' \<Longrightarrow> (0 < n \<Longrightarrow> s \<noteq> None) \<Longrightarrow> 0 < n' \<Longrightarrow> s' \<noteq> None"
  by (auto simp: mail_step_def elim: mail_move.cases mail_slip.cases)

lemma mail_step_one: "mail_step u s n s' n' \<Longrightarrow> n \<le> 1 \<Longrightarrow> (0 < n \<Longrightarrow> s \<noteq> None) \<Longrightarrow> n' \<le> 1"
  by (auto simp: mail_step_def elim!: mail_move.cases mail_slip.cases)

section \<open>The machine\<close>

datatype goro =
    Delivering delivery delivery_pc
  | Accepting mail mail_job accept_pc
  | Cancelling gin_values string cancel_pc

fun goro_call :: "ext \<Rightarrow> config \<Rightarrow> goro \<Rightarrow> (world, goro) state" where
  "goro_call E cfg (Delivering d pc) = do {
     pc' \<leftarrow> delivery_call E (worker_consumer E cfg) d pc;
     ret (Delivering d pc') }"
| "goro_call E cfg (Accepting m job pc) = do {
     pc' \<leftarrow> accept_call E cfg m job pc;
     ret (Accepting m job pc') }"
| "goro_call E cfg (Cancelling ctx i pc) = do {
     pc' \<leftarrow> cancel_call E cfg ctx i pc;
     ret (Cancelling ctx i pc') }"

text \<open>What the code outside these goroutines may change: tokens, settings and files.\<close>

definition elsewhere :: "world \<Rightarrow> world" where
  "elsewhere w = w\<lparr>ticks := 0, tokens := [], configs := [], files := Map.empty\<rparr>"

type_synonym conc = "world \<times> goro list"

text \<open>
  A new request, a request to cancel and a delivery start a goroutine, at any time and in any
  number; a delivery takes the next message of the mail queue. A goroutine that runs makes its
  next call. The rest are the retry goroutines, the signal to stop, and other code.
\<close>

inductive conc_step :: "ext \<Rightarrow> config \<Rightarrow> conc \<Rightarrow> conc \<Rightarrow> bool" for E cfg where
  arrive: "mail_Status m = MailStatusQueued \<Longrightarrow> job_MailID job = x_uuid_string E (mail_ID m) \<Longrightarrow>
    conc_step E cfg (w, gs) (w, gs @ [Accepting m job Creating])"
| ask_cancel: "conc_step E cfg (w, gs) (w, gs @ [Cancelling ctx i Finding])"
| take: "deliver (co_MailQueueName cfg) (broker w) = Some (d, b) \<Longrightarrow>
    conc_step E cfg (w, gs) (w\<lparr>broker := b\<rparr>, gs @ [Delivering d Received])"
| run: "k < length gs \<Longrightarrow> run_state (goro_call E cfg (gs ! k)) w = (g, w') \<Longrightarrow>
    conc_step E cfg (w, gs) (w', gs[k := g])"
| wake: "k < length (timers w) \<Longrightarrow> run_state (fire_retry E cfg k) w = ((), w') \<Longrightarrow>
    conc_step E cfg (w, gs) (w', gs)"
| stop: "run_state shutdown_begin w = ((), w') \<Longrightarrow> conc_step E cfg (w, gs) (w', gs)"
| other: "elsewhere w' = elsewhere w \<Longrightarrow> conc_step E cfg (w, gs) (w', gs)"

inductive conc_reach :: "ext \<Rightarrow> config \<Rightarrow> conc \<Rightarrow> bool" for E cfg where
  start: "fresh cfg w \<Longrightarrow> conc_reach E cfg (w, [])"
| step: "conc_reach E cfg c \<Longrightarrow> conc_step E cfg c c' \<Longrightarrow> conc_reach E cfg c'"

section \<open>Who carries a job\<close>

fun holding_job :: "job_pc \<Rightarrow> bool" where
  "holding_job Sent_cache = False" | "holding_job (Failed_cache _) = False"
| "holding_job Settling = False" | "holding_job (Done _) = False"
| "holding_job _ = True"

fun holding :: "delivery_pc \<Rightarrow> bool" where
  "holding Received = True" | "holding Returning = True" | "holding Counting = True"
| "holding (Working job pc) = holding_job pc"
| "holding _ = False"

text \<open>Whether the broker still waits for the worker's answer.\<close>

fun unsettled :: "delivery_pc \<Rightarrow> bool" where
  "unsettled (Uncounting _) = False" | "unsettled (Ended _) = False"
| "unsettled (Working job pc) = (\<not> job_over pc)"
| "unsettled _ = True"

fun held_id :: "goro \<Rightarrow> string option" where
  "held_id (Delivering d pc) = (if holding pc then msg_mail_id (snd d) else None)"
| "held_id (Accepting m job Publishing) = Some (job_MailID job)"
| "held_id _ = None"

definition held :: "ext \<Rightarrow> uuid \<Rightarrow> goro \<Rightarrow> nat" where
  "held E i g = (if Option.bind (held_id g) (x_pg_uuid E) = Some i then 1 else 0)"

fun carriers :: "ext \<Rightarrow> config \<Rightarrow> conc \<Rightarrow> uuid \<Rightarrow> nat" where
  "carriers E cfg (w, gs) i = pending E cfg w i + sum_list (map (held E i) gs)"

section \<open>One call\<close>

lemma publish_next_tag: "bk_next_tag (publish_to ex m b) = bk_next_tag b"
proof -
  have "bk_next_tag (fold (enqueue m) qs b) = bk_next_tag b" for qs
    by (induction qs arbitrary: b) simp_all
  then show ?thesis by (simp add: publish_to_def)
qed

text \<open>What the bookkeeping reads of the state, and what is always true of it.\<close>

definition desk :: "config \<Rightarrow> world \<Rightarrow> mail list \<times> message list \<times> (go_int \<times> mail_job) list \<times> bool \<times> bool" where
  "desk cfg w = (mails w, waiting w (co_MailQueueName cfg), timers w,
     declared (co_MailQueueName cfg) w, declared (co_FailedQueueName cfg) w)"

definition tags :: "world \<Rightarrow> (nat \<times> string \<times> message) list \<times> nat" where
  "tags w = (bk_unacked (broker w), bk_next_tag (broker w))"

definition good_world :: "ext \<Rightarrow> config \<Rightarrow> world \<Rightarrow> bool" where
  "good_world E cfg w \<longleftrightarrow> t_keys_unique mail_ID (mails w)
     \<and> declared (co_MailQueueName cfg) w \<and> declared (co_FailedQueueName cfg) w
     \<and> list_all (names_mail E) (pending_ids cfg w)"

lemma desk_same:
  assumes "desk cfg w' = desk cfg w"
  shows "good_world E cfg w' = good_world E cfg w" "row_status i w' = row_status i w"
    "pending E cfg w' = pending E cfg w"
  using assms by (simp_all add: desk_def good_world_def pending_ids_def pending_def row_status_def fun_eq_iff)

lemma desk_fields [simp]:
  "desk cfg (w\<lparr>ticks := n\<rparr>) = desk cfg w" "desk cfg (w\<lparr>ticks := n, cache := c\<rparr>) = desk cfg w"
  "desk cfg (w\<lparr>active_jobs := a\<rparr>) = desk cfg w" "desk cfg (w\<lparr>is_shutdown := x\<rparr>) = desk cfg w"
  "desk cfg (w\<lparr>broker := ack tag (broker w)\<rparr>) = desk cfg w"
  by (simp_all add: desk_def waiting_def declared_def)

lemma desk_publish [simp]:
  "msg_RoutingKey m \<noteq> co_MailQueueName cfg \<Longrightarrow>
   desk cfg (w\<lparr>ticks := n, broker := publish_to [] m (broker w)\<rparr>) = desk cfg w"
  by (simp add: desk_def waiting_def declared_def publish_elsewhere)

lemma tags_fields [simp]:
  "tags (w\<lparr>ticks := n\<rparr>) = tags w" "tags (w\<lparr>ticks := n, cache := c\<rparr>) = tags w"
  "tags (w\<lparr>active_jobs := a\<rparr>) = tags w" "tags (w\<lparr>ticks := n, mails := ms\<rparr>) = tags w"
  "tags (w\<lparr>timers := ts\<rparr>) = tags w" "tags (w\<lparr>is_shutdown := x\<rparr>) = tags w"
  "tags (w\<lparr>ticks := n, broker := publish_to ex m (broker w)\<rparr>) = tags w"
  by (simp_all add: tags_def publish_next_tag)

lemma SetStatus_desk:
  "desk cfg (snd (run_state (SetStatus E cfg' i s n e) w)) = desk cfg w"
  "tags (snd (run_state (SetStatus E cfg' i s n e) w)) = tags w"
proof -
  have "within (same (desk cfg)) (SetStatus E cfg' i s n e)" "within (same tags) (SetStatus E cfg' i s n e)"
    by (intro frames; simp add: same_def)+
  then show "desk cfg (snd (run_state (SetStatus E cfg' i s n e) w)) = desk cfg w"
    "tags (snd (run_state (SetStatus E cfg' i s n e) w)) = tags w"
    by (simp_all add: within_def same_def)
qed

text \<open>An update of the rows with one identifier: what it does to every mail's status.\<close>

lemma update_effect:
  assumes "run_state (mails_Update E (\<lambda>m. mail_ID m = i) f) w = (r, w')"
    and "\<And>t m. mail_ID (f t m) = mail_ID m" and "\<And>t m. mail_Status (f t m) = st (mail_Status m)"
  shows "tags w' = tags w" "good_world E cfg w' = good_world E cfg w" "pending E cfg w' = pending E cfg w"
    "timers w' = timers w"
    "up E \<or> row_status k w' \<noteq> row_status k w \<Longrightarrow>
      row_status k w' = (if k = i then map_option st (row_status k w) else row_status k w)"
proof -
  have eff: "w' = w\<lparr>ticks := Suc (ticks w)\<rparr> \<and> \<not> up E \<or> (\<exists>t. w' = w\<lparr>ticks := Suc (ticks w),
      mails := t_update (\<lambda>m. mail_ID m = i) (\<lambda>m. (f t m)\<lparr>mail_UpdatedAt := t\<rparr>) (mails w)\<rparr>)"
    using assms(1) by (auto simp: mails_Update_def db_exec_def up_def split: option.splits)
  then show "tags w' = tags w" "timers w' = timers w" by auto
  show "good_world E cfg w' = good_world E cfg w"
    using eff assms(2) by (auto simp: good_world_def declared_def pending_ids_def waiting_def t_update_unique)
  show "pending E cfg w' = pending E cfg w"
    using eff by (auto simp: pending_ids_def pending_def waiting_def fun_eq_iff)
  show "row_status k w' = (if k = i then map_option st (row_status k w) else row_status k w)"
    if "up E \<or> row_status k w' \<noteq> row_status k w"
    using eff that assms(2,3)
    by (auto simp: row_status_def mail_rows.find_update option.map_comp comp_def)
qed

text \<open>A call is a move of every mail, counting what its goroutine holds.\<close>

definition moved :: "ext \<Rightarrow> config \<Rightarrow> world \<Rightarrow> (uuid \<Rightarrow> nat) \<Rightarrow> world \<Rightarrow> (uuid \<Rightarrow> nat) \<Rightarrow> bool" where
  "moved E cfg w h w' h' \<longleftrightarrow> good_world E cfg w' \<and>
     (\<forall>k. mail_step (up E) (row_status k w) (pending E cfg w k + h k)
        (row_status k w') (pending E cfg w' k + h' k))"

lemma moved_desk: "good_world E cfg w \<Longrightarrow> desk cfg w' = desk cfg w \<Longrightarrow> moved E cfg w h w' h"
proof -
  assume "good_world E cfg w" and d: "desk cfg w' = desk cfg w"
  then show ?thesis unfolding moved_def desk_same [OF d] by simp
qed

definition one_of :: "bool \<Rightarrow> uuid \<Rightarrow> uuid \<Rightarrow> nat" where
  "one_of b i k = (if b \<and> k = i then 1 else 0)"

text \<open>The row update of a worker that holds the job, and keeps it or lets it go.\<close>

lemma moved_update:
  assumes good: "good_world E cfg w" and row: "row_status i w \<noteq> None"
    and run: "run_state (mails_Update E (\<lambda>m. mail_ID m = i) f) w = (r, w')"
    and f: "\<And>t m. mail_ID (f t m) = mail_ID m"
  shows "(\<And>t m. mail_Status (f t m) = mail_Status m) \<Longrightarrow> moved E cfg w h w' h"
    and "(\<And>t m. mail_Status (f t m) = MailStatusProcessing) \<Longrightarrow>
      moved E cfg w (one_of True i) w' (one_of True i)"
    and "(\<And>t m. mail_Status (f t m) = st) \<Longrightarrow> st \<in> {MailStatusSent, MailStatusFailed} \<Longrightarrow>
      moved E cfg w (one_of True i) w' (one_of False i)"
proof -
  have same: "row_status k w' = row_status k w \<or>
    row_status k w' = (if k = i then map_option st (row_status k w) else row_status k w)"
    if "\<And>t m. mail_Status (f t m) = st (mail_Status m)" for st k
    using update_effect(5) [OF run f that] by blast
  note e = update_effect [OF run f]
  show "moved E cfg w h w' h" if "\<And>t m. mail_Status (f t m) = mail_Status m"
  proof -
    have "row_status k w' = row_status k w" for k
      using same [of "\<lambda>s. s" k, OF that] by (simp add: option.map_ident split: if_splits)
    then show ?thesis unfolding moved_def e(2) [of "\<lambda>s. s", OF that] e(3) [of "\<lambda>s. s", OF that]
      using good by simp
  qed
  show "moved E cfg w (one_of True i) w' (one_of True i)"
    if st: "\<And>t m. mail_Status (f t m) = MailStatusProcessing"
  proof -
    have "mail_step (up E) (row_status k w) (pending E cfg w k + one_of True i k)
        (row_status k w') (pending E cfg w k + one_of True i k)" for k
      using same [of "\<lambda>_. MailStatusProcessing" k, OF st] row
      by (auto simp: one_of_def mail_step_def intro: mail_move.intros)
    then show ?thesis unfolding moved_def e(2) [of "\<lambda>_. MailStatusProcessing", OF st] e(3) [of "\<lambda>_. MailStatusProcessing", OF st]
      using good by simp
  qed
  show "moved E cfg w (one_of True i) w' (one_of False i)"
    if st: "\<And>t m. mail_Status (f t m) = st" and s: "st \<in> {MailStatusSent, MailStatusFailed}"
  proof -
    have "mail_step (up E) (row_status k w) (pending E cfg w k + one_of True i k)
        (row_status k w') (pending E cfg w k + one_of False i k)" for k
    proof (cases "k = i")
      case False
      with same [of "\<lambda>_. st" k, OF st] show ?thesis by (auto simp: one_of_def)
    next
      case True
      obtain s0 where s0: "row_status i w = Some s0" using row by auto
      consider "row_status i w' = Some st" | "\<not> up E" "row_status i w' = Some s0"
        using same [of "\<lambda>_. st" i, OF st] e(5) [of "\<lambda>_. st" i, OF st] s0 by fastforce
      then show ?thesis
        using s s0 True by cases (auto simp: one_of_def mail_step_def intro: mail_move.finish mail_slip.lose)
    qed
    then show ?thesis unfolding moved_def e(2) [of "\<lambda>_. st", OF st] e(3) [of "\<lambda>_. st", OF st]
      using good by simp
  qed
qed

lemma SetStatus_moved:
  "good_world E cfg w \<Longrightarrow> moved E cfg w h (snd (run_state (SetStatus E cfg' i s n e) w)) h"
  using SetStatus_desk(1) by (intro moved_desk)

text \<open>A job of the worker.\<close>

lemma job_moved:
  assumes good: "good_world E cfg w" and id: "x_pg_uuid E (job_MailID job) = Some i" "is_ascii (job_MailID job)"
    and q: "co_MailQueueName cfg \<noteq> co_FailedQueueName cfg"
    and row: "holding_job pc \<Longrightarrow> row_status i w \<noteq> None"
    and run: "run_state (job_call E (worker_consumer E cfg) tag job pc) w = (pc', w')"
  shows "moved E cfg w (one_of (holding_job pc) i) w' (one_of (holding_job pc') i)"
proof (cases pc)
  case Looking
  have w': "w' = w\<lparr>ticks := Suc (ticks w)\<rparr>"
    using run Looking by (auto simp: mails_First_def db_exec_def split: option.splits)
  show ?thesis
  proof (cases "pc' = Settling")
    case False
    with run Looking have "holding_job pc'" by (auto split: prod.splits)
    with Looking good w' show ?thesis by (simp add: moved_desk)
  next
    case True
    obtain m where m: "t_first mail_ID (job_row E job) (mails w) = Some m" "mail_Status m = MailStatusCancelled"
      using run Looking True
      by (auto simp: mails_First_def db_exec_def loaded_def split: option.splits prod.splits if_splits)
    have "row_status i w = Some MailStatusCancelled"
      using m good by (simp add: job_row_eq [OF id(1)] t_first_unique good_world_def row_status_def)
    then have "mail_step (up E) (row_status k w) (pending E cfg w k + one_of True i k)
        (row_status k w) (pending E cfg w k + one_of False i k)" for k
      by (auto simp: one_of_def mail_step_def intro: mail_move.intros)
    moreover have "desk cfg w' = desk cfg w" by (simp add: w')
    note desk_same [OF this]
    ultimately show ?thesis using Looking True good by (simp add: moved_def)
  qed
next
  case Marking_cache
  with run SetStatus_moved [OF good] show ?thesis by (auto split: prod.splits)
next
  case Marking_row
  obtain r v where u: "run_state (mails_Update E (\<lambda>m. mail_ID m = i) (\<lambda>t m. m\<lparr>mail_Status := MailStatusProcessing\<rparr>)) w = (r, v)"
    by fastforce
  have "row_status i w \<noteq> None" using row Marking_row by simp
  then have "moved E cfg w (one_of True i) v (one_of True i)" by (rule moved_update(2) [OF good _ u]) simp_all
  moreover have "w' = v" "pc' = Sending" using run Marking_row u by (simp_all add: job_row_eq [OF id(1)])
  ultimately show ?thesis using Marking_row by simp
next
  case Sending
  obtain s v where d: "run_state (deliver_job E cfg job) w = (s, v)" by fastforce
  note v = worker.store_unchanged [OF d]
  have "w' = v" "holding_job pc'"
    using run Sending d by (auto simp: deliver_job_run split: option.splits)
  moreover have "desk cfg v = desk cfg w" using v by (simp add: desk_def waiting_def declared_def)
  ultimately show ?thesis using Sending good by (simp add: moved_desk)
next
  case Sent_row
  let ?w = "w\<lparr>ticks := Suc (ticks w)\<rparr>"
  have "desk cfg ?w = desk cfg w" by simp
  note d = desk_same [OF this]
  have good': "good_world E cfg ?w" and row': "row_status i ?w \<noteq> None"
    using good row Sent_row by (simp_all add: d)
  obtain r v where u: "run_state (mails_Update E (\<lambda>m. mail_ID m = i)
      (\<lambda>t m. m\<lparr>mail_Status := MailStatusSent, mail_SentAt := Some (x_clock E (ticks w))\<rparr>)) ?w = (r, v)"
    by fastforce
  have "moved E cfg ?w (one_of True i) v (one_of False i)"
    by (rule moved_update(3) [OF good' row' u, of MailStatusSent]) simp_all
  moreover have "w' = v" "pc' = Sent_cache" using run Sent_row u by (simp_all add: job_row_eq [OF id(1)])
  ultimately show ?thesis using Sent_row by (simp add: moved_def d)
next
  case Sent_cache
  with run SetStatus_moved [OF good] show ?thesis by (auto split: prod.splits)
next
  case (Failed_publish e)
  have "desk cfg w' = desk cfg w" "pc' = Failed_row e"
    using run Failed_publish q by (auto simp: mq_Publish_def plain_message_def split: option.splits prod.splits)
  with good Failed_publish show ?thesis by (simp add: moved_desk)
next
  case (Failed_row e)
  obtain r v where u: "run_state (mails_Update E (\<lambda>m. mail_ID m = i) (\<lambda>t m. m\<lparr>mail_Status := MailStatusFailed,
        mail_RetryCount := job_RetryCount job + 1, mail_ErrorMessage := e\<rparr>)) w = (r, v)" by fastforce
  have "row_status i w \<noteq> None" using row Failed_row by simp
  then have "moved E cfg w (one_of True i) v (one_of False i)"
    by (rule moved_update(3) [OF good _ u, of MailStatusFailed]) simp_all
  moreover have "w' = v" "pc' = Failed_cache e" using run Failed_row u by (simp_all add: job_row_eq [OF id(1)])
  ultimately show ?thesis using Failed_row by simp
next
  case (Failed_cache e)
  with run SetStatus_moved [OF good] show ?thesis by (auto split: prod.splits)
next
  case Retry_row
  obtain r v where u: "run_state (mails_Update E (\<lambda>m. mail_ID m = i)
      (\<lambda>t m. m\<lparr>mail_RetryCount := job_RetryCount job + 1\<rparr>)) w = (r, v)" by fastforce
  have "row_status i w \<noteq> None" using row Retry_row by simp
  then have "moved E cfg w (one_of True i) v (one_of True i)" by (rule moved_update(1) [OF good _ u]) simp_all
  moreover have "w' = v" "pc' = Retry_cache" using run Retry_row u by (simp_all add: job_row_eq [OF id(1)])
  ultimately show ?thesis using Retry_row by simp
next
  case Retry_cache
  with run SetStatus_moved [OF good] show ?thesis by (auto split: prod.splits)
next
  case Retry_timer
  then have w': "w' = w\<lparr>timers := timers w @ [(retry_delay (job_RetryCount job + 1), next_job job)]\<rparr>" "pc' = Settling"
    using run by auto
  have ids: "pending_ids cfg w' = pending_ids cfg w @ [Some (job_MailID job)]"
    by (simp add: pending_ids_def w' waiting_def next_job_def)
  have "good_world E cfg w'"
    using good id by (simp add: good_world_def ids declared_def w' names_mail_def)
      (simp add: pending_ids_def waiting_def names_mail_def next_job_def)
  moreover have "row_status k w' = row_status k w" for k by (simp add: row_status_def w'(1))
  moreover have "pending E cfg w' k = pending E cfg w k + one_of True i k" for k
    using id by (simp add: pending_def ids one_of_def)
  ultimately show ?thesis using Retry_timer w'(2) by (simp add: moved_def one_of_def)
next
  case Settling
  with run good show ?thesis by (auto simp: moved_desk)
next
  case (Done r)
  with run good show ?thesis by (auto simp: moved_desk)
qed

text \<open>What is known of a goroutine by where it is.\<close>

fun coherent :: "ext \<Rightarrow> goro \<Rightarrow> bool" where
  "coherent E (Delivering d pc) \<longleftrightarrow> names_mail E (msg_mail_id (snd d)) \<and>
     (case pc of Rejecting \<Rightarrow> False | Working job _ \<Rightarrow> unmarshal_job (msg_Body (snd d)) = Some job | _ \<Rightarrow> True)"
| "coherent E (Accepting m job pc) \<longleftrightarrow> mail_Status m = MailStatusQueued
     \<and> job_MailID job = x_uuid_string E (mail_ID m) \<and> (up E \<longrightarrow> (\<forall>e. pc \<noteq> Noting_failed e))"
| "coherent E (Cancelling _ _ _) \<longleftrightarrow> True"

fun taken :: "config \<Rightarrow> goro \<Rightarrow> (nat \<times> string \<times> message) list" where
  "taken cfg (Delivering d pc) = (if unsettled pc then [(fst d, co_MailQueueName cfg, snd d)] else [])"
| "taken cfg _ = []"

lemma moved_waiting:
  assumes good: "good_world E cfg w" and "mails w' = mails w" and "timers w' = timers w"
    and "\<And>q. declared q w' = declared q w" and m: "names_mail E (msg_mail_id m)" "Option.bind (msg_mail_id m) (x_pg_uuid E) = Some i"
    and "mset (waiting w' (co_MailQueueName cfg)) = add_mset m (mset (waiting w (co_MailQueueName cfg)))"
  shows "moved E cfg w (one_of True i) w' (one_of False i)"
proof -
  have s: "set (waiting w' (co_MailQueueName cfg)) = insert m (set (waiting w (co_MailQueueName cfg)))"
    using arg_cong [OF assms(7), of set_mset] by simp
  have c: "count_list (map f (waiting w' (co_MailQueueName cfg))) y
      = count_list (map f (waiting w (co_MailQueueName cfg))) y + (if f m = y then 1 else 0)" for f :: "message \<Rightarrow> uuid option" and y
    using arg_cong [OF assms(7), of "\<lambda>M. count (image_mset f M) y"]
    by (simp add: count_mset [symmetric] flip: mset_map)
  have "good_world E cfg w'"
    using good m(1) by (simp add: good_world_def assms(2,4) pending_ids_def list_all_iff s assms(3))
  moreover have "pending E cfg w' k = pending E cfg w k + one_of True i k" for k
    using c [of "\<lambda>m. Option.bind (msg_mail_id m) (x_pg_uuid E)" "Some k"] m(2)
    by (simp add: pending_def pending_ids_def comp_def assms(3) one_of_def)
  ultimately show ?thesis by (simp add: moved_def row_status_def assms(2) one_of_def)
qed

lemma delivery_moved:
  assumes good: "good_world E cfg w" and q: "co_MailQueueName cfg \<noteq> co_FailedQueueName cfg"
    and co: "coherent E (Delivering d pc)" and row: "\<And>i. 0 < held E i (Delivering d pc) \<Longrightarrow> row_status i w \<noteq> None"
    and out: "unsettled pc \<Longrightarrow> find (\<lambda>(t, q, m). t = fst d) (bk_unacked (broker w)) = Some (fst d, co_MailQueueName cfg, snd d)"
    and run: "run_state (delivery_call E (worker_consumer E cfg) d pc) w = (pc', w')"
  shows "coherent E (Delivering d pc') \<and>
    moved E cfg w (\<lambda>i. held E i (Delivering d pc)) w' (\<lambda>i. held E i (Delivering d pc'))"
proof -
  obtain job i where job: "unmarshal_job (msg_Body (snd d)) = Some job"
    and i: "x_pg_uuid E (job_MailID job) = Some i" "is_ascii (job_MailID job)"
    using co by (auto simp: names_mail_def msg_mail_id_def)
  then have mid: "msg_mail_id (snd d) = Some (job_MailID job)" by (simp add: msg_mail_id_def)
  have held: "(\<lambda>k. held E k (Delivering d p)) = one_of (holding p) i" for p
    using i by (auto simp: held_def mid one_of_def fun_eq_iff)
  have names: "names_mail E (msg_mail_id (snd d))" using co by simp
  have same: "coherent E (Delivering d pc') \<and> moved E cfg w (one_of b i) w' (one_of b i)"
    if "coherent E (Delivering d pc')" "desk cfg w' = desk cfg w" for b
    using that good by (simp add: moved_desk)
  show ?thesis
    unfolding held
  proof (cases pc)
    case Received
    with run have "w' = w" "pc' = Returning \<or> pc' = Counting" by (auto split: if_splits)
    with Received names good show "coherent E (Delivering d pc') \<and> moved E cfg w (one_of (holding pc) i) w' (one_of (holding pc') i)"
      by (auto simp: moved_desk)
  next
    case Returning
    let ?b = "ack (fst d) (broker w)"
    have w': "w' = w\<lparr>broker := requeue (co_MailQueueName cfg) (snd d) ?b\<rparr>" "pc' = Ended (Returns ())"
      using run Returning out by (auto simp: mq_Nack_def nack_def)
    have wait: "waiting w' (co_MailQueueName cfg) = snd d # waiting w (co_MailQueueName cfg)"
      using good by (auto simp: w' requeue_def waiting_def queue_of_def good_world_def declared_def split: option.splits)
    have "moved E cfg w (one_of True i) w' (one_of False i)"
      by (rule moved_waiting [OF good, of _ "snd d"])
        (use names wait i in \<open>auto simp: w' declared_def requeue_def mid split: option.splits\<close>)
    with Returning w' names show "coherent E (Delivering d pc') \<and> moved E cfg w (one_of (holding pc) i) w' (one_of (holding pc') i)"
      by simp
  next
    case Counting
    with run job have "w' = w\<lparr>active_jobs := active_jobs w + 1\<rparr>" "pc' = Working job Looking" by auto
    with Counting names good job show "coherent E (Delivering d pc') \<and> moved E cfg w (one_of (holding pc) i) w' (one_of (holding pc') i)"
      by (simp add: moved_desk)
  next
    case Rejecting
    with co show "coherent E (Delivering d pc') \<and> moved E cfg w (one_of (holding pc) i) w' (one_of (holding pc') i)" by simp
  next
    case (Working job' p)
    with co job have [simp]: "job' = job" by simp
    obtain p' where p': "run_state (job_call E (worker_consumer E cfg) (fst d) job p) w = (p', w')"
      and pc': "pc' = (case p' of Done r \<Rightarrow> Uncounting r | _ \<Rightarrow> Working job p')"
      using run Working by (auto split: prod.splits)
    have "holding_job p \<Longrightarrow> row_status i w \<noteq> None"
      using row [of i] Working i by (simp add: held_def mid)
    from job_moved [OF good i q this p'] have "moved E cfg w (one_of (holding pc) i) w' (one_of (holding_job p') i)"
      using Working by simp
    moreover have "holding pc' = holding_job p'" by (simp add: pc' split: job_pc.splits)
    moreover have "coherent E (Delivering d pc')" using names job by (simp add: pc' split: job_pc.splits)
    ultimately show "coherent E (Delivering d pc') \<and> moved E cfg w (one_of (holding pc) i) w' (one_of (holding pc') i)"
      by simp
  next
    case (Uncounting r)
    with run names good show "coherent E (Delivering d pc') \<and> moved E cfg w (one_of (holding pc) i) w' (one_of (holding pc') i)"
      by (auto simp: moved_desk)
  next
    case (Ended r)
    with run names good show "coherent E (Delivering d pc') \<and> moved E cfg w (one_of (holding pc) i) w' (one_of (holding pc') i)"
      by (auto simp: moved_desk)
  qed
qed

lemma accept_moved:
  assumes good: "good_world E cfg w" and E: "printed_ids E"
    and co: "coherent E (Accepting m job pc)" and row: "\<And>i. 0 < held E i (Accepting m job pc) \<Longrightarrow> row_status i w \<noteq> None"
    and run: "run_state (accept_call E cfg m job pc) w = (pc', w')"
  shows "coherent E (Accepting m job pc') \<and>
    moved E cfg w (\<lambda>i. held E i (Accepting m job pc)) w' (\<lambda>i. held E i (Accepting m job pc'))"
proof -
  let ?i = "mail_ID m"
  have id: "is_ascii (job_MailID job)" "x_pg_uuid E (job_MailID job) = Some ?i"
    using E co by (simp_all add: printed_ids_def)
  have held: "(\<lambda>k. held E k (Accepting m job p)) = one_of (p = Publishing) ?i" for p
    using id by (cases p) (auto simp: held_def one_of_def fun_eq_iff)
  show ?thesis
    unfolding held
  proof (cases pc)
    case Creating
    show "coherent E (Accepting m job pc') \<and> moved E cfg w (one_of (pc = Publishing) ?i) w' (one_of (pc' = Publishing) ?i)"
    proof (cases "pc' = Publishing")
      case False
      with run Creating have "w' = w\<lparr>ticks := Suc (ticks w)\<rparr>" "\<exists>e. pc' = Refused e"
        by (auto simp: mails_Create_run split: option.splits if_splits sum.splits prod.splits)
      with Creating good co show ?thesis by (auto simp: moved_desk)
    next
      case True
      then obtain t where new: "t_find mail_ID ?i (mails w) = None"
        and w': "w' = w\<lparr>ticks := Suc (ticks w), mails := t_insert (stored_mail t m) (mails w)\<rparr>"
        using run Creating by (auto simp: mails_Create_run split: option.splits if_splits sum.splits prod.splits)
      have p: "pending_ids cfg w' = pending_ids cfg w" by (simp add: w' pending_ids_def waiting_def)
      have "row_status k w' = (if k = ?i then Some MailStatusQueued else row_status k w)" for k
        using new co by (simp add: w' row_status_def mail_rows.find_add stored_mail_def)
      moreover have "row_status ?i w = None" by (simp add: row_status_def new)
      ultimately have "mail_step (up E) (row_status k w) (pending E cfg w k)
          (row_status k w') (pending E cfg w' k + one_of True ?i k)" for k
        by (auto simp: pending_def p one_of_def mail_step_def intro: mail_move.intros)
      moreover have "good_world E cfg w'"
        using good new p by (simp add: good_world_def w' t_insert_unique t_find_None stored_mail_def declared_def)
      ultimately show ?thesis using Creating True co by (simp add: moved_def one_of_def)
    qed
  next
    case Publishing
    let ?msg = "plain_message (co_MailQueueName cfg) job"
    show "coherent E (Accepting m job pc') \<and> moved E cfg w (one_of (pc = Publishing) ?i) w' (one_of (pc' = Publishing) ?i)"
    proof (cases "x_mq E (ticks w)")
      case None
      with run Publishing have w': "w' = w\<lparr>ticks := Suc (ticks w), broker := publish_to [] ?msg (broker w)\<rparr>"
        and pc': "pc' = Noting_queued" by (simp_all add: PublishMail_run)
      have decl: "declared (co_MailQueueName cfg) w" using good by (simp add: good_world_def)
      have b: "broker w' = publish_to [] ?msg (broker w)" by (simp add: w')
      note p = publish_pending [OF decl id(1) b] 
      have "moved E cfg w (one_of True ?i) w' (one_of False ?i)"
        by (rule moved_waiting [OF good, of _ ?msg])
          (use p id in \<open>simp_all add: w' declared_def plain_message_def names_mail_def\<close>)
      with Publishing pc' co show ?thesis by simp
    next
      case (Some e)
      with run Publishing have w': "w' = w\<lparr>ticks := Suc (ticks w)\<rparr>" and pc': "pc' = Noting_failed e"
        by (simp_all add: PublishMail_run)
      have "\<not> up E" using Some by (auto simp: up_def)
      moreover have "row_status ?i w \<noteq> None" using row [of ?i] Publishing id by (simp add: held_def)
      ultimately have "mail_step (up E) (row_status k w) (pending E cfg w k + one_of True ?i k)
          (row_status k w) (pending E cfg w k + one_of False ?i k)" for k
        by (auto simp: one_of_def mail_step_def intro: mail_slip.intros mail_move.stay)
      moreover have "desk cfg w' = desk cfg w" by (simp add: w')
      note desk_same [OF this]
      ultimately show ?thesis using Publishing pc' co good \<open>\<not> up E\<close> by (simp add: moved_def)
    qed
  next
    case (Noting_failed e)
    then have not_up: "\<not> up E" using co by auto
    obtain r v where u: "run_state (mails_Update E (\<lambda>r. mail_ID r = ?i) (\<lambda>t r. r\<lparr>mail_Status := MailStatusFailed\<rparr>)) w = (r, v)"
      by fastforce
    with run Noting_failed have w': "w' = v" "pc' = Unqueued e" by auto
    note e = update_effect [OF u, of "\<lambda>_. MailStatusFailed", simplified]
    have "mail_step (up E) (row_status k w) n (row_status k v) n" for k n
      using e(5) [of k] not_up by (cases "row_status k v = row_status k w"; cases "row_status k w")
        (auto simp: mail_step_def intro: mail_slip.intros mail_move.stay split: if_splits)
    then show "coherent E (Accepting m job pc') \<and> moved E cfg w (one_of (pc = Publishing) ?i) w' (one_of (pc' = Publishing) ?i)"
      using Noting_failed w' co good e(2,3) by (simp add: moved_def)
  next
    case Noting_queued
    with run SetStatus_moved [OF good] co
    show "coherent E (Accepting m job pc') \<and> moved E cfg w (one_of (pc = Publishing) ?i) w' (one_of (pc' = Publishing) ?i)"
      by auto
  qed (use run co good in \<open>auto simp: moved_desk\<close>)
qed

lemma cancel_moved:
  assumes good: "good_world E cfg w" and run: "run_state (cancel_call E cfg ctx i pc) w = (pc', w')"
  shows "moved E cfg w h w' h"
proof (cases pc)
  case Finding
  with run have "w' = w\<lparr>ticks := Suc (ticks w)\<rparr>"
    by (auto simp: mails_First_def db_exec_def split: option.splits prod.splits)
  with good show ?thesis by (simp add: moved_desk)
next
  case (Overwriting m)
  obtain r v where u: "run_state (mails_Update E (\<lambda>r. mail_ID r = mail_ID m)
      (\<lambda>t r. r\<lparr>mail_Status := MailStatusCancelled\<rparr>)) w = (r, v)" by fastforce
  with run Overwriting have w': "w' = v" by auto
  note e = update_effect [OF u, of "\<lambda>_. MailStatusCancelled", simplified]
  have "mail_step (up E) (row_status k w) n (row_status k v) n" for k n
    using e(5) [of k] by (cases "row_status k v = row_status k w"; cases "row_status k w")
      (auto simp: mail_step_def intro: mail_move.intros split: if_splits)
  then show ?thesis using w' good e(2,3) by (simp add: moved_def)
next
  case Noting
  with run SetStatus_moved [OF good] show ?thesis by auto
next
  case (Answered a)
  with run good show ?thesis by (auto simp: moved_desk)
qed

text \<open>Tags: only settling changes them, and only the own one.\<close>

lemma job_tags:
  assumes "run_state (job_call E (worker_consumer E cfg) tag job pc) w = (pc', w')"
  shows "tags w' = (if job_over pc' \<and> \<not> job_over pc
    then (filter (\<lambda>(t, q, m). t \<noteq> tag) (bk_unacked (broker w)), bk_next_tag (broker w)) else tags w)"
proof -
  have up: "tags (snd (run_state (mails_Update E P f) v)) = tags v" for P f v
    by (simp add: mails_Update_def db_exec_def split: option.splits)
  show ?thesis
  proof (cases pc)
    case Sending
    obtain s v where d: "run_state (deliver_job E cfg job) w = (s, v)" by fastforce
    with Sending assms show ?thesis using worker.store_unchanged(5) [OF d]
      by (auto simp: deliver_job_run tags_def job_over_def split: option.splits if_splits)
  next
    case Settling
    with assms show ?thesis by (auto simp: job_over_def ack_def tags_def)
  qed (use assms in \<open>auto simp: job_over_def up SetStatus_desk(2) mails_First_def db_exec_def mq_Publish_def
      split: option.splits prod.splits if_splits\<close>)
qed

lemma delivery_tags:
  assumes co: "coherent E (Delivering d pc)"
    and out: "unsettled pc \<Longrightarrow> find (\<lambda>(t, q, m). t = fst d) (bk_unacked (broker w)) = Some (fst d, co_MailQueueName cfg, snd d)"
    and run: "run_state (delivery_call E (worker_consumer E cfg) d pc) w = (pc', w')"
  shows "tags w' = (if unsettled pc \<and> \<not> unsettled pc'
    then (filter (\<lambda>(t, q, m). t \<noteq> fst d) (bk_unacked (broker w)), bk_next_tag (broker w)) else tags w)"
    and "unsettled pc' \<Longrightarrow> unsettled pc"
proof -
  have "tags w' = (if unsettled pc \<and> \<not> unsettled pc'
    then (filter (\<lambda>(t, q, m). t \<noteq> fst d) (bk_unacked (broker w)), bk_next_tag (broker w)) else tags w)
    \<and> (unsettled pc' \<longrightarrow> unsettled pc)"
  proof (cases pc)
    case Received
    with run show ?thesis by (auto split: if_splits)
  next
    case Returning
    then have "find (\<lambda>(t, q, m). t = fst d) (bk_unacked (broker w)) = Some (fst d, co_MailQueueName cfg, snd d)"
      using out by simp
    with Returning run show ?thesis
      by (auto simp: mq_Nack_def nack_def tags_def requeue_def ack_def split: option.splits)
  next
    case Counting
    with run co show ?thesis
      by (auto simp: names_mail_def msg_mail_id_def job_over_def)
  next
    case Rejecting
    with co show ?thesis by simp
  next
    case (Working job p)
    obtain p' where p': "run_state (job_call E (worker_consumer E cfg) (fst d) job p) w = (p', w')"
      and pc': "pc' = (case p' of Done r \<Rightarrow> Uncounting r | _ \<Rightarrow> Working job p')"
      using run Working by (auto split: prod.splits)
    have "unsettled pc' = (\<not> job_over p')" by (simp add: pc' job_over_def split: job_pc.splits)
    moreover have "job_over p \<Longrightarrow> job_over p'" using p' by (cases p) (auto simp: job_over_def)
    ultimately show ?thesis using job_tags [OF p'] Working by auto
  qed (use run in auto)
  then show "tags w' = (if unsettled pc \<and> \<not> unsettled pc'
    then (filter (\<lambda>(t, q, m). t \<noteq> fst d) (bk_unacked (broker w)), bk_next_tag (broker w)) else tags w)"
    and "unsettled pc' \<Longrightarrow> unsettled pc" by auto
qed

lemma other_tags:
  "run_state (accept_call E cfg m job p) w = (p', w') \<Longrightarrow> tags w' = tags w"
  "run_state (cancel_call E cfg ctx i pc) w = (pc', w') \<Longrightarrow> tags w' = tags w"
proof -
  have up: "tags (snd (run_state (mails_Update E P f) v)) = tags v" for P f v
    by (simp add: mails_Update_def db_exec_def split: option.splits)
  show "run_state (accept_call E cfg m job p) w = (p', w') \<Longrightarrow> tags w' = tags w"
    by (cases p) (auto simp: up SetStatus_desk(2) mails_Create_run PublishMail_run split: option.splits prod.splits if_splits)
  show "run_state (cancel_call E cfg ctx i pc) w = (pc', w') \<Longrightarrow> tags w' = tags w"
    by (cases pc) (auto simp: up SetStatus_desk(2) mails_First_def db_exec_def split: option.splits prod.splits)
qed

section \<open>The invariant of the machine\<close>

fun conc_inv :: "ext \<Rightarrow> config \<Rightarrow> conc \<Rightarrow> bool" where
  "conc_inv E cfg (w, gs) \<longleftrightarrow> good_world E cfg w \<and> list_all (coherent E) gs
     \<and> (\<forall>i. 0 < carriers E cfg (w, gs) i \<longrightarrow> row_status i w \<noteq> None)
     \<and> mset (bk_unacked (broker w)) = mset (concat (map (taken cfg) gs))
     \<and> distinct (map fst (bk_unacked (broker w)))
     \<and> (\<forall>d\<in>set (bk_unacked (broker w)). fst d < bk_next_tag (broker w))"

text \<open>A step of the machine, for one mail and for all.\<close>

definition steps_mail :: "ext \<Rightarrow> config \<Rightarrow> conc \<Rightarrow> conc \<Rightarrow> uuid \<Rightarrow> bool" where
  "steps_mail E cfg c c' i \<longleftrightarrow> mail_step (up E) (row_status i (fst c)) (carriers E cfg c i)
     (row_status i (fst c')) (carriers E cfg c' i)"

lemma find_tag:
  "distinct (map fst xs) \<Longrightarrow> (t, q, m) \<in> set xs \<Longrightarrow> find (\<lambda>(t', q, m). t' = t) xs = Some (t, q, m)"
  by (induction xs) (auto simp: image_iff)

lemma filter_tag:
  assumes "distinct (map fst xs)" and "mset xs = add_mset (t, q, m) N"
  shows "mset (filter (\<lambda>(t', q, m). t' \<noteq> t) xs) = N"
proof -
  obtain ys where ys: "N = mset ys" by (metis ex_mset)
  then have p: "mset xs = mset ((t, q, m) # ys)" by (simp add: assms(2))
  then have "mset (map fst xs) = mset (map fst ((t, q, m) # ys))" by (metis mset_map)
  with assms(1) have d: "distinct (map fst ((t, q, m) # ys))" by (metis mset_eq_imp_distinct_iff)
  then have "filter (\<lambda>(t', q, m). t' \<noteq> t) ys = ys" by (fastforce simp: filter_id_conv image_iff)
  moreover have "mset (filter (\<lambda>(t', q, m). t' \<noteq> t) xs) = mset (filter (\<lambda>(t', q, m). t' \<noteq> t) ((t, q, m) # ys))"
    using p by (metis mset_filter)
  ultimately show ?thesis by (simp add: ys)
qed

text \<open>Steps that start a goroutine, or are outside of all of them.\<close>

lemma conc_inv_moved:
  assumes inv: "conc_inv E cfg (w, gs)" and mv: "moved E cfg w (\<lambda>i. sum_list (map (held E i) gs)) w'
      (\<lambda>i. sum_list (map (held E i) gs'))"
    and co: "list_all (coherent E) gs'"
    and tg: "mset (bk_unacked (broker w')) = mset (concat (map (taken cfg) gs'))"
      "distinct (map fst (bk_unacked (broker w')))" "\<forall>d\<in>set (bk_unacked (broker w')). fst d < bk_next_tag (broker w')"
  shows "conc_inv E cfg (w', gs') \<and> (\<forall>i. steps_mail E cfg (w, gs) (w', gs') i)"
proof -
  have st: "steps_mail E cfg (w, gs) (w', gs') i" for i
    using mv by (simp add: steps_mail_def moved_def)
  moreover have "row_status i w' \<noteq> None" if "0 < carriers E cfg (w', gs') i" for i
    by (rule mail_step_has_row [OF st [unfolded steps_mail_def fst_conv] _ that])
      (use inv in \<open>simp del: carriers.simps\<close>)
  moreover have "good_world E cfg w'" using mv by (simp add: moved_def)
  ultimately show ?thesis using co tg by simp
qed

lemma sum_at:
  fixes f :: "'a \<Rightarrow> nat"
  shows "k < length gs \<Longrightarrow> sum_list (map f gs) = f (gs ! k) + (sum_list (map f (take k gs)) + sum_list (map f (drop (Suc k) gs)))"
    and "k < length gs \<Longrightarrow> sum_list (map f (gs[k := g])) = f g + (sum_list (map f (take k gs)) + sum_list (map f (drop (Suc k) gs)))"
proof -
  assume k: "k < length gs"
  from k show "sum_list (map f gs) = f (gs ! k) + (sum_list (map f (take k gs)) + sum_list (map f (drop (Suc k) gs)))"
    by (subst id_take_nth_drop [OF k]) simp
  from k show "sum_list (map f (gs[k := g])) = f g + (sum_list (map f (take k gs)) + sum_list (map f (drop (Suc k) gs)))"
    by (subst upd_conv_take_nth_drop) simp_all
qed

lemma mset_at:
  shows "k < length gs \<Longrightarrow> mset (concat (map f gs)) = mset (f (gs ! k)) + (mset (concat (map f (take k gs))) + mset (concat (map f (drop (Suc k) gs))))"
    and "k < length gs \<Longrightarrow> mset (concat (map f (gs[k := g]))) = mset (f g) + (mset (concat (map f (take k gs))) + mset (concat (map f (drop (Suc k) gs))))"
proof -
  assume k: "k < length gs"
  from k show "mset (concat (map f gs)) = mset (f (gs ! k)) + (mset (concat (map f (take k gs))) + mset (concat (map f (drop (Suc k) gs))))"
    by (subst id_take_nth_drop [OF k]) simp
  from k show "mset (concat (map f (gs[k := g]))) = mset (f g) + (mset (concat (map f (take k gs))) + mset (concat (map f (drop (Suc k) gs))))"
    by (subst upd_conv_take_nth_drop) simp_all
qed

lemma moved_add:
  assumes "moved E cfg w h w' h'"
  shows "moved E cfg w (\<lambda>i. h i + n i) w' (\<lambda>i. h' i + n i)"
  using assms mail_step_add unfolding moved_def by (metis add.assoc)

lemma run_keeps:
  assumes inv: "conc_inv E cfg (w, gs)" and E: "printed_ids E" and q: "co_MailQueueName cfg \<noteq> co_FailedQueueName cfg"
    and k: "k < length gs" and run: "run_state (goro_call E cfg (gs ! k)) w = (g, w')"
  shows "conc_inv E cfg (w', gs[k := g]) \<and> (\<forall>i. steps_mail E cfg (w, gs) (w', gs[k := g]) i)"
proof -
  have good: "good_world E cfg w" and co: "coherent E (gs ! k)" and dist: "distinct (map fst (bk_unacked (broker w)))"
    and next_tag: "\<forall>d\<in>set (bk_unacked (broker w)). fst d < bk_next_tag (broker w)"
    and msets: "mset (bk_unacked (broker w)) = mset (concat (map (taken cfg) gs))"
    and row0: "\<And>i. 0 < carriers E cfg (w, gs) i \<Longrightarrow> row_status i w \<noteq> None"
    and cos: "list_all (coherent E) gs"
    using inv k by (simp_all add: list_all_length del: carriers.simps)
  have row: "row_status i w \<noteq> None" if "0 < held E i (gs ! k)" for i
    by (rule row0) (use that sum_at(1) [OF k, of "held E i"] in simp)
  have "set (taken cfg (gs ! k)) \<subseteq> set_mset (mset (bk_unacked (broker w)))"
    unfolding msets mset_at(1) [OF k, of "taken cfg"] by auto
  then have sub: "set (taken cfg (gs ! k)) \<subseteq> set (bk_unacked (broker w))" by simp
  have eff: "coherent E g \<and> moved E cfg w (\<lambda>i. held E i (gs ! k)) w' (\<lambda>i. held E i g)
     \<and> (tags w' = tags w \<and> taken cfg g = taken cfg (gs ! k)
        \<or> (\<exists>t q m. taken cfg (gs ! k) = [(t, q, m)] \<and> taken cfg g = []
            \<and> tags w' = (filter (\<lambda>(t', q, m). t' \<noteq> t) (bk_unacked (broker w)), bk_next_tag (broker w))))"
  proof (cases "gs ! k")
    case (Delivering d pc)
    then obtain pc' where g: "g = Delivering d pc'"
      and r: "run_state (delivery_call E (worker_consumer E cfg) d pc) w = (pc', w')"
      using run by (auto split: prod.splits)
    have out: "find (\<lambda>(t, q, m). t = fst d) (bk_unacked (broker w)) = Some (fst d, co_MailQueueName cfg, snd d)"
      if "unsettled pc"
      by (rule find_tag [OF dist]) (use sub that Delivering in simp)
    have "coherent E g \<and> moved E cfg w (\<lambda>i. held E i (gs ! k)) w' (\<lambda>i. held E i g)"
      unfolding g Delivering
      by (rule delivery_moved [OF good q _ _ out r]) (use co row Delivering in simp_all)
    moreover note delivery_tags [OF co [unfolded Delivering] out r]
    ultimately show ?thesis using Delivering g by (cases "unsettled pc"; cases "unsettled pc'") auto
  next
    case (Accepting m job pc)
    then obtain pc' where g: "g = Accepting m job pc'" and r: "run_state (accept_call E cfg m job pc) w = (pc', w')"
      using run by (auto split: prod.splits)
    have "coherent E g \<and> moved E cfg w (\<lambda>i. held E i (gs ! k)) w' (\<lambda>i. held E i g)"
      unfolding g Accepting
      by (rule accept_moved [OF good E _ _ r]) (use co row Accepting in simp_all)
    with other_tags(1) [OF r] Accepting g show ?thesis by simp
  next
    case (Cancelling ctx i pc)
    then obtain pc' where g: "g = Cancelling ctx i pc'" and r: "run_state (cancel_call E cfg ctx i pc) w = (pc', w')"
      using run by (auto split: prod.splits)
    have "(\<lambda>i. held E i (gs ! k)) = (\<lambda>i. held E i g)" using Cancelling g by (simp add: held_def fun_eq_iff)
    with cancel_moved [OF good r] other_tags(2) [OF r] Cancelling g show ?thesis by simp
  qed
  let ?rest = "\<lambda>i. sum_list (map (held E i) (take k gs)) + sum_list (map (held E i) (drop (Suc k) gs))"
  show ?thesis
  proof (rule conc_inv_moved [OF inv])
    from eff have "moved E cfg w (\<lambda>i. held E i (gs ! k)) w' (\<lambda>i. held E i g)" by blast
    from moved_add [OF this, of ?rest]
    show "moved E cfg w (\<lambda>i. sum_list (map (held E i) gs)) w' (\<lambda>i. sum_list (map (held E i) (gs[k := g])))"
      by (simp only: sum_at [OF k])
    show "list_all (coherent E) (gs[k := g])"
      using cos eff k by (simp add: list_all_length nth_list_update)
    from eff show "mset (bk_unacked (broker w')) = mset (concat (map (taken cfg) (gs[k := g])))"
    proof (elim conjE disjE exE)
      assume "tags w' = tags w" "taken cfg g = taken cfg (gs ! k)"
      then show ?thesis using msets by (simp only: tags_def prod.inject mset_at [OF k, of "taken cfg"])
    next
      fix t q m
      assume t: "taken cfg (gs ! k) = [(t, q, m)]" "taken cfg g = []"
        "tags w' = (filter (\<lambda>(t', q, m). t' \<noteq> t) (bk_unacked (broker w)), bk_next_tag (broker w))"
      let ?rest = "mset (concat (map (taken cfg) (take k gs))) + mset (concat (map (taken cfg) (drop (Suc k) gs)))"
      have "mset (bk_unacked (broker w)) = add_mset (t, q, m) ?rest"
        using msets [unfolded mset_at(1) [OF k, of "taken cfg"] t(1)] by simp
      then have "mset (filter (\<lambda>(t', q, m). t' \<noteq> t) (bk_unacked (broker w))) = ?rest" by (rule filter_tag [OF dist])
      with t show ?thesis by (simp add: tags_def mset_at(2) [OF k, of "taken cfg"])
    qed
    show "distinct (map fst (bk_unacked (broker w')))"
      using eff dist by (auto simp: tags_def distinct_map_filter)
    show "\<forall>d\<in>set (bk_unacked (broker w')). fst d < bk_next_tag (broker w')"
      using eff next_tag by (elim conjE disjE exE) (simp_all add: tags_def)
  qed
qed

lemma take_keeps:
  assumes inv: "conc_inv E cfg (w, gs)" and d: "deliver (co_MailQueueName cfg) (broker w) = Some (d, b)"
  shows "conc_inv E cfg (w\<lparr>broker := b\<rparr>, gs @ [Delivering d Received])
    \<and> (\<forall>i. steps_mail E cfg (w, gs) (w\<lparr>broker := b\<rparr>, gs @ [Delivering d Received]) i)"
proof -
  let ?q = "co_MailQueueName cfg" and ?w = "w\<lparr>broker := b\<rparr>"
  obtain ms where ms: "bk_queues (broker w) ?q = Some (snd d # ms)" "bk_queues b = (bk_queues (broker w))(?q \<mapsto> ms)"
    "bk_unacked b = (fst d, ?q, snd d) # bk_unacked (broker w)" using d by (rule deliver_some)
  have tag: "fst d = bk_next_tag (broker w)" "bk_next_tag b = Suc (bk_next_tag (broker w))"
    using d by (auto simp: deliver_def split: option.splits list.splits)
  have wait: "waiting w ?q = snd d # ms" "waiting ?w ?q = ms" using ms by (auto simp: waiting_def queue_of_def)
  have good: "good_world E cfg w" using inv by simp
  then have names: "names_mail E (msg_mail_id (snd d))" by (simp add: good_world_def pending_ids_def wait)
  have "pending E cfg w k = pending E cfg ?w k + held E k (Delivering d Received)" for k
    by (simp add: pending_def pending_ids_def wait held_def)
  moreover have "good_world E cfg ?w"
    using good ms(2) by (simp add: good_world_def pending_ids_def wait declared_def)
  ultimately have mv: "moved E cfg w (\<lambda>i. sum_list (map (held E i) gs)) ?w
      (\<lambda>i. sum_list (map (held E i) (gs @ [Delivering d Received])))"
    by (simp add: moved_def row_status_def ac_simps)
  show ?thesis
    by (rule conc_inv_moved [OF inv mv]) (use inv names ms(3) tag in \<open>auto simp del: carriers.simps simp: less_Suc_eq\<close>)
qed

lemma wake_moved:
  assumes good: "good_world E cfg w" and row: "\<And>i. 0 < pending E cfg w i \<Longrightarrow> row_status i w \<noteq> None"
    and k: "k < length (timers w)" and run: "run_state (fire_retry E cfg k) w = ((), w')"
  shows "moved E cfg w h w' h \<and> tags w' = tags w"
proof -
  let ?job = "snd (timers w ! k)" and ?rest = "take k (timers w) @ drop (Suc k) (timers w)"
  let ?v = "w\<lparr>timers := ?rest\<rparr>" and ?f = "\<lambda>t. Option.bind (Some (job_MailID (snd t))) (x_pg_uuid E)"
  have "names_mail E (Some (job_MailID ?job))"
    using good k by (auto simp: good_world_def pending_ids_def list_all_iff)
  then obtain i where i: "x_pg_uuid E (job_MailID ?job) = Some i" "is_ascii (job_MailID ?job)"
    by (auto simp: names_mail_def)
  have p: "pending E cfg w j = pending E cfg ?v j + one_of True i j" for j
    using count_pick [OF k, of ?f "Some j"] i(1)
    by (simp add: pending_def pending_ids_def waiting_def comp_def one_of_def split: if_splits)
  have good': "good_world E cfg ?v"
    using good by (auto simp: good_world_def declared_def pending_ids_def waiting_def list_all_iff dest: in_set_takeD in_set_dropD)
  have from_v: "moved E cfg w (\<lambda>i. h i) u (\<lambda>i. h i)" if "moved E cfg ?v (one_of True i) u (one_of False i)" for u
    using moved_add [OF that, of h] by (simp add: moved_def p row_status_def add.assoc one_of_def)
  show ?thesis
  proof (cases "x_mq E (ticks w)")
    case None
    let ?m = "retry_message cfg ?job"
    from None have w': "w' = ?v\<lparr>ticks := Suc (ticks w), broker := publish_to [] ?m (broker w)\<rparr>"
      using run k by (simp add: fire_retry_def mq_Publish_def)
    have "declared (co_MailQueueName cfg) ?v" using good' by (simp add: good_world_def)
    note q = publish_pending [OF this i(2), of w' ?m]
    have "moved E cfg ?v (one_of True i) w' (one_of False i)"
      by (rule moved_waiting [OF good', of _ ?m])
        (use q i in \<open>simp_all add: w' declared_def retry_message_def plain_message_def names_mail_def\<close>)
    with from_v w' show ?thesis by (simp add: tags_def publish_next_tag)
  next
    case (Some e)
    then have w': "w' = ?v\<lparr>ticks := Suc (ticks w)\<rparr>" using run k by (simp add: fire_retry_def mq_Publish_def)
    have "\<not> up E" using Some by (auto simp: up_def)
    moreover have "row_status i w \<noteq> None" using row [of i] p [of i] by (simp add: one_of_def)
    ultimately have "mail_step (up E) (row_status j w) (pending E cfg w j + h j)
        (row_status j w) (pending E cfg ?v j + h j)" for j
      using p [of j] by (auto simp: one_of_def mail_step_def intro: mail_slip.intros mail_move.stay)
    moreover have "desk cfg w' = desk cfg ?v" by (simp add: w')
    note desk_same [OF this]
    ultimately show ?thesis using good' w' by (simp add: moved_def row_status_def tags_def)
  qed
qed

lemma elsewhere_fields:
  assumes "elsewhere w' = elsewhere w"
  shows "mails w' = mails w" "broker w' = broker w" "timers w' = timers w"
  using arg_cong [OF assms, of mails] arg_cong [OF assms, of broker] arg_cong [OF assms, of timers]
  by (simp_all add: elsewhere_def)

lemma conc_step_keeps:
  assumes E: "printed_ids E" and q: "co_MailQueueName cfg \<noteq> co_FailedQueueName cfg"
    and "conc_inv E cfg c" and "conc_step E cfg c c'"
  shows "conc_inv E cfg c' \<and> (\<forall>i. steps_mail E cfg c c' i)"
  using assms(4,3)
proof cases
  case (arrive m job w gs)
  with assms(3) have inv: "conc_inv E cfg (w, gs)" by simp
  then show ?thesis unfolding arrive(1,2)
    by (intro conc_inv_moved [OF inv]) (use arrive(3,4) in \<open>auto simp: moved_def held_def\<close>)
next
  case (ask_cancel w gs ctx i)
  with assms(3) have inv: "conc_inv E cfg (w, gs)" by simp
  then show ?thesis unfolding ask_cancel(1,2)
    by (intro conc_inv_moved [OF inv]) (auto simp: moved_def held_def)
next
  case (take w d b gs)
  with assms(3) take_keeps [of E cfg w gs d b] show ?thesis by blast
next
  case (run k gs w g w')
  with assms(3) run_keeps [OF _ E q, of w gs k g w'] show ?thesis by blast
next
  case (wake k w w' gs)
  with assms(3) have inv: "conc_inv E cfg (w, gs)" by simp
  then have "good_world E cfg w" "\<And>i. 0 < pending E cfg w i \<Longrightarrow> row_status i w \<noteq> None" by simp_all
  from wake_moved [OF this wake(3,4)] inv show ?thesis unfolding wake(1,2)
    by (intro conc_inv_moved [OF inv]) (auto simp: tags_def)
next
  case (stop w w' gs)
  with assms(3) have inv: "conc_inv E cfg (w, gs)" by simp
  have "w' = w\<lparr>is_shutdown := True\<rparr>" using stop(3) by (simp add: shutdown_begin_def)
  with inv show ?thesis unfolding stop(1,2)
    by (intro conc_inv_moved [OF inv]) (auto simp: moved_desk)
next
  case (other w' w gs)
  with assms(3) have inv: "conc_inv E cfg (w, gs)" by simp
  note f = elsewhere_fields [OF other(3)]
  from inv f show ?thesis unfolding other(1,2)
    by (intro conc_inv_moved [OF inv]) (auto simp: desk_def waiting_def declared_def intro: moved_desk)
qed

lemma conc_inv_fresh: "fresh cfg w \<Longrightarrow> conc_inv E cfg (w, [])"
  using sys_inv_fresh [of cfg w E] by (auto simp: sys_inv_def good_world_def fresh_def pending_def pending_ids_def)

lemma conc_reach_inv:
  "conc_reach E cfg c \<Longrightarrow> printed_ids E \<Longrightarrow> co_MailQueueName cfg \<noteq> co_FailedQueueName cfg \<Longrightarrow> conc_inv E cfg c"
  by (induction rule: conc_reach.induct) (auto intro: conc_inv_fresh dest: conc_step_keeps simp del: conc_inv.simps)

lemma conc_books:
  "conc_reach E cfg c \<Longrightarrow> deployed E cfg \<Longrightarrow> pending_ok (row_status i (fst c)) (carriers E cfg c i)"
proof (induction rule: conc_reach.induct)
  case (start w)
  then show ?case using conc_inv_fresh [of cfg w E] by (auto simp: fresh_def row_status_def t_find_def)
next
  case (step c c')
  then have "conc_inv E cfg c" by (auto simp: deployed_def intro: conc_reach_inv)
  with conc_step_keeps [OF _ _ this step.hyps(2)] step.prems have "steps_mail E cfg c c' i" by (simp add: deployed_def)
  with step show ?case by (auto simp: steps_mail_def mail_step_def deployed_def intro: mail_move_books)
qed

lemma conc_one:
  "conc_reach E cfg c \<Longrightarrow> printed_ids E \<Longrightarrow> co_MailQueueName cfg \<noteq> co_FailedQueueName cfg \<Longrightarrow> carriers E cfg c i \<le> 1"
proof (induction rule: conc_reach.induct)
  case (start w)
  then show ?case by (simp add: fresh_def pending_def pending_ids_def)
next
  case (step c c')
  then have inv: "conc_inv E cfg c" by (auto intro: conc_reach_inv)
  with conc_step_keeps [OF step.prems this step.hyps(2)] have "steps_mail E cfg c c' i" by simp
  moreover have "0 < carriers E cfg c i \<Longrightarrow> row_status i (fst c) \<noteq> None"
    using inv by (cases c) (simp del: carriers.simps)
  ultimately show ?case using step.IH [OF step.prems] mail_step_one by (auto simp: steps_mail_def)
qed

section \<open>Properties\<close>

text \<open>
  C8: the machine refines the abstract one. However goroutines interleave between their calls,
  and whichever calls fail, each step is for every mail at once a move of the abstract
  machine, its status being that of the row and its number of carriers the jobs in the mail
  queue, in the timers and in the hands of goroutines. When the services answer it is one of
  the regular moves.
\<close>

theorem interleaved_moves:
  assumes "printed_ids E" and "co_MailQueueName cfg \<noteq> co_FailedQueueName cfg"
    and "conc_reach E cfg c" and "conc_step E cfg c c'"
  shows "mail_step (up E) (row_status i (fst c)) (carriers E cfg c i) (row_status i (fst c')) (carriers E cfg c' i)"
  using conc_step_keeps [OF assms(1,2) conc_reach_inv [OF assms(3,1,2)] assms(4)] by (simp add: steps_mail_def)

text \<open>A request between its row and its job.\<close>

definition between_job :: mail_job where
  "between_job = sample_job\<lparr>job_MailID := b64_encode ''m1''\<rparr>"

lemma between:
  obtains w w0 where "conc_reach deployed_ext default_config (w0, [Accepting sample_row between_job Creating])"
    "conc_step deployed_ext default_config (w0, [Accepting sample_row between_job Creating])
       (w, [Accepting sample_row between_job Publishing])"
    "conc_reach deployed_ext default_config (w, [Accepting sample_row between_job Publishing])"
    "row_status ''m1'' w = Some MailStatusQueued" "waiting w ''mail-queue'' = []"
proof -
  let ?g = "Accepting sample_row between_job"
  have m: "mail_ID sample_row = ''m1''" "mail_Status sample_row = MailStatusQueued"
    by (simp_all add: sample_row_def)
  have "conc_step deployed_ext default_config (sample_world, []) (sample_world, [] @ [?g Creating])"
    by (rule arrive) (simp_all add: m between_job_def deployed_ext_def)
  then have r: "conc_reach deployed_ext default_config (sample_world, [?g Creating])"
    using conc_reach.start [OF sample_fresh] by (auto intro: conc_reach.step)
  obtain w where w: "w = sample_world\<lparr>ticks := 1, mails := [stored_mail 0 sample_row]\<rparr>" by blast
  have "x_db deployed_ext 0 = None" "x_clock deployed_ext 0 = 0" by (simp_all add: deployed_ext_def)
  then have "run_state (goro_call deployed_ext default_config ([?g Creating] ! 0)) sample_world = (?g Publishing, w)"
    by (simp add: w mails_Create_run t_find_def t_insert_def)
  from conc_step.run [OF _ this]
  have s: "conc_step deployed_ext default_config (sample_world, [?g Creating]) (w, [?g Publishing])" by simp
  show thesis
    using conc_reach.step [OF r s]
    by (rule that [OF r s])
      (simp_all add: w row_status_def t_find_def stored_mail_def m waiting_def queue_of_def sample_broker_def)
qed

theorem interleaved_moves_witness:
  "\<exists>c c'. conc_reach deployed_ext default_config c \<and> row_status ''m1'' (fst c') = Some MailStatusQueued
     \<and> mail_step True (row_status ''m1'' (fst c)) (carriers deployed_ext default_config c ''m1'')
         (row_status ''m1'' (fst c')) (carriers deployed_ext default_config c' ''m1'')"
proof -
  obtain w w0 where r: "conc_reach deployed_ext default_config (w0, [Accepting sample_row between_job Creating])"
    and s: "conc_step deployed_ext default_config (w0, [Accepting sample_row between_job Creating])
       (w, [Accepting sample_row between_job Publishing])"
    and q: "row_status ''m1'' w = Some MailStatusQueued" by (rule between)
  have d: "up deployed_ext" "printed_ids deployed_ext" "co_MailQueueName default_config \<noteq> co_FailedQueueName default_config"
    using deployed_sample by (simp_all add: deployed_def)
  from interleaved_moves [OF d(2,3) r s, of "''m1''"] d(1) r q show ?thesis by (metis fst_conv)
qed

text \<open>
  C4: no interleaving loses or doubles a mail. In every state that goroutines of the API, of
  the receiver and of the worker can reach by taking turns after any of their calls, a queued
  or processing mail has exactly one carrier: its job is in the mail queue, in a timer, or in
  the hands of one goroutine. A sent or failed mail has none, and no carrier is without a row.
\<close>

theorem interleaved_books:
  assumes "deployed E cfg" and "conc_reach E cfg c"
  shows "pending_ok (row_status i (fst c)) (carriers E cfg c i)"
  using conc_books [OF assms(2,1)] .

theorem interleaved_books_witness:
  "\<exists>w gs. conc_reach deployed_ext default_config (w, gs) \<and> waiting w ''mail-queue'' = []
     \<and> carriers deployed_ext default_config (w, gs) ''m1'' = 1"
proof -
  obtain w where r: "conc_reach deployed_ext default_config (w, [Accepting sample_row between_job Publishing])"
    and q: "row_status ''m1'' w = Some MailStatusQueued" "waiting w ''mail-queue'' = []" by (rule between)
  from interleaved_books [OF deployed_sample r, of "''m1''"] q r show ?thesis
    by (intro exI [of _ w] exI [of _ "[Accepting sample_row between_job Publishing]"]) simp
qed

text \<open>
  C11: whichever calls fail, and however goroutines interleave, a mail never has two carriers as
  long as no process ends in the middle of its work.
\<close>

theorem interleaved_never_twice:
  assumes "printed_ids E" and "co_MailQueueName cfg \<noteq> co_FailedQueueName cfg" and "conc_reach E cfg c"
  shows "carriers E cfg c i \<le> 1 \<and> (0 < carriers E cfg c i \<longrightarrow> row_status i (fst c) \<noteq> None)"
  using conc_one [OF assms(3,1,2)] conc_reach_inv [OF assms(3,1,2)] by (cases c) (auto simp del: carriers.simps)

theorem interleaved_never_twice_witness:
  "\<exists>c. conc_reach deployed_ext default_config c \<and> carriers deployed_ext default_config c ''m1'' \<le> 1
     \<and> row_status ''m1'' (fst c) = Some MailStatusQueued"
proof -
  obtain w where r: "conc_reach deployed_ext default_config (w, [Accepting sample_row between_job Publishing])"
    and q: "row_status ''m1'' w = Some MailStatusQueued" by (rule between)
  have d: "printed_ids deployed_ext" "co_MailQueueName default_config \<noteq> co_FailedQueueName default_config"
    using deployed_sample by (simp_all add: deployed_def)
  from interleaved_never_twice [OF d r, of "''m1''"] q r show ?thesis by (metis fst_conv)
qed
end
