(* ===== verification/Crashes.thy ===== *)
theory Crashes
  imports Interleave
begin

text \<open>
  Processes that end in the middle of their work, and how the machine of \<open>Interleave\<close> relates
  to the system of whole steps (\<open>System\<close>).
\<close>

section \<open>Whole steps are runs of calls\<close>

fun goro_over :: "goro \<Rightarrow> bool" where
  "goro_over (Delivering d pc) = delivery_over pc"
| "goro_over (Accepting m job pc) = accept_over pc"
| "goro_over (Cancelling ctx i pc) = cancel_over pc"

text \<open>From one state to another by goroutines that are all over at the end.\<close>

definition by_calls :: "ext \<Rightarrow> config \<Rightarrow> world \<Rightarrow> world \<Rightarrow> bool" where
  "by_calls E cfg w w' \<longleftrightarrow>
     (\<forall>gs. \<exists>gs'. list_all goro_over gs' \<and> (conc_step E cfg)\<^sup>*\<^sup>* (w, gs) (w', gs @ gs'))"

interpretation by_calls: frame_rel "by_calls E cfg" for E cfg
proof
  show "by_calls E cfg s s" for s
    unfolding by_calls_def by (intro allI exI [of _ "[]"]) simp
  show "by_calls E cfg s u" if st: "by_calls E cfg s t" and tu: "by_calls E cfg t u" for s t u
    unfolding by_calls_def
  proof
    fix gs
    obtain hs where hs: "list_all goro_over hs" "(conc_step E cfg)\<^sup>*\<^sup>* (s, gs) (t, gs @ hs)"
      using st by (auto simp: by_calls_def)
    obtain ks where "list_all goro_over ks" "(conc_step E cfg)\<^sup>*\<^sup>* (t, gs @ hs) (u, (gs @ hs) @ ks)"
      using tu unfolding by_calls_def by blast
    with hs show "\<exists>gs'. list_all goro_over gs' \<and> (conc_step E cfg)\<^sup>*\<^sup>* (s, gs) (u, gs @ gs')"
      by (intro exI [of _ "hs @ ks"]) auto
  qed
qed

lemma by_calls_other: "elsewhere w' = elsewhere w \<Longrightarrow> by_calls E cfg w w'"
  unfolding by_calls_def by (intro allI exI [of _ "[]"]) (auto intro: conc_step.other)

lemma by_calls_ticked: "ticked (by_calls E cfg)"
  by (intro allI by_calls_other) (simp add: elsewhere_def)

text \<open>One goroutine alone.\<close>

lemma alone_at:
  "run_state (run_calls (goro_call E cfg) n (gs ! k)) w = (g', w') \<Longrightarrow> k < length gs \<Longrightarrow>
   (conc_step E cfg)\<^sup>*\<^sup>* (w, gs) (w', gs[k := g'])"
proof (induction n arbitrary: gs w)
  case 0
  then show ?case by auto
next
  case (Suc n)
  obtain h v where h: "run_state (goro_call E cfg (gs ! k)) w = (h, v)" by fastforce
  with Suc.prems have "conc_step E cfg (w, gs) (v, gs[k := h])" by (intro conc_step.run)
  moreover have "(conc_step E cfg)\<^sup>*\<^sup>* (v, gs[k := h]) (w', gs[k := h, k := g'])"
    using Suc.prems h by (intro Suc.IH) simp_all
  ultimately show ?case by (simp add: converse_rtranclp_into_rtranclp)
qed

lemma alone:
  "run_state (run_calls (goro_call E cfg) n g) w = (g', w') \<Longrightarrow>
   (conc_step E cfg)\<^sup>*\<^sup>* (w, gs @ [g]) (w', gs @ [g'])"
  using alone_at [of E cfg n "gs @ [g]" "length gs" w g' w'] by simp

lemma goro_calls:
  "run_state (run_calls (goro_call E cfg) n (Delivering d p)) w
     = map_prod (Delivering d) id (run_state (run_calls (delivery_call E (worker_consumer E cfg) d) n p) w)"
  "run_state (run_calls (goro_call E cfg) n (Accepting m job a)) w
     = map_prod (Accepting m job) id (run_state (run_calls (accept_call E cfg m job) n a) w)"
  "run_state (run_calls (goro_call E cfg) n (Cancelling ctx i c)) w
     = map_prod (Cancelling ctx i) id (run_state (run_calls (cancel_call E cfg ctx i) n c) w)"
  by (induction n arbitrary: p a c w) (auto split: prod.splits)

lemma by_calls_one:
  assumes "run_state (run_calls (goro_call E cfg) n g) w = (g', w')" and "goro_over g'"
    and "\<And>gs. conc_step E cfg (v, gs) (w, gs @ [g])"
  shows "by_calls E cfg v w'"
  unfolding by_calls_def
proof
  fix gs
  have "(conc_step E cfg)\<^sup>*\<^sup>* (v, gs) (w', gs @ [g'])"
    using assms(3) [of gs] alone [OF assms(1)] by (rule converse_rtranclp_into_rtranclp)
  with assms(2) show "\<exists>gs'. list_all goro_over gs' \<and> (conc_step E cfg)\<^sup>*\<^sup>* (v, gs) (w', gs @ gs')"
    by (intro exI [of _ "[g']"]) simp
qed

lemma accept_end: "accept_over (fst (run_state (run_calls (accept_call E cfg m job) 3 Creating) w))"
  by (simp add: eval_nat_numeral split: prod.splits sum.splits option.splits)

lemma accepting_by_calls:
  assumes "mail_Status m = MailStatusQueued" and "job_MailID job = x_uuid_string E (mail_ID m)"
  shows "by_calls E cfg w (snd (run_state (run_calls (accept_call E cfg m job) 3 Creating) w))"
proof -
  obtain pc w' where r: "run_state (run_calls (accept_call E cfg m job) 3 Creating) w = (pc, w')" by fastforce
  with accept_end [of E cfg m job w] have "accept_over pc" by simp
  with r have "by_calls E cfg w w'"
    by (intro by_calls_one [where g = "Accepting m job Creating" and g' = "Accepting m job pc" and n = 3 and w = w])
      (simp_all add: goro_calls assms conc_step.arrive)
  with r show ?thesis by simp
qed

lemma accept_mail_by_calls:
  assumes "mail_Status m = MailStatusQueued"
  shows "within (by_calls E cfg) (accept_mail E cfg m atts)"
proof
  fix w
  obtain r w1 where s: "run_state (for_err (save_attachment E cfg (mail_ID m)) atts) w = (r, w1)" by fastforce
  have "within (same elsewhere) (save_attachment E cfg (mail_ID m) att)" for att
    unfolding save_attachment_def by (intro frames same.rules) (simp_all add: same_def elsewhere_def)
  then have "within (same elsewhere) (for_err (save_attachment E cfg (mail_ID m)) atts)" by (rule same.for_err_within)
  from within_same [OF this s] have 1: "by_calls E cfg w w1" by (rule by_calls_other)
  show "by_calls E cfg w (snd (run_state (accept_mail E cfg m atts) w))"
  proof (cases r)
    case (Inl e)
    with s 1 show ?thesis by (simp add: accept_calls_ok)
  next
    case (Inr saved)
    have "by_calls E cfg w1 (snd (run_state (run_calls (accept_call E cfg (m\<lparr>mail_Attachments := map fst saved\<rparr>)
        (job_of_mail E m (map snd saved))) 3 Creating) w1))"
      by (rule accepting_by_calls) (simp_all add: assms job_of_mail_def)
    from by_calls.trans [OF 1 this] s Inr show ?thesis by (simp add: accept_calls_ok)
  qed
qed

lemma Cancel_by_calls: "within (by_calls E cfg) (Cancel E cfg ctx i)"
proof
  fix w
  obtain a w' where "run_state (Cancel E cfg ctx i) w = (a, w')" by fastforce
  then show "by_calls E cfg w (snd (run_state (Cancel E cfg ctx i) w))"
    by (intro by_calls_one [where g = "Cancelling ctx i Finding" and g' = "Cancelling ctx i (Answered a)" and n = 3 and w = w])
      (auto simp: goro_calls cancel_calls_ok cancel_over_def intro: conc_step.ask_cancel)
qed

lemma Send_by_calls:
  "within (by_calls E cfg) (Send E cfg svc ctx body)" "within (by_calls E cfg) (SendBatch E cfg ctx body)"
  unfolding Send_def SendBatch_def processSingleMail_def prod.case
  by (intro frames by_calls.rules outcome_within accept_mail_by_calls read_within by_calls_ticked
      by_calls.frame_rel_axioms; simp add: new_mail_def)+

lemma untouched_elsewhere:
  assumes "untouched ep w' = untouched ep w" and "ep \<noteq> EP_Send" "ep \<noteq> EP_SendBatch" "\<And>i. ep \<noteq> EP_Cancel i"
  shows "elsewhere w' = elsewhere w"
proof -
  have "elsewhere (untouched ep v) = elsewhere v" for v
    using assms(2-4) by (cases ep) (auto simp: elsewhere_def)
  then show ?thesis using assms(1) by metis
qed

lemma handler_by_calls:
  assumes svc: "svc = None \<longrightarrow> \<not> sender_config_group ep"
  shows "within (by_calls E cfg) (handler E cfg svc ep rq ctx)"
proof (cases "ep = EP_Send \<or> ep = EP_SendBatch \<or> (\<exists>i. ep = EP_Cancel i)")
  case True
  have "within (by_calls E cfg) (answers (Cancel E cfg ctx i))" for i
    by (rule answers_within [OF by_calls.frame_rel_axioms Cancel_by_calls])
  with True Send_by_calls show ?thesis by auto
next
  case False
  show ?thesis
  proof
    fix w
    have "untouched ep (snd (run_state (handler E cfg svc ep rq ctx) w)) = untouched ep w"
      using within_snd [OF handler_within [OF svc]] by (simp add: same_def)
    then have "elsewhere (snd (run_state (handler E cfg svc ep rq ctx) w)) = elsewhere w"
      using False by (intro untouched_elsewhere) auto
    then show "by_calls E cfg w (snd (run_state (handler E cfg svc ep rq ctx) w))" by (rule by_calls_other)
  qed
qed

lemma serve_by_calls:
  assumes "run_state (serve E cfg svc ep rq) w = (answer, w')"
  shows "by_calls E cfg w w'"
  using assms
proof (cases rule: serve_cases)
  case refused
  from untouched_but_ticks [OF refused(1), of EP_Health] show ?thesis
    by (intro by_calls_other untouched_elsewhere [of EP_Health]) simp_all
next
  case health
  from within_same [OF read_untouched(1) health(2), of EP_Health] show ?thesis
    by (intro by_calls_other untouched_elsewhere [of EP_Health]) simp_all
next
  case (handled ctx w1 r)
  from untouched_but_ticks [OF handled(4), of EP_Health] have "by_calls E cfg w w1"
    by (intro by_calls_other untouched_elsewhere [of EP_Health]) simp_all
  also have "by_calls E cfg w1 w'" using withinD [OF handler_by_calls [OF handled(2)] handled(6)] .
  finally (by_calls.trans) show ?thesis .
qed

lemma Data_by_calls:
  assumes d: "Data E cfg s input w = Some (r, w')"
  shows "by_calls E cfg w w'"
proof (cases "\<exists>buf m w1. input = Inr buf \<and> parseMailData E cfg s buf w = Some (m, w1)
    \<and> run_state (enqueue_mail E cfg m) w1 = (r, w')")
  case False
  with d have "w' = w" by (auto simp: Data_def Let_def split: sum.splits if_splits option.splits)
  then show ?thesis by (simp add: by_calls.refl)
next
  case True
  then obtain buf m w1 where m: "parseMailData E cfg s buf w = Some (m, w1)"
    and e: "run_state (enqueue_mail E cfg m) w1 = (r, w')" by blast
  from parseMailData_ok [OF m] have f: "but_files w1 = but_files w" and st: "mail_Status m = MailStatusQueued"
    by (simp_all add: inbound_def)
  have "elsewhere (but_files v) = elsewhere v" for v by (simp add: elsewhere_def but_files_def)
  then have "by_calls E cfg w w1" using f by (intro by_calls_other) metis
  also have "by_calls E cfg w1 w'"
  proof -
    have "job_MailID (inbound_job E m) = x_uuid_string E (mail_ID m)" by (simp add: inbound_job_def)
    from accepting_by_calls [OF st this, of cfg w1] show ?thesis
      using arg_cong [OF e, of snd] by (simp add: inbound_calls_ok)
  qed
  finally (by_calls.trans) show ?thesis .
qed

lemma work_by_calls:
  assumes "work_step E cfg w = Some w'"
  shows "by_calls E cfg w w'"
proof -
  obtain d b where d: "deliver (co_MailQueueName cfg) (broker w) = Some (d, b)"
    using assms by (auto simp: work_step_def split: option.splits)
  obtain a where a: "run_state (process_delivery E (worker_consumer E cfg) d) (w\<lparr>broker := b\<rparr>) = (a, w')"
    using assms d by (auto simp: work_step_def) (metis prod.collapse)
  show ?thesis
    by (rule by_calls_one [where g = "Delivering d Received" and g' = "Delivering d (Ended a)"
          and n = delivery_calls and w = "w\<lparr>broker := b\<rparr>"])
      (simp_all add: goro_calls delivery_calls_ok a d conc_step.take)
qed

lemma sys_step_by_calls:
  assumes "sys_step E cfg w w'"
  shows "by_calls E cfg w w'"
  using assms
proof cases
  case (api ep rq answer)
  then show ?thesis by (rule serve_by_calls)
next
  case (smtp s input r)
  then show ?thesis by (intro Data_by_calls)
next
  case worker
  then show ?thesis
  proof cases
    case work
    then show ?thesis by (rule work_by_calls)
  next
    case (wake i)
    then show ?thesis unfolding by_calls_def
      by (intro allI exI [of _ "[]"]) (auto intro: conc_step.wake)
  qed
next
  case stop
  then show ?thesis unfolding by_calls_def
    by (intro allI exI [of _ "[]"]) (auto intro: conc_step.stop)
qed

lemma conc_reach_steps: "(conc_step E cfg)\<^sup>*\<^sup>* c c' \<Longrightarrow> conc_reach E cfg c \<Longrightarrow> conc_reach E cfg c'"
  by (induction rule: rtranclp_induct) (auto intro: conc_reach.step)

lemma reach_by_calls: "sys_reach E cfg w \<Longrightarrow> \<exists>gs. conc_reach E cfg (w, gs) \<and> list_all goro_over gs"
proof (induction rule: sys_reach.induct)
  case (start w)
  then show ?case by (intro exI [of _ "[]"]) (simp add: conc_reach.start)
next
  case (step w w')
  then obtain gs where gs: "conc_reach E cfg (w, gs)" "list_all goro_over gs" by blast
  from sys_step_by_calls [OF step.hyps(2)] obtain hs where
    "list_all goro_over hs" "(conc_step E cfg)\<^sup>*\<^sup>* (w, gs) (w', gs @ hs)" by (auto simp: by_calls_def)
  with gs conc_reach_steps show ?case by (intro exI [of _ "gs @ hs"]) auto
qed

section \<open>Processes that end in the middle\<close>

text \<open>
  The worker ends: its goroutines and timers are gone, and the broker puts every delivery that
  was not settled back into its queue.
\<close>

definition worker_death :: "world \<Rightarrow> world" where
  "worker_death w = w\<lparr>timers := [], is_shutdown := False, active_jobs := 0,
     broker := (requeue_all (bk_unacked (broker w)) (broker w))\<lparr>bk_unacked := []\<rparr>\<rparr>"

fun in_worker :: "goro \<Rightarrow> bool" where
  "in_worker (Delivering _ _) = True" | "in_worker _ = False"

text \<open>
  Runs with crashes. The set collects the mails that crashes may lose: those whose retry timer
  was gone with the worker, and those whose request ended between the row and the job. A
  front-end process that ends stops its requests; here they stop one by one.
\<close>

inductive crash_reach :: "ext \<Rightarrow> config \<Rightarrow> uuid set \<Rightarrow> conc \<Rightarrow> bool" for E cfg where
  start: "fresh cfg w \<Longrightarrow> crash_reach E cfg {} (w, [])"
| step: "crash_reach E cfg L c \<Longrightarrow> conc_step E cfg c c' \<Longrightarrow> crash_reach E cfg L c'"
| worker_dies: "crash_reach E cfg L (w, gs) \<Longrightarrow>
    crash_reach E cfg (L \<union> {i. \<exists>t\<in>set (timers w). x_pg_uuid E (job_MailID (snd t)) = Some i})
      (worker_death w, filter (\<lambda>g. \<not> in_worker g) gs)"
| request_dies: "crash_reach E cfg L (w, gs) \<Longrightarrow> k < length gs \<Longrightarrow> \<not> in_worker (gs ! k) \<Longrightarrow>
    crash_reach E cfg (L \<union> {i. held E i (gs ! k) = 1}) (w, take k gs @ drop (Suc k) gs)"

lemma requeue_all_queue:
  "\<forall>d\<in>set ds. fst (snd d) = q \<Longrightarrow> bk_queues b q \<noteq> None \<Longrightarrow>
   mset (queue_of (requeue_all ds b) q) = mset (queue_of b q) + mset (map (snd \<circ> snd) ds)
   \<and> (bk_queues (requeue_all ds b) q' = None) = (bk_queues b q' = None)"
proof (induction ds arbitrary: b)
  case Nil
  then show ?case by simp
next
  case (Cons d ds)
  obtain t m where d: "d = (t, q, m)" using Cons.prems(1) by (cases d) auto
  obtain ms where ms: "bk_queues b q = Some ms" using Cons.prems(2) by auto
  then have r: "requeue q m b = b\<lparr>bk_queues := (bk_queues b)(q \<mapsto> m # ms)\<rparr>" by (simp add: requeue_def)
  have "mset (queue_of (requeue_all ds (requeue q m b)) q)
      = mset (queue_of (requeue q m b) q) + mset (map (snd \<circ> snd) ds)
    \<and> (bk_queues (requeue_all ds (requeue q m b)) q' = None) = (bk_queues (requeue q m b) q' = None)"
    by (rule Cons.IH) (use Cons.prems r in auto)
  then show ?case using ms by (auto simp: d r queue_of_def comp_def)
qed

text \<open>A mail that is delivered has a row, also when its job was let go.\<close>

fun handed :: "goro \<Rightarrow> string option" where
  "handed (Delivering d _) = msg_mail_id (snd d)" | "handed _ = None"

definition at_work :: "mail_status option \<Rightarrow> bool" where
  "at_work s \<longleftrightarrow> s = Some MailStatusQueued \<or> s = Some MailStatusProcessing"

fun crash_inv :: "ext \<Rightarrow> config \<Rightarrow> uuid set \<Rightarrow> conc \<Rightarrow> bool" where
  "crash_inv E cfg L (w, gs) \<longleftrightarrow> conc_inv E cfg (w, gs)
     \<and> (\<forall>g\<in>set gs. \<forall>i. Option.bind (handed g) (x_pg_uuid E) = Some i \<longrightarrow> row_status i w \<noteq> None)
     \<and> (\<forall>i. at_work (row_status i w) \<longrightarrow>
          i \<in> L \<or> 0 < carriers E cfg (w, gs) i)"

lemma mail_step_row: "mail_step u s n s' n' \<Longrightarrow> s \<noteq> None \<Longrightarrow> s' \<noteq> None"
  by (auto simp: mail_step_def elim: mail_move.cases mail_slip.cases)

lemma mail_move_busy:
  "mail_move s n s' n' \<Longrightarrow> (at_work s \<longrightarrow> 0 < n) \<Longrightarrow>
   at_work s' \<longrightarrow> 0 < n'"
  by (auto simp: at_work_def elim!: mail_move.cases)

lemma goro_call_handed: "run_state (goro_call E cfg g) w = (g', w') \<Longrightarrow> handed g' = handed g"
  by (cases g) (auto split: prod.splits)

lemma conc_step_handed:
  assumes "conc_inv E cfg c" and "conc_step E cfg c c'" and "g' \<in> set (snd c')"
    and "Option.bind (handed g') (x_pg_uuid E) = Some i"
  shows "(\<exists>g\<in>set (snd c). handed g = handed g') \<or> row_status i (fst c) \<noteq> None"
  using assms(2)
proof cases
  case (take w d b gs)
  show ?thesis
  proof (cases "g' \<in> set gs")
    case True
    with take show ?thesis by auto
  next
    case False
    with take assms(3) have g': "g' = Delivering d Received" by simp
    obtain ms where "bk_queues (broker w) (co_MailQueueName cfg) = Some (snd d # ms)"
      using take(3) by (rule deliver_some)
    then have "0 < pending E cfg w i"
      using assms(4) g' by (simp add: pending_def pending_ids_def waiting_def queue_of_def)
    with assms(1) take show ?thesis by simp
  qed
next
  case (run k gs w g w')
  with assms(3) consider "g' \<in> set gs" | "g' = g"
    by (metis insertE set_update_subset_insert snd_conv subsetD)
  then show ?thesis
  proof cases
    case 2
    with run goro_call_handed [OF run(4)] show ?thesis by (metis nth_mem snd_conv)
  qed (use run in auto)
qed (use assms in auto)

lemma sum_pos: "0 < sum_list (map f xs) \<longleftrightarrow> (\<exists>x\<in>set xs. 0 < f x)" for f :: "'a \<Rightarrow> nat"
  by (induction xs) auto

lemma unacked_taken:
  assumes "conc_inv E cfg (w, gs)" and "d \<in> set (bk_unacked (broker w))"
  shows "\<exists>pc. Delivering (fst d, snd (snd d)) pc \<in> set gs \<and> fst (snd d) = co_MailQueueName cfg"
proof -
  have "mset (bk_unacked (broker w)) = mset (concat (map (taken cfg) gs))" using assms(1) by simp
  then have "d \<in> set (concat (map (taken cfg) gs))" using assms(2) by (metis set_mset_mset)
  then obtain g where g: "g \<in> set gs" "d \<in> set (taken cfg g)" by auto
  then show ?thesis by (cases g rule: goro.exhaust) (auto split: if_splits)
qed

lemma taken_unacked:
  assumes "conc_inv E cfg (w, gs)" and "Delivering d pc \<in> set gs" and "unsettled pc"
  shows "(fst d, co_MailQueueName cfg, snd d) \<in> set (bk_unacked (broker w))"
proof -
  have "mset (bk_unacked (broker w)) = mset (concat (map (taken cfg) gs))" using assms(1) by simp
  moreover have "(fst d, co_MailQueueName cfg, snd d) \<in> set (concat (map (taken cfg) gs))"
    using assms(2,3) by force
  ultimately show ?thesis by (metis set_mset_mset)
qed

text \<open>The broker hands over again what was not settled.\<close>

lemma unacked_requeued:
  assumes inv: "conc_inv E cfg (w, gs)"
    and b: "broker w' = (requeue_all (bk_unacked (broker w)) (broker w))\<lparr>bk_unacked := []\<rparr>"
  shows "mset (waiting w' (co_MailQueueName cfg)) = mset (waiting w (co_MailQueueName cfg))
      + mset (map (snd \<circ> snd) (bk_unacked (broker w))) \<and> declared q w' = declared q w"
proof -
  have "bk_queues (broker w) (co_MailQueueName cfg) \<noteq> None" using inv by (simp add: good_world_def declared_def)
  moreover have "\<forall>d\<in>set (bk_unacked (broker w)). fst (snd d) = co_MailQueueName cfg"
    using unacked_taken [OF inv] by blast
  ultimately show ?thesis
    using requeue_all_queue [of "bk_unacked (broker w)" "co_MailQueueName cfg" "broker w" q]
    by (simp add: b waiting_def queue_of_def declared_def)
qed

lemma requeued_waits:
  assumes "conc_inv E cfg (w, gs)"
    and "broker w' = (requeue_all (bk_unacked (broker w)) (broker w))\<lparr>bk_unacked := []\<rparr>"
    and "d \<in> set (bk_unacked (broker w))"
  shows "snd (snd d) \<in> set (waiting w' (co_MailQueueName cfg))"
proof -
  have "set (waiting w' (co_MailQueueName cfg)) = set (waiting w (co_MailQueueName cfg)) \<union> (snd \<circ> snd) ` set (bk_unacked (broker w))"
    using unacked_requeued [OF assms(1,2)] by (metis set_map set_mset_mset set_mset_union)
  with assms(3) show ?thesis by force
qed

lemma worker_death_keeps:
  assumes inv: "crash_inv E cfg L (w, gs)"
  shows "crash_inv E cfg (L \<union> {i. \<exists>t\<in>set (timers w). x_pg_uuid E (job_MailID (snd t)) = Some i})
      (worker_death w, filter (\<lambda>g. \<not> in_worker g) gs)"
proof -
  let ?q = "co_MailQueueName cfg" and ?w = "worker_death w" and ?gs = "filter (\<lambda>g. \<not> in_worker g) gs"
  let ?ms = "map (snd \<circ> snd) (bk_unacked (broker w))" and ?id = "\<lambda>m. Option.bind (msg_mail_id m) (x_pg_uuid E)"
  note parts = inv [unfolded crash_inv.simps]
  note c = parts [THEN conjunct1] and handed = parts [THEN conjunct2, THEN conjunct1, rule_format]
    and busy = parts [THEN conjunct2, THEN conjunct2, rule_format]
  from c have good: "good_world E cfg w" and cos: "list_all (coherent E) gs"
    and row: "\<And>i. 0 < carriers E cfg (w, gs) i \<Longrightarrow> row_status i w \<noteq> None"
    unfolding conc_inv.simps by blast+
  have out: "\<exists>g pc. g \<in> set gs \<and> g = Delivering (fst d, snd (snd d)) pc \<and> fst (snd d) = ?q"
    if "d \<in> set (bk_unacked (broker w))" for d
    using unacked_taken [OF c that] by blast
  have wait: "mset (waiting ?w ?q) = mset (waiting w ?q) + mset ?ms" and dec: "declared k ?w = declared k w" for k
    using unacked_requeued [OF c, of ?w k] by (simp_all add: worker_death_def)
  have set_wait: "set (waiting ?w ?q) = set (waiting w ?q) \<union> set ?ms"
    using arg_cong [OF wait, of set_mset] by (simp add: comp_def)
  have rows: "row_status k ?w = row_status k w" for k by (simp add: worker_death_def row_status_def)
  have p: "pending E cfg ?w k = count_list (map ?id (waiting w ?q)) (Some k) + count_list (map ?id ?ms) (Some k)" for k
  proof -
    have "count_list (map ?id (waiting ?w ?q)) (Some k)
      = count_list (map ?id (waiting w ?q)) (Some k) + count_list (map ?id ?ms) (Some k)"
      using arg_cong [OF wait, of "\<lambda>M. count (image_mset ?id M) (Some k)"]
      by (simp add: count_mset [symmetric] flip: mset_map)
    then show ?thesis by (simp add: pending_def pending_ids_def worker_death_def comp_def)
  qed
  have names_out: "names_mail E (msg_mail_id m)" if "m \<in> set ?ms" for m
    using that out cos by (fastforce simp: list_all_iff)
  have good': "good_world E cfg ?w"
    using good names_out
    by (auto simp: good_world_def dec pending_ids_def list_all_iff set_wait) (auto simp: worker_death_def)
  have held': "sum_list (map (held E i) ?gs) \<le> sum_list (map (held E i) gs)" for i
    by (induction gs) auto
  have queued: "count_list (map ?id (waiting w ?q)) (Some i) \<le> pending E cfg w i" for i
    by (simp add: pending_def pending_ids_def comp_def)
  have row': "row_status i ?w \<noteq> None" if "0 < carriers E cfg (?w, ?gs) i" for i
  proof (cases "0 < count_list (map ?id ?ms) (Some i)")
    case True
    then have "Some i \<in> set (map ?id ?ms)" by (metis count_list_0_iff less_numeral_extra(3))
    then obtain d where "d \<in> set (bk_unacked (broker w))" "?id (snd (snd d)) = Some i" by auto
    with out [of d] handed [of _ i] show ?thesis by (auto simp: rows)
  next
    case False
    then have "0 < carriers E cfg (w, gs) i"
      using that p [of i] held' [of i] queued [of i] by (auto simp del: sum_list_eq_0_iff)
    then show ?thesis using row by (simp add: rows)
  qed
  have "i \<in> L \<union> {i. \<exists>t\<in>set (timers w). x_pg_uuid E (job_MailID (snd t)) = Some i} \<or> 0 < carriers E cfg (?w, ?gs) i"
    if b: "at_work (row_status i ?w)" for i
  proof (rule ccontr)
    assume n: "\<not> ?thesis"
    then have "0 < carriers E cfg (w, gs) i" using busy [of i] b by (auto simp: rows simp del: carriers.simps)
    moreover have "count_list (map (\<lambda>x. Option.bind x (x_pg_uuid E)) (map (\<lambda>t. Some (job_MailID (snd t))) (timers w))) (Some i) = 0"
      using n by (auto simp: count_list_0_iff)
    moreover have "count_list (map ?id (waiting w ?q)) (Some i) = 0" "Some i \<notin> set (map ?id ?ms)"
      using n p [of i] by (auto simp: count_list_0_iff)
    ultimately have "0 < sum_list (map (held E i) gs)"
      by (simp add: pending_def pending_ids_def comp_def)
    then obtain g where g: "g \<in> set gs" "0 < held E i g" by (auto simp only: sum_pos)
    show False
    proof (cases "in_worker g")
      case False
      with g have "0 < sum_list (map (held E i) ?gs)" by (auto simp only: sum_pos set_filter)
      with n show False by simp
    next
      case True
      then obtain d pc where d: "g = Delivering d pc" by (cases g) auto
      with g have h: "holding pc" "?id (snd d) = Some i" by (auto simp: held_def split: if_splits)
      have "unsettled pc" using h(1) by (cases pc) (auto simp: job_over_def elim: holding_job.elims)
      then have "(fst d, ?q, snd d) \<in> set (bk_unacked (broker w))" using g(1) d by (intro taken_unacked [OF c]) simp_all
      then have "Some i \<in> set (map ?id ?ms)" using h(2) by force
      with \<open>Some i \<notin> set (map ?id ?ms)\<close> show False by simp
    qed
  qed
  moreover have "list_all (coherent E) ?gs" using cos by (auto simp: list_all_iff)
  moreover have "concat (map (taken cfg) ?gs) = []" by (induction gs) (auto elim: in_worker.elims split: goro.splits)
  moreover have "row_status i ?w \<noteq> None" if "g \<in> set ?gs" "Option.bind (handed g) (x_pg_uuid E) = Some i" for g i
    using handed that by (auto simp: rows)
  moreover have "bk_unacked (broker ?w) = []" by (simp add: worker_death_def)
  ultimately show ?thesis using good' row' by (auto simp del: carriers.simps)
qed

lemma request_death_keeps:
  assumes inv: "crash_inv E cfg L (w, gs)" and k: "k < length gs" and g: "\<not> in_worker (gs ! k)"
  shows "crash_inv E cfg (L \<union> {i. held E i (gs ! k) = 1}) (w, take k gs @ drop (Suc k) gs)"
proof -
  let ?gs = "take k gs @ drop (Suc k) gs"
  note parts = inv [unfolded crash_inv.simps]
  note c = parts [THEN conjunct1] and handed = parts [THEN conjunct2, THEN conjunct1]
    and busy = parts [THEN conjunct2, THEN conjunct2]
  have sub: "set ?gs \<subseteq> set gs" by (auto dest: in_set_takeD in_set_dropD)
  have sum: "carriers E cfg (w, gs) i = held E i (gs ! k) + carriers E cfg (w, ?gs) i" for i
    using sum_at(1) [OF k, of "held E i"] by simp
  have "taken cfg (gs ! k) = []" using g by (cases "gs ! k") auto
  then have "mset (concat (map (taken cfg) gs)) = mset (concat (map (taken cfg) ?gs))"
    using mset_at(1) [OF k, of "taken cfg"] by simp
  moreover have "row_status i w \<noteq> None" if "0 < carriers E cfg (w, ?gs) i" for i
    using that sum [of i] c by (simp del: carriers.simps)
  ultimately have c': "conc_inv E cfg (w, ?gs)"
    using c sub unfolding conc_inv.simps by (auto simp: list_all_iff simp del: carriers.simps)
  have "i \<in> L \<union> {i. held E i (gs ! k) = 1} \<or> 0 < carriers E cfg (w, ?gs) i"
    if "at_work (row_status i w)" for i
    using busy [rule_format, OF that] sum [of i] by (auto simp: held_def simp del: carriers.simps)
  then show ?thesis
    unfolding crash_inv.simps using c' handed sub by blast
qed

lemma crash_step_keeps:
  assumes "deployed E cfg" and inv: "crash_inv E cfg L c" and step: "conc_step E cfg c c'"
  shows "crash_inv E cfg L c'"
proof -
  obtain w gs w' gs' where c: "c = (w, gs)" "c' = (w', gs')" by (metis surj_pair)
  note parts = inv [unfolded c crash_inv.simps]
  note ci = parts [THEN conjunct1] and handed = parts [THEN conjunct2, THEN conjunct1]
    and busy = parts [THEN conjunct2, THEN conjunct2]
  from conc_step_keeps [OF _ _ ci] step assms(1) have ci': "conc_inv E cfg (w', gs')"
    and st: "\<And>i. mail_step (up E) (row_status i w) (carriers E cfg (w, gs) i) (row_status i w') (carriers E cfg (w', gs') i)"
    by (auto simp: c deployed_def steps_mail_def simp del: carriers.simps conc_inv.simps)
  have "row_status i w' \<noteq> None" if g: "g \<in> set gs'" "Option.bind (handed g) (x_pg_uuid E) = Some i" for g i
  proof -
    have "row_status i w \<noteq> None"
      using conc_step_handed [OF ci step [unfolded c], of g i] g handed by fastforce
    with mail_step_row [OF st] show ?thesis by blast
  qed
  moreover have "i \<in> L \<or> 0 < carriers E cfg (w', gs') i"
    if "at_work (row_status i w')" for i
  proof (cases "i \<in> L")
    case False
    with busy have "at_work (row_status i w) \<longrightarrow> 0 < carriers E cfg (w, gs) i"
      by blast
    moreover have "mail_move (row_status i w) (carriers E cfg (w, gs) i) (row_status i w') (carriers E cfg (w', gs') i)"
      using st [of i] assms(1) by (simp add: mail_step_def deployed_def)
    ultimately have "0 < carriers E cfg (w', gs') i" using mail_move_busy that by (metis (no_types))
    then show ?thesis ..
  qed simp
  ultimately show ?thesis unfolding c crash_inv.simps using ci' by blast
qed

lemma crash_reach_inv: "crash_reach E cfg L c \<Longrightarrow> deployed E cfg \<Longrightarrow> crash_inv E cfg L c"
proof (induction rule: crash_reach.induct)
  case (start w)
  then show ?case using conc_inv_fresh [of cfg w E] by (auto simp: at_work_def fresh_def row_status_def t_find_def)
qed (blast intro: crash_step_keeps worker_death_keeps request_death_keeps)+

section \<open>Cancelling too late\<close>

text \<open>The update of \<open>Cancel\<close> after its check, whatever has become of the row.\<close>

lemma cancel_late_run:
  assumes "up E"
  shows "\<exists>a. run_state (run_calls (cancel_call E cfg ctx s) 2 (Overwriting m)) w
      = (Answered (cancelled_response s), snd (run_state (run_calls (cancel_call E cfg ctx s) 2 (Overwriting m)) w))
    \<and> mails (snd (run_state (run_calls (cancel_call E cfg ctx s) 2 (Overwriting m)) w))
      = t_update (\<lambda>r. mail_ID r = mail_ID m) (\<lambda>r. r\<lparr>mail_Status := MailStatusCancelled, mail_UpdatedAt := a\<rparr>) (mails w)
    \<and> outbox (snd (run_state (run_calls (cancel_call E cfg ctx s) 2 (Overwriting m)) w)) = outbox w"
  using assms by (intro exI [of _ "x_clock E (ticks w)"]) (simp add: eval_nat_numeral mails_Update_up SetStatus_up)

text \<open>
  C20: a cancellation that comes too late is not noticed. \<open>Cancel\<close> reads the row, finds it
  \<open>queued\<close>, and then overwrites the status without a condition. When the worker handles the
  whole delivery in between and sends the mail, the request to the mail service is out, and
  still the answer is 200 and the row ends as \<open>cancelled\<close>, with the time it was sent.
\<close>

theorem late_cancel:
  assumes "up E" and "t_keys_unique mail_ID (mails w)"
    and "run_state (cancel_call E cfg ctx s Finding) w = (Overwriting m, w1)"
    and "handled_sent job (mail_ID m) w1 w2"
    and "run_state (run_calls (cancel_call E cfg ctx s) 2 (Overwriting m)) w2 = (pc, w3)"
  shows "row_status (mail_ID m) w = Some MailStatusQueued
    \<and> (\<exists>req. posts w3 = posts w @ [req] \<and> carries job req)
    \<and> pc = Answered (cancelled_response s)
    \<and> (\<exists>r. t_find mail_ID (mail_ID m) (mails w3) = Some r \<and> mail_Status r = MailStatusCancelled \<and> mail_SentAt r \<noteq> None)"
proof -
  obtain r where f: "run_state (mails_First E (\<lambda>m. id_is E s (mail_ID m)
            \<and> as_string (ctx ''client_id'') = Some (mail_ClientID m))) w = (r, w1)"
    and r: "r = Inr m" "mail_Status m = MailStatusQueued"
    using assms(3) by (auto split: prod.splits sum.splits if_splits)
  then obtain row where row: "row \<in> set (mails w)" "m = loaded row" and w1: "w1 = w\<lparr>ticks := Suc (ticks w)\<rparr>"
    by (auto simp: mails_First_up [OF assms(1)] split: option.splits dest!: t_first_Some)
  then have "t_find mail_ID (mail_ID m) (mails w) = Some row"
    using t_find_mem [OF assms(2) row(1)] by (simp add: loaded_def)
  then have q: "row_status (mail_ID m) w = Some MailStatusQueued"
    using r row(2) by (simp add: row_status_def loaded_def)
  obtain req m' where s: "posts w2 = posts w1 @ [req]" "carries job req"
    "t_find mail_ID (mail_ID m) (mails w2) = Some m'" "mail_SentAt m' \<noteq> None"
    using assms(4) by (auto simp: handled_sent_def)
  obtain a where c: "pc = Answered (cancelled_response s)" "outbox w3 = outbox w2"
    "mails w3 = t_update (\<lambda>r. mail_ID r = mail_ID m) (\<lambda>r. r\<lparr>mail_Status := MailStatusCancelled, mail_UpdatedAt := a\<rparr>) (mails w2)"
    using cancel_late_run [OF assms(1), of cfg ctx s m w2] assms(5) by auto
  have "t_find mail_ID (mail_ID m) (mails w3) = Some (m'\<lparr>mail_Status := MailStatusCancelled, mail_UpdatedAt := a\<rparr>)"
    by (simp add: c(3) mail_rows.find_update s(3))
  moreover have "posts w3 = posts w @ [req]" using s(1) c(2) by (simp add: posts_def w1)
  ultimately show ?thesis using q s c by auto
qed

lemma sample_sending:
  "run_state (send_job sample_ext (worker_consumer sample_ext default_config) sample_job) v
    = (Returns None, v\<lparr>ticks := Suc (ticks v), outbox := outbox v @ [SendGridPost (sendgrid_message sample_job)]\<rparr>)"
proof -
  have "\<not> org_sender sample_ext default_config (job_FromAddress sample_job)"
    using not_org_sample by (simp add: sample_job_def)
  then show ?thesis
    by (simp add: send_job_def sender_service_def default_config_def Load_def
        worker_SendMail_run SendGrid_SendMail_def SendGrid_loadAttachments_def sendgrid_Send_def
        split: option.splits)
qed

lemma sample_handled:
  assumes "mails w = [m]" and "mail_ID m = ''m1''" and "mail_Status m = MailStatusQueued" and "declared ''failed-mails'' w"
  shows "handled_sent sample_job ''m1'' w
    (snd (run_state (handleMessage sample_ext (worker_consumer sample_ext default_config) sample_delivery) w))"
proof -
  let ?r = "run_state (handleMessage sample_ext (worker_consumer sample_ext default_config)
      (0, plain_message ''mail-queue'' sample_job)) w"
  have "row_status ''m1'' (snd ?r) = Some MailStatusSent"
    using assms
    by (simp add: handleMessage_def handle_job_def mails_First_def db_exec_def
        mark_processing_up mark_sent_up sample_sending t_first_def job_row_def id_is_def loaded_def
        row_status_def t_find_def t_update_def)
  moreover have "?r = (fst ?r, snd ?r)" by simp
  note handleMessage_ok [OF sample_up this, of sample_job "''m1''" m]
  ultimately show ?thesis using assms
    by (auto simp: t_keys_unique_def t_find_def handled_retry_def handled_failed_def sample_delivery_def)
qed

theorem late_cancel_witness:
  "\<exists>w w3. posts w = [] \<and> length (posts w3) = 1 \<and> row_status ''m1'' w3 = Some MailStatusCancelled"
proof -
  let ?w = "sample_world\<lparr>mails := [sample_mail]\<rparr>"
  let ?w1 = "?w\<lparr>ticks := Suc (ticks ?w)\<rparr>"
  have m: "mail_ID sample_mail = ''m1''" "mail_Status sample_mail = MailStatusQueued" "mail_ClientID sample_mail = ''app''"
    "loaded sample_mail = sample_mail"
    by (simp_all add: sample_mail_def new_mail_def loaded_def)
  have u: "t_keys_unique mail_ID (mails ?w)" by (simp add: t_keys_unique_def)
  have c: "run_state (cancel_call sample_ext default_config sample_ctx ''m1'' Finding) ?w = (Overwriting sample_mail, ?w1)"
    by (simp add: mails_First_up t_first_def id_is_def m)
  let ?w2 = "snd (run_state (handleMessage sample_ext (worker_consumer sample_ext default_config) sample_delivery) ?w1)"
  have h: "handled_sent sample_job (mail_ID sample_mail) ?w1 ?w2"
    unfolding m(1) by (rule sample_handled [OF _ m(1,2)]) (simp_all add: declared_def sample_broker_def)
  obtain pc w3 where f: "run_state (run_calls (cancel_call sample_ext default_config sample_ctx ''m1'') 2
      (Overwriting sample_mail)) ?w2 = (pc, w3)" by fastforce
  from late_cancel [OF sample_up u c h f] m(1)
  have "\<exists>req. posts w3 = posts ?w @ [req]" "row_status ''m1'' w3 = Some MailStatusCancelled"
    by (auto simp: row_status_def)
  moreover have "posts ?w = []" by (simp add: posts_def)
  ultimately show ?thesis by (metis append_Nil length_Cons list.size(3) One_nat_def)
qed

section \<open>Sent twice\<close>

lemma crash_reach_steps: "(conc_step E cfg)\<^sup>*\<^sup>* c c' \<Longrightarrow> crash_reach E cfg L c \<Longrightarrow> crash_reach E cfg L c'"
  by (induction rule: rtranclp_induct) (auto intro: crash_reach.step)

text \<open>Requests to the mail services are never taken back.\<close>

definition mailed :: "world \<Rightarrow> world \<Rightarrow> bool" where
  "mailed w w' \<longleftrightarrow> (\<exists>reqs. posts w' = posts w @ reqs)"

interpretation mailed: frame_rel mailed
  by unfold_locales (auto simp: mailed_def)

lemma mailed_posts: "posts w' = posts w \<Longrightarrow> mailed w w'"
  by (simp add: mailed_def)

lemma job_call_mailed: "within mailed (job_call E (worker_consumer E cfg) tag job pc)"
proof (cases "pc = Sending")
  case True
  have "mailed w w'" if "run_state (send_job E (worker_consumer E cfg) job) w = (r, w')" for w r w'
  proof -
    from that have "run_state (deliver_job E cfg job) w = (case r of Returns e \<Rightarrow> e | Panics \<Rightarrow> None, w')"
      by (simp add: deliver_job_def)
    from deliver_job_posts [OF this] show ?thesis by (auto simp: mailed_def)
  qed
  with True show ?thesis by (auto simp: within_def split: prod.splits)
next
  case False
  then show ?thesis
    by (cases pc; simp only: job_call.simps; intro frames mailed.rules; simp add: mailed_posts posts_def)
qed

lemma goro_call_mailed: "within mailed (goro_call E cfg g)"
proof -
  have "within mailed (delivery_call E (worker_consumer E cfg) d pc)" for d pc
    by (cases pc; simp only: delivery_call.simps; intro frames mailed.rules job_call_mailed;
        simp add: mailed_posts posts_def)
  moreover have "within mailed (accept_call E cfg m job pc)" for m job pc
    by (cases pc; simp only: accept_call.simps; intro frames mailed.rules; simp add: mailed_posts posts_def)
  moreover have "within mailed (cancel_call E cfg ctx i pc)" for ctx i pc
    by (cases pc; simp only: cancel_call.simps; intro frames mailed.rules; simp add: mailed_posts posts_def)
  ultimately show ?thesis by (cases g) (auto intro!: mailed.rules)
qed

lemma conc_step_mailed: "conc_step E cfg c c' \<Longrightarrow> mailed (fst c) (fst c') \<and> length (snd c) \<le> length (snd c')"
proof (induction rule: conc_step.induct)
  case (run k gs w g w')
  from withinD [OF goro_call_mailed run(2)] show ?case by simp
next
  case (wake k w w' gs)
  have "within mailed (fire_retry E cfg k)"
    unfolding fire_retry_def by (intro frames mailed.rules; simp add: mailed_posts posts_def)
  from withinD [OF this wake(2)] show ?case by simp
next
  case (other w' w gs)
  from arg_cong [OF other, of outbox] show ?case by (simp add: elsewhere_def mailed_posts posts_def)
qed (auto simp: mailed_def posts_def shutdown_begin_def)

lemma run_mailed: "(conc_step E cfg)\<^sup>*\<^sup>* c c' \<Longrightarrow> mailed (fst c) (fst c') \<and> length (snd c) \<le> length (snd c')"
  by (induction rule: rtranclp_induct) (auto simp: mailed.refl intro: mailed.trans dest: conc_step_mailed)

text \<open>
  From the counting to the sending, alone: the cache and the row are marked. The worker looks
  for nothing but \<open>cancelled\<close>.
\<close>

lemma until_sending:
  assumes "up E" and "unmarshal_job (msg_Body (snd d)) = Some job" and "x_pg_uuid E (job_MailID job) = Some i"
    and "t_keys_unique mail_ID (mails w)" and "row_status i w \<noteq> Some MailStatusCancelled"
  obtains w' where
    "run_state (run_calls (goro_call E cfg) 4 (Delivering d Counting)) w = (Delivering d (Working job Sending), w')"
    "posts w' = posts w" "broker w' = broker w" "row_status i w' \<noteq> Some MailStatusCancelled"
proof -
  have "(case t_find mail_ID i (mails w) of None \<Rightarrow> False | Some m \<Rightarrow> mail_Status m = MailStatusCancelled) = False"
    using assms(5) by (auto simp: row_status_def split: option.splits)
  then have "\<exists>w'. run_state (run_calls (goro_call E cfg) 4 (Delivering d Counting)) w = (Delivering d (Working job Sending), w')
      \<and> posts w' = posts w \<and> broker w' = broker w \<and> row_status i w' \<noteq> Some MailStatusCancelled"
    using assms(1-4)
    by (simp add: goro_calls eval_nat_numeral mails_First_up job_row_eq t_first_unique SetStatus_up mails_Update_up
        posts_def loaded_def row_status_def mail_rows.find_update comp_def split: option.splits)
  with that show thesis by blast
qed

lemma received_until_sending:
  assumes "up E" and "unmarshal_job (msg_Body (snd d)) = Some job" and "x_pg_uuid E (job_MailID job) = Some i"
    and "t_keys_unique mail_ID (mails w)" and "row_status i w \<noteq> Some MailStatusCancelled" and "\<not> is_shutdown w"
  obtains w' where
    "(conc_step E cfg)\<^sup>*\<^sup>* (w, gs @ [Delivering d Received]) (w', gs @ [Delivering d (Working job Sending)])"
    "posts w' = posts w" "row_status i w' \<noteq> Some MailStatusCancelled"
proof -
  obtain w' where w': "run_state (run_calls (goro_call E cfg) 4 (Delivering d Counting)) w = (Delivering d (Working job Sending), w')"
    "posts w' = posts w" "row_status i w' \<noteq> Some MailStatusCancelled"
    by (rule until_sending [OF assms(1-5), of cfg])
  have "run_state (run_calls (goro_call E cfg) (Suc 4) (Delivering d Received)) w
      = (Delivering d (Working job Sending), w')"
    using w'(1) assms(6) by (simp only: run_calls_Suc) simp
  from that [OF alone [OF this] w'(2,3)] show thesis .
qed

text \<open>A waiting message is delivered, after those before it.\<close>

lemma redelivered:
  assumes "m \<in> set (waiting w (co_MailQueueName cfg))"
  shows "\<exists>b ds t. (conc_step E cfg)\<^sup>*\<^sup>* (w, gs) (w\<lparr>broker := b\<rparr>, (gs @ ds) @ [Delivering (t, m) Received])"
  using assms
proof (induction "waiting w (co_MailQueueName cfg)" arbitrary: w gs)
  case Nil
  then show ?case by simp
next
  case (Cons m' ms)
  let ?q = "co_MailQueueName cfg"
  have q: "bk_queues (broker w) ?q = Some (m' # ms)"
    using Cons.hyps(2) by (auto simp: waiting_def queue_of_def split: option.splits)
  then obtain d b where d: "deliver ?q (broker w) = Some (d, b)" by (auto simp: deliver_def)
  then have b: "snd d = m'" "bk_queues b ?q = Some ms" using q by (auto simp: deliver_def)
  have s: "conc_step E cfg (w, gs) (w\<lparr>broker := b\<rparr>, gs @ [Delivering d Received])" using d by (rule conc_step.take)
  show ?case
  proof (cases "m = m'")
    case True
    then have "d = (fst d, m)" using b(1) by auto
    with s show ?thesis by (metis append_Nil2 r_into_rtranclp)
  next
    case False
    have "ms = waiting (w\<lparr>broker := b\<rparr>) ?q" using b(2) by (simp add: waiting_def queue_of_def)
    from Cons.hyps(1) [OF this, of "gs @ [Delivering d Received]"] False Cons.prems Cons.hyps(2) this
    obtain b' ds t where "(conc_step E cfg)\<^sup>*\<^sup>* (w\<lparr>broker := b\<rparr>, gs @ [Delivering d Received])
        (w\<lparr>broker := b\<rparr>\<lparr>broker := b'\<rparr>, ((gs @ [Delivering d Received]) @ ds) @ [Delivering (t, m) Received])"
      by (metis set_ConsD)
    from converse_rtranclp_into_rtranclp [of "conc_step E cfg", OF s this] show ?thesis
      by (intro exI [of _ b'] exI [of _ "Delivering d Received # ds"] exI [of _ t]) simp
  qed
qed

text \<open>A sending that succeeds is one more request, and it carries the job.\<close>

lemma sent_carries:
  assumes "run_state (goro_call E cfg (Delivering d (Working job Sending))) w = (Delivering d (Working job Sent_row), w')"
  shows "\<exists>req. carries job req \<and> posts w' = posts w @ [req]"
proof -
  obtain r v where r: "run_state (deliver_job E cfg job) w = (r, v)" by fastforce
  with assms have "run_state (deliver_job E cfg job) w = (None, w')"
    by (auto simp: deliver_job_run split: option.splits if_splits)
  from worker.success [OF this] show ?thesis by blast
qed

lemma sent_keeps_queues:
  assumes "run_state (goro_call E cfg (Delivering d (Working job Sending))) w = (g, w')"
  shows "broker w' = broker w"
proof -
  obtain r v where r: "run_state (deliver_job E cfg job) w = (r, v)" by fastforce
  with assms worker.store_unchanged(5) [OF r] show ?thesis
    by (auto simp: deliver_job_run split: option.splits if_splits)
qed

text \<open>A mail is accepted, and the worker takes its job.\<close>

abbreviation sample_accept :: "mail_job \<Rightarrow> accept_pc \<Rightarrow> goro" where
  "sample_accept job \<equiv> Accepting sample_row job"

abbreviation sample_msg :: "mail_job \<Rightarrow> message" where
  "sample_msg job \<equiv> plain_message ''mail-queue'' job"

lemma sample_empty_again:
  "sample_broker\<lparr>bk_queues := (bk_queues sample_broker)(''mail-queue'' \<mapsto> []), bk_unacked := us, bk_next_tag := n\<rparr>
     = sample_broker\<lparr>bk_unacked := us, bk_next_tag := n\<rparr>"
proof -
  have "(bk_queues sample_broker)(''mail-queue'' \<mapsto> []) = bk_queues sample_broker"
    by (auto simp: sample_broker_def fun_eq_iff)
  then show ?thesis by simp
qed

lemma sample_queues:
  "bk_queues sample_broker ''mail-queue'' = Some []" "bk_unacked sample_broker = []" "bk_next_tag sample_broker = 0"
  by (simp_all add: sample_broker_def)

lemma sample_taken:
  assumes "up E" and "job_MailID job = x_uuid_string E ''m1''"
  obtains w where
    "(conc_step E default_config)\<^sup>*\<^sup>* (sample_world, [])
       (w, [sample_accept job Accepted, Delivering (0, sample_msg job) Received])"
    and "broker w = sample_broker\<lparr>bk_unacked := [(0, ''mail-queue'', sample_msg job)], bk_next_tag := 1\<rparr>"
    and "posts w = []" and "timers w = []" and "\<not> is_shutdown w" and "active_jobs w = 0"
    and "mails w = [stored_mail (x_clock E 0) sample_row]"
proof -
  let ?step = "conc_step E default_config"
  have row: "mail_ID sample_row = ''m1''" "mail_Status sample_row = MailStatusQueued" by (simp_all add: sample_row_def)
  have E: "x_db E n = None" "x_mq E n = None" for n using assms(1) by (simp_all add: up_def)
  have a: "?step (sample_world, []) (sample_world, [] @ [sample_accept job Creating])"
    by (rule conc_step.arrive) (simp_all add: row assms(2))
  let ?b = "sample_broker\<lparr>bk_queues := (bk_queues sample_broker)(''mail-queue'' \<mapsto> [sample_msg job])\<rparr>"
  have b: "publish_to [] (sample_msg job) sample_broker = ?b"
    by (simp add: publish_to_def plain_message_def enqueue_def sample_broker_def)
  have "\<exists>w1. run_state (run_calls (goro_call E default_config) 3 (sample_accept job Creating)) sample_world
        = (sample_accept job Accepted, w1)
      \<and> broker w1 = ?b \<and> posts w1 = [] \<and> timers w1 = [] \<and> \<not> is_shutdown w1 \<and> active_jobs w1 = 0
      \<and> mails w1 = [stored_mail (x_clock E 0) sample_row]"
    using assms(1)
    by (simp add: goro_calls eval_nat_numeral mails_Create_run t_find_def t_insert_def PublishMail_run SetStatus_up b posts_def E)
  then obtain w1 where c: "run_state (run_calls (goro_call E default_config) 3 (sample_accept job Creating)) sample_world
      = (sample_accept job Accepted, w1)"
    and w1: "broker w1 = ?b" "posts w1 = []" "timers w1 = []" "\<not> is_shutdown w1" "active_jobs w1 = 0"
      "mails w1 = [stored_mail (x_clock E 0) sample_row]"
    by blast
  let ?b1 = "sample_broker\<lparr>bk_unacked := [(0, ''mail-queue'', sample_msg job)], bk_next_tag := 1\<rparr>"
  have "deliver ''mail-queue'' (broker w1) = Some ((0, sample_msg job), ?b1)"
    using sample_empty_again by (simp add: w1 deliver_def sample_queues)
  then have d: "?step (w1, [sample_accept job Accepted])
      (w1\<lparr>broker := ?b1\<rparr>, [sample_accept job Accepted] @ [Delivering (0, sample_msg job) Received])"
    by (intro conc_step.take) simp
  have "?step\<^sup>*\<^sup>* (sample_world, []) (w1, [sample_accept job Accepted])"
    using converse_rtranclp_into_rtranclp [of ?step, OF a alone [OF c]] by simp
  with d have "?step\<^sup>*\<^sup>* (sample_world, [])
      (w1\<lparr>broker := ?b1\<rparr>, [sample_accept job Accepted, Delivering (0, sample_msg job) Received])"
    by (simp add: rtranclp.rtrancl_into_rtrancl)
  then show thesis by (rule that) (use w1 in \<open>simp_all add: posts_def\<close>)
qed

text \<open>
  C21: a crash of the worker can send a mail again. The worker acknowledges a delivery only
  after the mail went out and the row and the cache say \<open>sent\<close>. In whatever reachable state the
  mail went out, wherever the worker ends before the acknowledgement, and whatever other
  goroutines did meanwhile: unless the mail was cancelled there is a run of the next worker in
  which the same message is delivered, the worker, which checks for \<open>cancelled\<close> only, comes to
  the sending of the same job, and, if the service takes it once more, a second request that
  carries the job has left. No call need fail for that.
\<close>

theorem sent_twice:
  assumes "deployed E cfg" and "crash_reach E cfg L (w, gs)"
    and "k < length gs" and "gs ! k = Delivering d (Working job Sending)"
    and "run_state (goro_call E cfg (gs ! k)) w = (Delivering d (Working job Sent_row), w1)"
    and "(conc_step E cfg)\<^sup>*\<^sup>* (w1, gs[k := Delivering d (Working job Sent_row)]) (w2, gs2)"
    and "gs2 ! k = Delivering d (Working job pc)" and "pc \<in> {Sent_row, Sent_cache, Settling}"
    and "x_pg_uuid E (job_MailID job) = Some i" and "row_status i w2 \<noteq> Some MailStatusCancelled"
  shows "\<exists>req reqs w3 gs3 t. carries job req \<and> posts w2 = posts w @ req # reqs
    \<and> (conc_step E cfg)\<^sup>*\<^sup>* (worker_death w2, filter (\<lambda>g. \<not> in_worker g) gs2)
        (w3, gs3 @ [Delivering (t, snd d) (Working job Sending)])
    \<and> posts w3 = posts w2
    \<and> (\<forall>w4. run_state (goro_call E cfg (Delivering (t, snd d) (Working job Sending))) w3
          = (Delivering (t, snd d) (Working job Sent_row), w4)
        \<longrightarrow> (\<exists>req'. carries job req' \<and> posts w4 = posts w2 @ [req']))"
proof -
  let ?q = "co_MailQueueName cfg" and ?v = "worker_death w2"
  obtain req where req: "carries job req" "posts w1 = posts w @ [req]" using sent_carries assms(4,5) by metis
  have m: "mailed w1 w2" "k < length gs2" using run_mailed [OF assms(6)] assms(3) by simp_all
  have "conc_step E cfg (w, gs) (w1, gs[k := Delivering d (Working job Sent_row)])"
    using assms(3,5) by (rule conc_step.run)
  then have "crash_reach E cfg L (w2, gs2)"
    using crash_reach_steps [OF assms(6)] crash_reach.step [OF assms(2)] by blast
  from crash_reach_inv [OF this assms(1)] have inv: "conc_inv E cfg (w2, gs2)" by simp
  have up: "up E" using assms(1) by (simp add: deployed_def)
  have g: "Delivering d (Working job pc) \<in> set gs2" using m(2) assms(7) by (metis nth_mem)
  with inv have job: "unmarshal_job (msg_Body (snd d)) = Some job" by (auto simp: list_all_iff)
  have "(fst d, ?q, snd d) \<in> set (bk_unacked (broker w2))"
    using taken_unacked [OF inv g] assms(8) by (auto simp: job_over_def)
  from requeued_waits [OF inv _ this, of ?v] have "snd d \<in> set (waiting ?v ?q)" by (simp add: worker_death_def)
  from redelivered [OF this, of E "filter (\<lambda>g. \<not> in_worker g) gs2"] obtain b ds t
    where t: "(conc_step E cfg)\<^sup>*\<^sup>* (?v, filter (\<lambda>g. \<not> in_worker g) gs2)
      (?v\<lparr>broker := b\<rparr>, (filter (\<lambda>g. \<not> in_worker g) gs2 @ ds) @ [Delivering (t, snd d) Received])" by blast
  have "t_keys_unique mail_ID (mails (?v\<lparr>broker := b\<rparr>))" using inv by (simp add: worker_death_def good_world_def)
  moreover have "row_status i (?v\<lparr>broker := b\<rparr>) \<noteq> Some MailStatusCancelled"
    using assms(10) by (simp add: row_status_def worker_death_def)
  moreover have "\<not> is_shutdown (?v\<lparr>broker := b\<rparr>)" by (simp add: worker_death_def)
  ultimately obtain w3 where c: "(conc_step E cfg)\<^sup>*\<^sup>*
      (?v\<lparr>broker := b\<rparr>, (filter (\<lambda>g. \<not> in_worker g) gs2 @ ds) @ [Delivering (t, snd d) Received])
      (w3, (filter (\<lambda>g. \<not> in_worker g) gs2 @ ds) @ [Delivering (t, snd d) (Working job Sending)])"
    and p: "posts w3 = posts (?v\<lparr>broker := b\<rparr>)"
    by (rule received_until_sending [OF up _ assms(9), of "(t, snd d)", unfolded snd_conv, OF job])
  note rtranclp_trans [OF t c]
  moreover have "posts w3 = posts w2" using p by (simp add: posts_def worker_death_def)
  moreover from this have "\<exists>req'. carries job req' \<and> posts w4 = posts w2 @ [req']"
    if "run_state (goro_call E cfg (Delivering (t, snd d) (Working job Sending))) w3
      = (Delivering (t, snd d) (Working job Sent_row), w4)" for w4
    using sent_carries [OF that] by simp
  moreover obtain reqs where "posts w2 = posts w @ req # reqs" using m(1) req(2) by (auto simp: mailed_def)
  ultimately show ?thesis using req(1) by blast
qed

text \<open>The sample job under an identifier that the services read.\<close>

lemma deployed_sending:
  "run_state (send_job deployed_ext (worker_consumer deployed_ext default_config) between_job) v
    = (Returns None, v\<lparr>ticks := Suc (ticks v), outbox := outbox v @ [SendGridPost (sendgrid_message between_job)]\<rparr>)"
proof -
  have "\<not> org_sender deployed_ext default_config (job_FromAddress between_job)"
    using not_org_sample by (simp add: sample_job_def between_job_def org_sender_def deployed_ext_def)
  then show ?thesis
    by (simp add: send_job_def sender_service_def default_config_def Load_def
        worker_SendMail_run SendGrid_SendMail_def SendGrid_loadAttachments_def sendgrid_Send_def
        split: option.splits) (simp add: between_job_def deployed_ext_def)
qed

lemma deployed_up: "up deployed_ext"
  using deployed_sample by (simp add: deployed_def)

lemma between_id: "job_MailID between_job = x_uuid_string deployed_ext ''m1''"
  "x_pg_uuid deployed_ext (job_MailID between_job) = Some ''m1''"
  by (simp_all add: between_job_def deployed_ext_def del: b64_encode.simps)

lemma between_decoded: "unmarshal_job (msg_Body (sample_msg between_job)) = Some between_job"
proof -
  have "valid_utf8 (job_MailID between_job)" by (simp add: between_job_def b64_encode_ascii del: b64_encode.simps)
  then have "valid_job between_job" using sample_job_valid by (simp add: valid_job_def between_job_def)
  then show ?thesis by (simp add: plain_message_def unmarshal_marshal_job)
qed

lemma deployed_at_sending:
  obtains w where
    "crash_reach deployed_ext default_config {} (w, [sample_accept between_job Accepted,
       Delivering (0, sample_msg between_job) (Working between_job Sending)])"
    "posts w = []" "row_status ''m1'' w \<noteq> Some MailStatusCancelled"
proof -
  let ?acc = "sample_accept between_job Accepted" and ?d = "(0::nat, sample_msg between_job)"
  obtain w where t: "(conc_step deployed_ext default_config)\<^sup>*\<^sup>* (sample_world, []) (w, [?acc, Delivering ?d Received])"
    and w: "posts w = []" "\<not> is_shutdown w" "mails w = [stored_mail (x_clock deployed_ext 0) sample_row]"
    by (rule sample_taken [OF deployed_up between_id(1)])
  have "t_keys_unique mail_ID (mails w)" "row_status ''m1'' w \<noteq> Some MailStatusCancelled"
    by (simp_all add: w(3) t_keys_unique_def row_status_def t_find_def stored_mail_def sample_row_def)
  then obtain w0 where c: "(conc_step deployed_ext default_config)\<^sup>*\<^sup>* (w, [?acc] @ [Delivering ?d Received])
      (w0, [?acc] @ [Delivering ?d (Working between_job Sending)])"
    and w0: "posts w0 = posts w" "row_status ''m1'' w0 \<noteq> Some MailStatusCancelled"
    by (rule received_until_sending [OF deployed_up _ between_id(2) _ _ w(2), of ?d, unfolded snd_conv, OF between_decoded])
  have "crash_reach deployed_ext default_config {} (w0, [?acc, Delivering ?d (Working between_job Sending)])"
    using crash_reach_steps [OF c] crash_reach_steps [OF t crash_reach.start [OF sample_fresh]]
    by (simp only: append_Cons append_Nil)
  from that [OF this] w0 w(1) show thesis by simp
qed

theorem sent_twice_witness:
  "\<exists>L w gs. crash_reach deployed_ext default_config L (w, gs) \<and> length (posts w) = 2 \<and> list_all (carries between_job) (posts w)"
proof -
  let ?E = deployed_ext and ?cfg = default_config and ?acc = "sample_accept between_job Accepted"
  let ?d = "(0::nat, sample_msg between_job)"
  obtain w0 where r: "crash_reach ?E ?cfg {} (w0, [?acc, Delivering ?d (Working between_job Sending)])"
    and w0: "posts w0 = []" "row_status ''m1'' w0 \<noteq> Some MailStatusCancelled" by (rule deployed_at_sending)
  let ?post = "\<lambda>v. v\<lparr>ticks := Suc (ticks v), outbox := outbox v @ [SendGridPost (sendgrid_message between_job)]\<rparr>"
  have send: "run_state (goro_call ?E ?cfg (Delivering e (Working between_job Sending))) v
      = (Delivering e (Working between_job Sent_row), ?post v)" for e v
    by (simp add: deployed_sending)
  have row: "row_status ''m1'' (?post w0) \<noteq> Some MailStatusCancelled"
    using w0(2) by (simp add: row_status_def)
  let ?old = "[?acc, Delivering ?d (Working between_job Sending)]" and ?gs = "[?acc, Delivering ?d (Working between_job Sent_row)]"
  have k: "1 < length ?old" "?old ! 1 = Delivering ?d (Working between_job Sending)"
    "?old[1 := Delivering ?d (Working between_job Sent_row)] = ?gs" "?gs ! 1 = Delivering ?d (Working between_job Sent_row)"
    by simp_all
  have "run_state (goro_call ?E ?cfg (?old ! 1)) w0 = (Delivering ?d (Working between_job Sent_row), ?post w0)"
    unfolding k(2) by (rule send)
  note sent_twice [OF deployed_sample r k(1,2) this _ k(4) _ between_id(2) row, unfolded k(3), OF rtranclp.rtrancl_refl]
  then obtain req reqs w3 gs3 t where p: "carries between_job req" "posts (?post w0) = posts w0 @ req # reqs"
    and s: "(conc_step ?E ?cfg)\<^sup>*\<^sup>* (worker_death (?post w0), filter (\<lambda>g. \<not> in_worker g) ?gs)
        (w3, gs3 @ [Delivering (t, snd ?d) (Working between_job Sending)])"
    and again: "\<And>w4. run_state (goro_call ?E ?cfg (Delivering (t, snd ?d) (Working between_job Sending))) w3
          = (Delivering (t, snd ?d) (Working between_job Sent_row), w4)
        \<Longrightarrow> \<exists>req'. carries between_job req' \<and> posts w4 = posts (?post w0) @ [req']"
    by (metis insertI1)
  obtain req' where q: "carries between_job req'" "posts (?post w3) = posts (?post w0) @ [req']"
    using again [OF send] by blast
  have "posts (?post w0) = [SendGridPost (sendgrid_message between_job)]" using w0(1) by (simp add: posts_def)
  with p have "posts (?post w0) = [req]" using w0(1) by simp
  with q p(1) have two: "length (posts (?post w3)) = 2 \<and> list_all (carries between_job) (posts (?post w3))" by simp
  have "crash_reach ?E ?cfg {} (?post w0, ?gs)"
    using crash_reach.step [OF r conc_step.run [OF k(1), unfolded k(2), OF send]] unfolding k(3) .
  note l = crash_reach_steps [OF s crash_reach.worker_dies [OF this]]
  have k3: "length gs3 < length (gs3 @ [x])" "(gs3 @ [x]) ! length gs3 = x" for x :: goro by simp_all
  note crash_reach.step [OF l conc_step.run [OF k3(1), unfolded k3(2), OF send]]
  with two show ?thesis by blast
qed

section \<open>Properties\<close>

lemma over_holds_nothing: "goro_over g \<Longrightarrow> held E i g = 0"
proof (cases g)
  case (Accepting m job pc)
  then show "goro_over g \<Longrightarrow> held E i g = 0" by (cases pc) (simp_all add: held_def)
qed (auto simp: held_def delivery_over_def split: delivery_pc.splits)

text \<open>
  The system of whole steps is a special case. Every state it reaches is reached by
  goroutines that take turns between calls, each of them over at the end; then nobody holds a
  job, and the carriers of a mail are the jobs in the queue and in the timers.
\<close>

lemma whole_steps_by_calls:
  assumes "sys_reach E cfg w"
  shows "\<exists>gs. conc_reach E cfg (w, gs) \<and> list_all goro_over gs
    \<and> (\<forall>i. carriers E cfg (w, gs) i = pending E cfg w i)"
proof -
  obtain gs where gs: "conc_reach E cfg (w, gs)" "list_all goro_over gs"
    using reach_by_calls [OF assms] by blast
  then have "sum_list (map (held E i) gs) = 0" for i
    using over_holds_nothing by (simp add: list_all_iff)
  with gs show ?thesis by (intro exI [of _ gs]) simp
qed

lemma whole_steps_by_calls_witness:
  "\<exists>w gs. conc_reach deployed_ext default_config (w, gs) \<and> list_all goro_over gs \<and> length (mails w) = 1"
proof -
  obtain w m where w: "sys_reach deployed_ext default_config w" "mails w = [m]" by (rule deployed_received)
  from whole_steps_by_calls [OF w(1)] w(2) show ?thesis by (metis One_nat_def length_Cons list.size(3))
qed

text \<open>
  C5: what crashes can lose, when the services answer. Whenever the worker ends, between any
  two calls of any of its goroutines, and wherever requests are cut off: a mail that is queued
  or processing still has a carrier, unless its retry timer was gone with the worker or its
  request ended after the row and before the job. Deliveries in the worker's hands are not lost.
\<close>

theorem crash_loses_only:
  assumes "deployed E cfg" and "crash_reach E cfg L (w, gs)"
    and "row_status i w \<in> {Some MailStatusQueued, Some MailStatusProcessing}" and "i \<notin> L"
  shows "0 < carriers E cfg (w, gs) i"
proof -
  note parts = crash_reach_inv [OF assms(2,1), unfolded crash_inv.simps]
  have "at_work (row_status i w)" using assms(3) by (simp add: at_work_def)
  with parts [THEN conjunct2, THEN conjunct2, rule_format] assms(4) show ?thesis by metis
qed

theorem crash_loses_only_witness:
  "\<exists>w d gs i. conc_reach deployed_ext default_config (w, gs @ [Delivering d Received])
     \<and> waiting w ''mail-queue'' = []
     \<and> 0 < carriers deployed_ext default_config (worker_death w, filter (\<lambda>g. \<not> in_worker g) gs) i"
proof -
  obtain w m ms where w: "sys_reach deployed_ext default_config w" "mails w = [m]" "mail_Status m = MailStatusQueued"
    "waiting w ''mail-queue'' = [ms]" "timers w = []" by (rule deployed_received)
  obtain gs where gs: "conc_reach deployed_ext default_config (w, gs)" using reach_by_calls [OF w(1)] by blast
  obtain d b where d: "deliver ''mail-queue'' (broker w) = Some (d, b)"
    using w(4) by (auto simp: deliver_def waiting_def queue_of_def split: option.splits list.splits)
  then have "conc_step deployed_ext default_config (w, gs) (w\<lparr>broker := b\<rparr>, gs @ [Delivering d Received])"
    by (intro conc_step.take) simp
  with gs have r: "conc_reach deployed_ext default_config (w\<lparr>broker := b\<rparr>, gs @ [Delivering d Received])"
    by (rule conc_reach.step)
  have "crash_reach E cfg {} c" if "conc_reach E cfg c" for E cfg c
    using that by induction (auto intro: crash_reach.intros)
  from crash_reach.worker_dies [OF this [OF r]] w(5)
  have c: "crash_reach deployed_ext default_config {} (worker_death (w\<lparr>broker := b\<rparr>), filter (\<lambda>g. \<not> in_worker g) gs)"
    by simp
  have "row_status (mail_ID m) (worker_death (w\<lparr>broker := b\<rparr>)) = Some MailStatusQueued"
    using w(2,3) by (simp add: row_status_def worker_death_def t_find_def)
  then have "0 < carriers deployed_ext default_config
      (worker_death (w\<lparr>broker := b\<rparr>), filter (\<lambda>g. \<not> in_worker g) gs) (mail_ID m)"
    by (intro crash_loses_only [OF deployed_sample c]) simp_all
  moreover obtain ms' where "bk_queues (broker w) ''mail-queue'' = Some (snd d # ms')" "bk_queues b = (bk_queues (broker w))(''mail-queue'' \<mapsto> ms')"
    using d by (rule deliver_some)
  then have "waiting (w\<lparr>broker := b\<rparr>) ''mail-queue'' = []" using w(4) by (simp add: waiting_def queue_of_def)
  ultimately show ?thesis using r by blast
qed
end
