(* ===== verification/Startup.thy ===== *)
theory Startup
  imports System
begin

text \<open>
  The three \<open>main\<close> functions of \<open>cmd/\<close> up to the point where each serves: a failed
  connection ends the process (\<open>log.Fatalf\<close>), a failed administrator token is only logged.
  Opening the database is one call; that \<open>db.DB()\<close> fails afterwards is not modelled, nor is
  the connection pool; how the processes end is the subject of \<open>Shutdown\<close>. The result is what the
  process was set up with: the key of the sender settings, the SMTP settings, or the number of
  goroutines that consume.
\<close>

section \<open>Starting the processes\<close>

definition initDatabase :: "ext \<Rightarrow> (world, go_error option) state" where
  "initDatabase E = db_Ping E"

definition api_main :: "ext \<Rightarrow> config \<Rightarrow> (world, go_error + bytes option) state" where
  "api_main E cfg = do {
     err \<leftarrow> initDatabase E;
     case err of Some e \<Rightarrow> ret (Inl e) | None \<Rightarrow> do {
     ignore (InitializeAdminToken E cfg);
     r \<leftarrow> NewKeyDBService E;
     case r of Inl e \<Rightarrow> ret (Inl e) | Inr _ \<Rightarrow> do {
     r \<leftarrow> NewQueueService E cfg;
     case r of Inl e \<Rightarrow> ret (Inl e) | Inr _ \<Rightarrow> ret (Inr (sender_service cfg)) } } }"

text \<open>The receiver also migrates the two tables it writes.\<close>

definition initDatabase_receiver :: "ext \<Rightarrow> (world, go_error option) state" where
  "initDatabase_receiver E = do {
     err \<leftarrow> db_Ping E;
     case err of Some e \<Rightarrow> ret (Some e) | None \<Rightarrow> db_Ping E }"

definition receiver_main :: "ext \<Rightarrow> config \<Rightarrow> (world, go_error + smtp_server) state" where
  "receiver_main E cfg = do {
     err \<leftarrow> initDatabase_receiver E;
     case err of Some e \<Rightarrow> ret (Inl e) | None \<Rightarrow> do {
     r \<leftarrow> NewKeyDBService E;
     case r of Inl e \<Rightarrow> ret (Inl e) | Inr _ \<Rightarrow> do {
     r \<leftarrow> NewQueueService E cfg;
     case r of Inl e \<Rightarrow> ret (Inl e) | Inr _ \<Rightarrow> ret (Inr (server_settings cfg)) } } }"

definition worker_main :: "ext \<Rightarrow> config \<Rightarrow> (world, go_error + nat) state" where
  "worker_main E cfg = do {
     err \<leftarrow> initDatabase E;
     case err of Some e \<Rightarrow> ret (Inl e) | None \<Rightarrow> do {
     r \<leftarrow> NewKeyDBService E;
     case r of Inl e \<Rightarrow> ret (Inl e) | Inr _ \<Rightarrow> do {
     modify (\<lambda>w. w\<lparr>oauth := NewOAuthService (co_MicrosoftTenantID cfg) (co_MicrosoftClientID cfg)
       (co_MicrosoftClientSecret cfg)\<rparr>);
     Start E (worker_consumer E cfg) } } }"

datatype process = API | Receiver | Consumer

fun start_process :: "ext \<Rightarrow> config \<Rightarrow> process \<Rightarrow> (world, go_error + unit) state" where
  "start_process E cfg API = do { r \<leftarrow> api_main E cfg; ret (map_sum id (\<lambda>_. ()) r) }"
| "start_process E cfg Receiver = do { r \<leftarrow> receiver_main E cfg; ret (map_sum id (\<lambda>_. ()) r) }"
| "start_process E cfg Consumer = do { r \<leftarrow> worker_main E cfg; ret (map_sum id (\<lambda>_. ()) r) }"

section \<open>Declaring\<close>

lemma queue_of_declare [simp]: "queue_of (queue_declare q d b) k = queue_of b k"
  by (auto simp: queue_of_def queue_declare_def split: option.splits)

lemma queue_of_exchange [simp]: "queue_of (exchange_declare x b) k = queue_of b k"
  by (simp add: queue_of_def)

lemma queue_of_bind [simp]: "queue_of (queue_bind q key x b) k = queue_of b k"
  by (simp add: queue_of_def)

lemma bk_unacked_declare [simp]:
  "bk_unacked (queue_declare q d b) = bk_unacked b" "bk_unacked (exchange_declare x b) = bk_unacked b"
  "bk_unacked (queue_bind q key x b) = bk_unacked b"
  by (simp_all add: queue_declare_def exchange_declare_def queue_bind_def split: option.splits)

text \<open>
  What holds while the processes start: no mail, no job, nothing out for delivery, and of the
  topology only what the processes declare.
\<close>

definition starting :: "config \<Rightarrow> world \<Rightarrow> bool" where
  "starting cfg w \<longleftrightarrow> mails w = [] \<and> timers w = [] \<and> bk_unacked (broker w) = []
     \<and> waiting w (co_MailQueueName cfg) = []
     \<and> (bk_queues (broker w) (co_MailQueueName cfg) \<noteq> None \<longrightarrow> bk_dlx (broker w) (co_MailQueueName cfg) = Some ''dlx'')
     \<and> set (bk_bindings (broker w)) \<subseteq> {(''dlx'', ''failed'', co_FailedQueueName cfg)}"

lemma starting_books:
  "mails w' = mails w \<Longrightarrow> broker w' = broker w \<Longrightarrow> timers w' = timers w \<Longrightarrow> starting cfg w' = starting cfg w"
  by (simp add: starting_def waiting_def)

text \<open>The mail queue is not also the retry queue or the failed queue.\<close>

definition queue_names_differ :: "config \<Rightarrow> bool" where
  "queue_names_differ cfg \<longleftrightarrow> co_MailQueueName cfg \<notin> {co_RetryQueueName cfg, co_FailedQueueName cfg}"

lemma starting_declares:
  assumes "queue_names_differ cfg" and "starting cfg w"
  shows "starting cfg (on_broker (queue_declare (co_MailQueueName cfg) (Some ''dlx'')) w)"
    "starting cfg (on_broker (queue_declare (co_RetryQueueName cfg) None) w)"
    "starting cfg (on_broker (queue_declare (co_FailedQueueName cfg) None) w)"
    "starting cfg (on_broker (exchange_declare ''dlx'') w)"
    "starting cfg (on_broker (queue_bind (co_FailedQueueName cfg) ''failed'' ''dlx'') w)"
  using assms by (auto simp: starting_def on_broker_def waiting_def queue_names_differ_def queue_declare_dlx)

lemma starting_simple:
  "starting cfg (w\<lparr>ticks := n\<rparr>) = starting cfg w" "starting cfg (w\<lparr>ticks := n, tokens := ts\<rparr>) = starting cfg w"
  "starting cfg (w\<lparr>mq_conns := k\<rparr>) = starting cfg w" "starting cfg (w\<lparr>mq_chans := k\<rparr>) = starting cfg w"
  "starting cfg (w\<lparr>oauth := os\<rparr>) = starting cfg w"
  "starting cfg (w\<lparr>ticks := n, mq_conns := k\<rparr>) = starting cfg w"
  "starting cfg (w\<lparr>ticks := n, mq_chans := k\<rparr>) = starting cfg w"
  by (rule starting_books; simp)+

text \<open>A frame that the declarations, the token table and the counters respect holds for every process.\<close>

lemma main_within:
  assumes R: "frame_rel R" and t: "ticked R"
    and w: "\<And>w n ts. R w (w\<lparr>ticks := n, tokens := ts\<rparr>)" "\<And>w k. R w (w\<lparr>mq_conns := k\<rparr>)"
      "\<And>w k. R w (w\<lparr>mq_chans := k\<rparr>)" "\<And>w os. R w (w\<lparr>oauth := os\<rparr>)"
    and c: "\<And>w n k. R w (w\<lparr>ticks := n, mq_conns := k\<rparr>)" "\<And>w n k. R w (w\<lparr>ticks := n, mq_chans := k\<rparr>)"
    and d: "\<And>w n. R w (on_broker (queue_declare (co_MailQueueName cfg) (Some ''dlx'')) (w\<lparr>ticks := n\<rparr>))"
      "\<And>w n. R w (on_broker (queue_declare (co_RetryQueueName cfg) None) (w\<lparr>ticks := n\<rparr>))"
      "\<And>w n. R w (on_broker (queue_declare (co_FailedQueueName cfg) None) (w\<lparr>ticks := n\<rparr>))"
      "\<And>w n. R w (on_broker (exchange_declare ''dlx'') (w\<lparr>ticks := n\<rparr>))"
      "\<And>w n. R w (on_broker (queue_bind (co_FailedQueueName cfg) ''failed'' ''dlx'') (w\<lparr>ticks := n\<rparr>))"
  shows "within R (start_process E cfg p)"
proof (cases p)
  case API
  show ?thesis
    unfolding API start_process.simps api_main_def initDatabase_def InitializeAdminToken_def createNewToken_def
      regenerateToken_def generateJWTToken_def NewKeyDBService_def NewQueueService_def declareQueues_def
      close_conn_def close_channel_def
    by (intro frames frame_rel.rules [OF R]) (rule w c d t [rule_format] t | simp add: w c)+
next
  case Receiver
  show ?thesis
    unfolding Receiver start_process.simps receiver_main_def initDatabase_receiver_def
      NewKeyDBService_def NewQueueService_def declareQueues_def close_conn_def close_channel_def
    by (intro frames frame_rel.rules [OF R]) (rule w c d t [rule_format] t | simp add: w c)+
next
  case Consumer
  show ?thesis
    unfolding Consumer start_process.simps worker_main_def initDatabase_def NewKeyDBService_def Start_def
      worker_consumer_fields
    by (intro frames frame_rel.rules [OF R]) (rule w c d t [rule_format] t | simp add: w c)+
qed

lemma main_keeps_starting:
  assumes "queue_names_differ cfg"
  shows "within (kept (starting cfg)) (start_process E cfg p)"
  by (rule main_within [OF kept.frame_rel_axioms])
    (unfold kept_def, (intro allI impI, simp only: starting_simple starting_declares [OF assms])+)

lemma queue_declare_again: "bk_queues b q \<noteq> None \<Longrightarrow> queue_declare q d b = b"
  by (auto simp: queue_declare_def)

text \<open>The queues once declared stay declared: no process that starts undoes the topology.\<close>

lemma topology_declares:
  assumes "topology cfg (broker w)"
  shows "topology cfg (broker (on_broker (queue_declare (co_MailQueueName cfg) d) w))"
    "topology cfg (broker (on_broker (queue_declare (co_RetryQueueName cfg) d) w))"
    "topology cfg (broker (on_broker (queue_declare (co_FailedQueueName cfg) d) w))"
    "topology cfg (broker (on_broker (exchange_declare ''dlx'') w))"
    "topology cfg (broker (on_broker (queue_bind (co_FailedQueueName cfg) ''failed'' ''dlx'') w))"
proof -
  let ?b = "broker w"
  have q: "queue_declare (co_MailQueueName cfg) d ?b = ?b" "queue_declare (co_RetryQueueName cfg) d ?b = ?b"
    "queue_declare (co_FailedQueueName cfg) d ?b = ?b"
    using assms unfolding topology_def by (blast intro: queue_declare_again)+
  have "queue_bind (co_FailedQueueName cfg) ''failed'' ''dlx'' ?b = ?b"
    using assms unfolding topology_def queue_bind_def by (simp only: insertI1 if_True)
  moreover have "topology cfg (exchange_declare ''dlx'' ?b)"
    using assms unfolding topology_def by (simp only: declare_fields) (simp add: exchange_declare_def)
  ultimately show "topology cfg (broker (on_broker (queue_declare (co_MailQueueName cfg) d) w))"
    "topology cfg (broker (on_broker (queue_declare (co_RetryQueueName cfg) d) w))"
    "topology cfg (broker (on_broker (queue_declare (co_FailedQueueName cfg) d) w))"
    "topology cfg (broker (on_broker (exchange_declare ''dlx'') w))"
    "topology cfg (broker (on_broker (queue_bind (co_FailedQueueName cfg) ''failed'' ''dlx'') w))"
    using assms q by (simp_all add: on_broker_def)
qed

abbreviation wired :: "config \<Rightarrow> world \<Rightarrow> bool" where
  "wired cfg \<equiv> \<lambda>w. topology cfg (broker w)"

lemma main_keeps_topology: "within (kept (wired cfg)) (start_process E cfg p)"
  by (rule main_within [OF kept.frame_rel_axioms])
    (unfold kept_def, (intro allI impI, (rule topology_declares)?, simp)+)

lemma declareQueues_wires:
  assumes "queue_names_differ cfg" and "starting cfg w" and "run_state (declareQueues E cfg) w = (None, w')"
  shows "topology cfg (broker w')"
  using assms
  by (simp add: declareQueues_def mq_call_run on_broker_def topology_def queue_declare_dlx starting_def
      queue_names_differ_def split: option.splits if_splits prod.splits)
     (auto simp: queue_declare_dlx)

lemma NewQueueService_wires:
  assumes "queue_names_differ cfg" and "starting cfg w" and "run_state (NewQueueService E cfg) w = (Inr (), w')"
  shows "topology cfg (broker w')"
proof -
  let ?w = "w\<lparr>mq_conns := Suc (mq_conns w), ticks := Suc (Suc (ticks w)), mq_chans := Suc (mq_chans w)\<rparr>"
  have "run_state (declareQueues E cfg) ?w = (None, w')"
    using assms(3) by (auto simp: NewQueueService_def mq_call_run split: option.splits prod.splits)
  moreover have "starting cfg ?w" using assms(2) starting_books [of ?w w] by simp
  ultimately show ?thesis using assms(1) by (intro declareQueues_wires)
qed

lemma InitializeAdminToken_starting: "within (kept (starting cfg')) (InitializeAdminToken E cfg)"
  unfolding InitializeAdminToken_def createNewToken_def regenerateToken_def generateJWTToken_def
  by (intro frames kept.rules) (simp_all only: kept_def starting_simple simp_thms)

lemma connected_wires:
  assumes "queue_names_differ cfg" and "p = API \<or> p = Receiver" and w: "starting cfg w"
    and run: "run_state (start_process E cfg p) w = (Inr (), w')"
  shows "topology cfg (broker w')"
proof -
  have t: "starting cfg (w\<lparr>ticks := n\<rparr>)" if "starting cfg w" for w n using that by (simp only: starting_simple)
  show ?thesis
  proof (cases "p = API")
    case True
    let ?a = "run_state (InitializeAdminToken E cfg) (w\<lparr>ticks := Suc (ticks w)\<rparr>)"
    let ?v = "snd ?a"
    from True run have "run_state (NewQueueService E cfg) (?v\<lparr>ticks := Suc (ticks ?v)\<rparr>) = (Inr (), w')"
      by (auto simp: api_main_def initDatabase_def db_Ping_def NewKeyDBService_def kv_Ping_def map_sum_def
          split: option.splits sum.splits prod.splits)
    moreover have "starting cfg ?v"
      using within_kept [OF InitializeAdminToken_starting t [OF w], of E cfg "Suc (ticks w)" "fst ?a" ?v] by simp
    ultimately show ?thesis using assms(1) t by (blast intro: NewQueueService_wires)
  next
    case False
    with assms(2) run have "\<exists>n. run_state (NewQueueService E cfg) (w\<lparr>ticks := n\<rparr>) = (Inr (), w')"
      by (auto simp: receiver_main_def initDatabase_receiver_def db_Ping_def NewKeyDBService_def kv_Ping_def
          split: option.splits sum.splits prod.splits)
    with assms(1) t [OF w] show ?thesis by (blast intro: NewQueueService_wires)
  qed
qed

lemma processes_start:
  assumes "queue_names_differ cfg"
  shows "run_state (for_err (start_process E cfg) ps) w = (Inr rs, w') \<Longrightarrow> starting cfg w \<Longrightarrow>
    starting cfg w' \<and> (topology cfg (broker w) \<or> API \<in> set ps \<or> Receiver \<in> set ps \<longrightarrow> topology cfg (broker w'))"
proof (induction ps arbitrary: w rs)
  case (Cons p ps)
  then obtain w1 rest where p: "run_state (start_process E cfg p) w = (Inr (), w1)"
    and ps: "run_state (for_err (start_process E cfg) ps) w1 = (Inr rest, w')"
    by (auto split: prod.splits sum.splits)
  have s: "starting cfg w1" using within_kept [OF main_keeps_starting [OF assms] Cons.prems(2) p] .
  have "topology cfg (broker w) \<Longrightarrow> topology cfg (broker w1)"
    using within_kept [OF main_keeps_topology _ p] by blast
  moreover have "p = API \<or> p = Receiver \<Longrightarrow> topology cfg (broker w1)"
    using connected_wires [OF assms _ Cons.prems(2) p] by blast
  ultimately show ?case using Cons.IH [OF ps s] by auto
qed simp

text \<open>
  C31: whatever the order in which the API server, the SMTP receiver and any number of workers
  are started on an empty broker and database, once all of them are up and one of the first
  two is among them, the system is in an initial state: the queues, the exchange and the
  binding are there, and no mail waits. So what holds of the reachable states holds from here
  on.
\<close>

theorem startup_ready:
  assumes "queue_names_differ cfg" and "API \<in> set ps \<or> Receiver \<in> set ps"
    and "mails w = []" and "timers w = []" and "broker w = empty_broker"
    and "run_state (for_err (start_process E cfg) ps) w = (Inr rs, w')"
  shows "fresh cfg w' \<and> sys_reach E cfg w'"
proof -
  have "starting cfg w"
    using assms(3-5) by (simp add: starting_def waiting_def queue_of_def empty_broker_def)
  from processes_start [OF assms(1,6) this] assms(2) have "fresh cfg w'"
    by (auto simp: starting_def fresh_def)
  then show ?thesis by (simp add: start)
qed

theorem startup_ready_witness:
  "\<exists>rs w'. run_state (for_err (start_process sample_ext default_config) [Consumer, Receiver, API])
       (sample_world\<lparr>broker := empty_broker\<rparr>) = (Inr rs, w') \<and> topology default_config (broker w')"
proof -
  let ?w = "sample_world\<lparr>broker := empty_broker\<rparr>"
  have ok: "\<exists>w'. run_state (start_process sample_ext default_config p) w = (Inr (), w')" for p w
    by (cases p) (simp_all add: api_main_def receiver_main_def worker_main_def initDatabase_def db_Ping_def
        initDatabase_receiver_def NewKeyDBService_def kv_Ping_def NewQueueService_def declareQueues_def Start_def
        mq_call_run split: prod.splits)
  then have "\<exists>w'. run_state (for_err (start_process sample_ext default_config) ps) w = (Inr (map (\<lambda>_. ()) ps), w')" for ps w
  proof (induction ps arbitrary: w)
    case (Cons p ps)
    obtain w1 where "run_state (start_process sample_ext default_config p) w = (Inr (), w1)" using ok by blast
    moreover obtain w2 where "run_state (for_err (start_process sample_ext default_config) ps) w1
        = (Inr (map (\<lambda>_. ()) ps), w2)" using Cons ok by blast
    ultimately show ?case by simp
  qed simp
  then obtain w' where r: "run_state (for_err (start_process sample_ext default_config) [Consumer, Receiver, API]) ?w
      = (Inr (map (\<lambda>_. ()) [Consumer, Receiver, API]), w')" by blast
  have "queue_names_differ default_config" by (simp add: queue_names_differ_def)
  from startup_ready [OF this _ _ _ _ r] r show ?thesis by (auto simp: fresh_def)
qed

end
