(* ===== verification/Shutdown.thy ===== *)
theory Shutdown
  imports Crashes Startup
begin

text \<open>
  How the three \<open>main\<close> functions end (\<open>cmd/\<close>, \<open>internal/smtp/server.go\<close> and
  \<open>backend.go\<close>), and what \<open>GracefulShutdown\<close> of the worker waits for while goroutines go on
  between their calls (theory \<open>Interleave\<close>).
\<close>

section \<open>The worker drains\<close>

text \<open>Deliveries that \<open>activeJobs\<close> counts, and those that will be counted whatever is signalled.\<close>

fun counted :: "goro \<Rightarrow> bool" where
  "counted (Delivering d Rejecting) = True"
| "counted (Delivering d (Working job pc)) = True"
| "counted (Delivering d (Uncounting r)) = True"
| "counted _ = False"

fun undecided :: "goro \<Rightarrow> bool" where
  "undecided (Delivering d Counting) = True"
| "undecided _ = False"

definition count_of :: "goro \<Rightarrow> int" where
  "count_of g = (if counted g then 1 else 0)"

definition busy :: "world \<Rightarrow> int \<times> bool" where
  "busy w = (active_jobs w, is_shutdown w)"

lemma sends_only_busy: "sends_only w w' \<Longrightarrow> busy w' = busy w"
  by (simp add: sends_only_def busy_def)

lemma send_job_busy: "run_state (send_job E (worker_consumer E cfg) job) w = (r, w') \<Longrightarrow> busy w' = busy w"
proof -
  assume r: "run_state (send_job E (worker_consumer E cfg) job) w = (r, w')"
  then have "run_state (deliver_job E cfg job) w = (case r of Returns e \<Rightarrow> e | Panics \<Rightarrow> None, w')"
    by (simp add: deliver_job_def)
  then show ?thesis by (intro sends_only_busy withinD [OF deliver_job_frame])
qed

lemma job_call_busy: "within (same busy) (job_call E (worker_consumer E cfg) tag job pc)"
proof (cases "pc = Sending")
  case True
  show ?thesis unfolding True within_def same_def
    by (auto split: prod.splits dest: send_job_busy)
next
  case False
  then show ?thesis
    by (cases pc; simp only: job_call.simps; intro frames same.rules; simp add: same_def busy_def)
qed

lemma front_busy:
  "within (same (\<lambda>w. (busy w, outbox w))) (accept_call E cfg m job pc)"
  "within (same (\<lambda>w. (busy w, outbox w))) (cancel_call E cfg ctx i pc')"
  by (cases pc; simp only: accept_call.simps; intro frames same.rules; simp add: same_def busy_def)
   (cases pc'; simp only: cancel_call.simps; intro frames same.rules; simp add: same_def busy_def)

lemma goro_call_counts:
  assumes "run_state (goro_call E cfg g) w = (g', w')"
  shows "active_jobs w' - count_of g' = active_jobs w - count_of g \<and> is_shutdown w' = is_shutdown w"
proof (cases g)
  case (Delivering d pc)
  show ?thesis
  proof (cases pc)
    case (Working job p)
    then obtain p' where p': "run_state (job_call E (worker_consumer E cfg) (fst d) job p) w = (p', w')"
      using assms Delivering by (auto split: prod.splits)
    then have "busy w' = busy w" by (rule within_same [OF job_call_busy])
    moreover have "counted g'" using assms Delivering Working p' by (auto split: job_pc.splits)
    ultimately show ?thesis using Delivering Working by (simp add: busy_def count_of_def)
  next
    case Counting
    with assms Delivering show ?thesis by (auto simp: count_of_def split: option.splits)
  qed (use assms Delivering in \<open>auto simp: count_of_def mq_Nack_def split: if_splits\<close>)
next
  case (Accepting m job pc)
  with assms front_busy(1) [of E cfg m job pc] show ?thesis
    by (auto simp: count_of_def within_def same_def busy_def split: prod.splits dest!: spec [of _ w])
next
  case (Cancelling ctx i pc)
  with assms front_busy(2) [of E cfg ctx i pc] show ?thesis
    by (auto simp: count_of_def within_def same_def busy_def split: prod.splits dest!: spec [of _ w])
qed

lemma fire_retry_busy: "within (same (\<lambda>w. (busy w, outbox w))) (fire_retry E cfg k)"
  unfolding fire_retry_def by (intro frames same.rules; simp add: same_def busy_def)

lemma sum_list_at: "k < length xs \<Longrightarrow> sum_list (xs[k := x]) = sum_list xs + x - xs ! k" for x :: int
  by (induction xs arbitrary: k) (auto split: nat.splits)

lemma elsewhere_busy:
  assumes "elsewhere w' = elsewhere w"
  shows "active_jobs w' = active_jobs w" "is_shutdown w' = is_shutdown w" "outbox w' = outbox w"
  using arg_cong [OF assms, of active_jobs] arg_cong [OF assms, of is_shutdown] arg_cong [OF assms, of outbox]
  by (simp_all add: elsewhere_def)

lemma conc_step_counts:
  assumes "conc_step E cfg c c'"
  shows "active_jobs (fst c') - sum_list (map count_of (snd c')) = active_jobs (fst c) - sum_list (map count_of (snd c))
    \<and> (is_shutdown (fst c) \<longrightarrow> is_shutdown (fst c'))"
  using assms
proof cases
  case (run k gs w g w')
  with goro_call_counts [OF run(4)] show ?thesis by (simp add: map_update sum_list_at)
next
  case (wake k w w' gs)
  have "(busy w', outbox w') = (busy w, outbox w)" by (rule within_same [OF fire_retry_busy wake(4)])
  with wake show ?thesis by (simp add: busy_def)
next
  case (stop w w' gs)
  then show ?thesis by (auto simp: shutdown_begin_def)
next
  case (other w' w gs)
  with elsewhere_busy [OF other(3)] show ?thesis by simp
qed (simp_all add: count_of_def)

text \<open>Where nothing more is sent.\<close>

fun calm :: "conc \<Rightarrow> bool" where
  "calm (w, gs) \<longleftrightarrow> is_shutdown w \<and> list_all (\<lambda>g. \<not> counted g \<and> \<not> undecided g) gs"

lemma goro_call_calm:
  assumes "run_state (goro_call E cfg g) w = (g', w')" and "is_shutdown w" and "\<not> counted g" and "\<not> undecided g"
  shows "outbox w' = outbox w \<and> \<not> counted g' \<and> \<not> undecided g'"
proof (cases g)
  case (Delivering d pc)
  with assms show ?thesis by (cases pc) (auto simp: mq_Nack_def)
next
  case (Accepting m job pc)
  with assms front_busy(1) [of E cfg m job pc] show ?thesis
    by (auto simp: within_def same_def busy_def split: prod.splits dest!: spec [of _ w])
next
  case (Cancelling ctx i pc)
  with assms front_busy(2) [of E cfg ctx i pc] show ?thesis
    by (auto simp: within_def same_def busy_def split: prod.splits dest!: spec [of _ w])
qed

lemma conc_step_calm:
  assumes "conc_step E cfg c c'" and "calm c"
  shows "calm c' \<and> outbox (fst c') = outbox (fst c)"
  using assms(1)
proof cases
  case (run k gs w g w')
  then have k: "\<not> counted (gs ! k)" "\<not> undecided (gs ! k)" "is_shutdown w"
    using assms(2) by (auto simp: list_all_length)
  from goro_call_calm [OF run(4) k(3,1,2)] goro_call_counts [OF run(4)] run k assms(2) show ?thesis
    by (auto simp: list_all_iff dest!: set_update_subset_insert [THEN subsetD])
next
  case (wake k w w' gs)
  have "(busy w', outbox w') = (busy w, outbox w)" by (rule within_same [OF fire_retry_busy wake(4)])
  with wake assms(2) show ?thesis by (simp add: busy_def)
next
  case (stop w w' gs)
  with assms(2) show ?thesis by (auto simp: shutdown_begin_def)
next
  case (other w' w gs)
  with elsewhere_busy [OF other(3)] assms(2) show ?thesis by simp
qed (use assms(2) in simp_all)

lemma run_counts:
  "(conc_step E cfg)\<^sup>*\<^sup>* c c' \<Longrightarrow>
   active_jobs (fst c') - sum_list (map count_of (snd c')) = active_jobs (fst c) - sum_list (map count_of (snd c))
   \<and> (is_shutdown (fst c) \<longrightarrow> is_shutdown (fst c'))"
  by (induction rule: rtranclp_induct) (auto dest: conc_step_counts)

lemma run_calm: "(conc_step E cfg)\<^sup>*\<^sup>* c c' \<Longrightarrow> calm c \<Longrightarrow> calm c' \<and> outbox (fst c') = outbox (fst c)"
  by (induction rule: rtranclp_induct) (auto dest: conc_step_calm)

lemma count_length: "sum_list (map count_of gs) = int (length (filter counted gs))"
  by (induction gs) (simp_all add: count_of_def)

lemma no_counted: "list_all (\<lambda>g. \<not> counted g) gs \<longleftrightarrow> length (filter counted gs) = 0"
  by (simp add: list_all_iff filter_empty_conv)

section \<open>The ends of the processes\<close>

text \<open>
  \<open>log.Fatalf\<close> in the serving goroutine ends the process at once, without the deferred calls.
  What the libraries do is an argument: what listening came back with before the signal, if it
  did, and what closing reports.
\<close>

datatype ending = Fatal go_error | Stopped

record smtp_backend =
  be_cfg :: config

definition NewBackend :: "config \<Rightarrow> smtp_backend" where
  "NewBackend cfg = \<lparr>be_cfg = cfg\<rparr>"

text \<open>A session has the settings of the backend; one per connection.\<close>

definition Backend_NewSession :: "smtp_backend \<Rightarrow> go_error + config \<times> smtp_session" where
  "Backend_NewSession b = Inr (be_cfg b, NewSession)"

text \<open>The library's server exists after \<open>Start\<close> only.\<close>

definition Server_Shutdown :: "(smtp_server \<Rightarrow> go_error option) \<Rightarrow> smtp_server option \<Rightarrow> go_error option" where
  "Server_Shutdown close_server server = Option.bind server close_server"

definition api_serving :: "go_error option option \<Rightarrow> ending" where
  "api_serving listening =
     (case listening of
        Some (Some e) \<Rightarrow> if e = ''http: Server closed'' then Stopped else Fatal e
      | _ \<Rightarrow> Stopped)"

definition api_stop :: "go_error option option \<Rightarrow> (world, ending) state" where
  "api_stop listening =
     (case api_serving listening of
        Fatal e \<Rightarrow> ret (Fatal e)
      | Stopped \<Rightarrow> do { QueueService_Close; ret Stopped })"

definition receiver_stop :: "go_error option \<Rightarrow> (world, ending) state" where
  "receiver_stop started =
     (case started of
        Some e \<Rightarrow> ret (Fatal e)
      | None \<Rightarrow> do { QueueService_Close; ret Stopped })"

definition worker_stop :: "int list \<Rightarrow> (world, ending) state" where
  "worker_stop active = do { ignore (GracefulShutdown active); ret Stopped }"

fun stop_process :: "process \<Rightarrow> int list \<Rightarrow> (world, ending) state" where
  "stop_process API active = api_stop None"
| "stop_process Receiver active = receiver_stop None"
| "stop_process Consumer active = worker_stop active"

text \<open>A process that came up holds one connection and one channel, and gives back both when it is stopped.\<close>

abbreviation held_open :: "world \<Rightarrow> nat \<times> nat" where
  "held_open w \<equiv> (mq_conns w, mq_chans w)"

lemma mq_call_open: "(\<And>w. held_open (f w) = held_open w) \<Longrightarrow> within (same held_open) (mq_call E f)"
  by (auto simp: within_def same_def mq_call_def split: option.splits)

lemma declareQueues_open: "within (same held_open) (declareQueues E cfg)"
  unfolding declareQueues_def by (intro mq_call_open same.rules; simp add: on_broker_def)

lemma InitializeAdminToken_open: "within (same held_open) (InitializeAdminToken E cfg)"
  unfolding InitializeAdminToken_def createNewToken_def regenerateToken_def generateJWTToken_def
  by (intro frames same.rules; simp add: same_def)

lemma NewQueueService_open:
  assumes "run_state (NewQueueService E cfg) w = (Inr (), w')"
  shows "held_open w' = (Suc (mq_conns w), Suc (mq_chans w))"
proof -
  let ?w = "w\<lparr>mq_conns := Suc (mq_conns w), ticks := Suc (Suc (ticks w)), mq_chans := Suc (mq_chans w)\<rparr>"
  have "run_state (declareQueues E cfg) ?w = (None, w')"
    using assms by (auto simp: NewQueueService_def mq_call_run split: option.splits prod.splits)
  from within_same [OF declareQueues_open this] show ?thesis by simp
qed

lemma start_process_open:
  assumes "run_state (start_process E cfg p) w = (Inr (), w')"
  shows "held_open w' = (Suc (mq_conns w), Suc (mq_chans w))"
proof (cases p)
  case API
  let ?a = "run_state (InitializeAdminToken E cfg) (w\<lparr>ticks := Suc (ticks w)\<rparr>)"
  let ?v = "snd ?a"
  from API assms have "run_state (NewQueueService E cfg) (?v\<lparr>ticks := Suc (ticks ?v)\<rparr>) = (Inr (), w')"
    by (auto simp: api_main_def initDatabase_def db_Ping_def NewKeyDBService_def kv_Ping_def map_sum_def
        split: option.splits sum.splits prod.splits)
  moreover have "held_open ?v = held_open w"
    using within_same [OF InitializeAdminToken_open, of E cfg "w\<lparr>ticks := Suc (ticks w)\<rparr>" "fst ?a" ?v] by simp
  ultimately show ?thesis using NewQueueService_open by fastforce
next
  case Receiver
  with assms obtain n where "run_state (NewQueueService E cfg) (w\<lparr>ticks := n\<rparr>) = (Inr (), w')"
    by (auto simp: receiver_main_def initDatabase_receiver_def db_Ping_def NewKeyDBService_def kv_Ping_def
        split: option.splits sum.splits prod.splits)
  from NewQueueService_open [OF this] show ?thesis by simp
next
  case Consumer
  with assms show ?thesis
    by (auto simp: worker_main_def initDatabase_def db_Ping_def NewKeyDBService_def kv_Ping_def Start_def mq_call_run
        on_broker_def split: option.splits sum.splits prod.splits)
qed

text \<open>Stopping changes no table, no cache and no log; the worker gives its deliveries back.\<close>

lemma stop_process_run:
  assumes "run_state (stop_process p active) w = (r, w')"
  shows "r = Stopped \<and> held_open w' = (mq_conns w - 1, mq_chans w - 1)
    \<and> mails w' = mails w \<and> tokens w' = tokens w \<and> configs w' = configs w \<and> cache w' = cache w \<and> outbox w' = outbox w
    \<and> (p \<noteq> Consumer \<longrightarrow> broker w' = broker w) \<and> (p = Consumer \<longrightarrow> bk_unacked (broker w') = [])"
  using assms
  by (cases p) (auto simp: api_stop_def api_serving_def receiver_stop_def worker_stop_def QueueService_Close_def
      close_channel_def close_conn_def GracefulShutdown_def shutdown_begin_def shutdown_cleanup_def)

lemma start_and_stop:
  assumes "run_state (start_process E cfg p) w = (Inr (), w1)" and "held_open w2 = held_open w1"
    and "run_state (stop_process p active) w2 = (r, w3)"
  shows "held_open w3 = held_open w"
  using start_process_open [OF assms(1)] stop_process_run [OF assms(3)] assms(2) by simp

lemma fatal_stop:
  assumes "e \<noteq> ''http: Server closed''"
  shows "run_state (api_stop (Some (Some e))) w = (Fatal e, w)" "run_state (receiver_stop (Some e)) w = (Fatal e, w)"
  using assms by (simp_all add: api_stop_def api_serving_def receiver_stop_def)

lemma worker_stop_requeues:
  assumes "\<forall>d\<in>set (bk_unacked (broker w)). fst (snd d) = q" and "declared q w"
    and "run_state (worker_stop active) w = (r, w')"
  shows "mset (waiting w' q) = mset (waiting w q) + mset (map (snd \<circ> snd) (bk_unacked (broker w)))"
  using requeue_all_queue [OF assms(1), of "broker w"] assms(2,3)
  by (auto simp: worker_stop_def close_channel_def close_conn_def GracefulShutdown_def shutdown_begin_def
      shutdown_cleanup_def waiting_def queue_of_def declared_def)

section \<open>Properties\<close>

text \<open>
  C19: the worker counts right, and stops clean but for one window. In every state the
  goroutines can reach, \<open>activeJobs\<close> is the number of deliveries between the counting and the
  end of \<open>handleMessage\<close>. Once shutdown is signalled, the count reads zero and no goroutine
  stands between its look at \<open>isShutdown\<close> and the counting, no request leaves any more and the
  count stays zero, however the goroutines go on.
\<close>

theorem graceful_drain:
  assumes "active_jobs w0 = 0" and "(conc_step E cfg)\<^sup>*\<^sup>* (w0, []) (w, gs)"
  shows "active_jobs w = int (length (filter counted gs))
    \<and> (is_shutdown w \<and> active_jobs w = 0 \<and> list_all (\<lambda>g. \<not> undecided g) gs
        \<and> (conc_step E cfg)\<^sup>*\<^sup>* (w, gs) (w', gs') \<longrightarrow> outbox w' = outbox w \<and> active_jobs w' = 0)"
proof -
  have c: "active_jobs w = int (length (filter counted gs))"
    using run_counts [OF assms(2)] assms(1) by (simp add: count_length)
  moreover have "outbox w' = outbox w \<and> active_jobs w' = 0"
    if "is_shutdown w" "active_jobs w = 0" "list_all (\<lambda>g. \<not> undecided g) gs"
      and r: "(conc_step E cfg)\<^sup>*\<^sup>* (w, gs) (w', gs')"
  proof -
    have "calm (w, gs)" using that c no_counted [of gs] by (simp add: list_all_iff)
    from run_calm [OF r this] have k: "calm (w', gs')" "outbox w' = outbox w" by simp_all
    have "length (filter counted gs') = 0" using k(1) by (simp add: list_all_iff filter_empty_conv)
    moreover have "active_jobs w' = int (length (filter counted gs'))"
      using run_counts [OF rtranclp_trans [OF assms(2) r]] assms(1) by (simp add: count_length)
    ultimately show ?thesis using k(2) by simp
  qed
  ultimately show ?thesis by blast
qed

lemma sample_stopped:
  assumes "(conc_step E cfg)\<^sup>*\<^sup>* c (w, gs)"
  shows "(conc_step E cfg)\<^sup>*\<^sup>* c (w\<lparr>is_shutdown := True\<rparr>, gs)"
  using assms by (rule rtranclp.rtrancl_into_rtrancl) (rule conc_step.stop, simp add: shutdown_begin_def)

theorem graceful_drain_witness:
  "\<exists>w gs w' gs'. (conc_step sample_ext default_config)\<^sup>*\<^sup>* (w, gs) (w', gs') \<and> outbox w' = outbox w
     \<and> waiting w ''mail-queue'' = [] \<and> waiting w' ''mail-queue'' = [sample_msg sample_job]"
proof -
  let ?g = "Delivering (0, sample_msg sample_job)" and ?acc = "sample_accept sample_job Accepted"
  obtain w where t: "(conc_step sample_ext default_config)\<^sup>*\<^sup>* (sample_world, []) (w, [?acc, ?g Received])"
    and w: "broker w = sample_broker\<lparr>bk_unacked := [(0, ''mail-queue'', sample_msg sample_job)], bk_next_tag := 1\<rparr>"
      "active_jobs w = 0"
    by (rule sample_taken [of sample_ext sample_job]) simp_all
  let ?w = "w\<lparr>is_shutdown := True\<rparr>"
  obtain w' where c: "run_state (run_calls (goro_call sample_ext default_config) 2 (?g Received)) ?w = (?g (Ended (Returns ())), w')"
    and w': "waiting w' ''mail-queue'' = [sample_msg sample_job]"
    using w(1) by (simp add: goro_calls eval_nat_numeral mq_Nack_def nack_def requeue_def sample_queues waiting_def queue_of_def)
  have r: "(conc_step sample_ext default_config)\<^sup>*\<^sup>* (?w, [?acc, ?g Received]) (w', [?acc, ?g (Ended (Returns ()))])"
    using alone [OF c, of "[?acc]"] by simp
  have "active_jobs sample_world = 0" by simp
  from graceful_drain [OF this sample_stopped [OF t], of w' "[?acc, ?g (Ended (Returns ()))]"] r w
  have "outbox w' = outbox ?w" by simp
  moreover have "waiting ?w ''mail-queue'' = []"
    by (simp add: w waiting_def queue_of_def sample_queues)
  ultimately show ?thesis using r w' by blast
qed

text \<open>
  C32: the window. A delivery that looked at \<open>isShutdown\<close> before the signal and is not counted
  yet is missed by the wait of \<open>GracefulShutdown\<close>: when no other job is counted, the first
  reading of \<open>activeJobs\<close> ends the wait, and closing the channel puts the delivery back into
  its queue. The goroutine still holds it: unless the mail was cancelled, its next calls, with
  no other in between, mark the mail and come to the sending of the job, and when the service
  takes it, a request that carries the job leaves, while the message waits for the next worker.
\<close>

theorem shutdown_window:
  assumes "deployed E cfg" and "conc_reach E cfg (w, gs)" and "is_shutdown w" and "active_jobs w = 0"
    and "k < length gs" and "gs ! k = Delivering d Counting"
    and "unmarshal_job (msg_Body (snd d)) = Some job" and "x_pg_uuid E (job_MailID job) = Some i"
    and "row_status i w \<noteq> Some MailStatusCancelled"
    and "run_state shutdown_cleanup w = ((), v)"
  shows "drained [active_jobs w] \<and> snd d \<in> set (waiting v (co_MailQueueName cfg))
    \<and> (\<exists>w'. (conc_step E cfg)\<^sup>*\<^sup>* (v, gs) (w', gs[k := Delivering d (Working job Sending)])
        \<and> posts w' = posts w \<and> waiting w' = waiting v
        \<and> (\<forall>w''. run_state (goro_call E cfg (Delivering d (Working job Sending))) w'
              = (Delivering d (Working job Sent_row), w'')
            \<longrightarrow> (\<exists>req. carries job req \<and> posts w'' = posts w @ [req]) \<and> waiting w'' = waiting v))"
proof -
  let ?q = "co_MailQueueName cfg"
  have v: "broker v = (requeue_all (bk_unacked (broker w)) (broker w))\<lparr>bk_unacked := []\<rparr>"
    "mails v = mails w" "posts v = posts w"
    using assms(10) by (auto simp: shutdown_cleanup_def close_channel_def close_conn_def posts_def)
  have inv: "conc_inv E cfg (w, gs)" using assms(1) by (intro conc_reach_inv [OF assms(2)]) (simp_all add: deployed_def)
  have up: "up E" using assms(1) by (simp add: deployed_def)
  have "Delivering d Counting \<in> set gs" using assms(5,6) by (metis nth_mem)
  from taken_unacked [OF inv this] have "(fst d, ?q, snd d) \<in> set (bk_unacked (broker w))" by simp
  from requeued_waits [OF inv v(1) this] have again: "snd d \<in> set (waiting v ?q)" by simp
  have "t_keys_unique mail_ID (mails v)" using inv by (simp add: v(2) good_world_def)
  moreover have "row_status i v \<noteq> Some MailStatusCancelled" using assms(9) by (simp add: row_status_def v(2))
  ultimately obtain w' where c: "run_state (run_calls (goro_call E cfg) 4 (Delivering d Counting)) v = (Delivering d (Working job Sending), w')"
    and w': "posts w' = posts v" "broker w' = broker v"
    by (rule until_sending [OF up assms(7,8)])
  have "(conc_step E cfg)\<^sup>*\<^sup>* (v, gs) (w', gs[k := Delivering d (Working job Sending)])"
    using c assms(5,6) by (intro alone_at [where n = 4]) simp_all
  moreover have "(\<exists>req. carries job req \<and> posts w'' = posts w @ [req]) \<and> waiting w'' = waiting v"
    if s: "run_state (goro_call E cfg (Delivering d (Working job Sending))) w' = (Delivering d (Working job Sent_row), w'')" for w''
    using sent_carries [OF s] sent_keeps_queues [OF s] w' v(3) by (simp add: waiting_def fun_eq_iff)
  ultimately show ?thesis
    using again assms(4) w' v(3) by (intro conjI exI [of _ w']) (simp_all add: drained_def waiting_def fun_eq_iff)
qed

theorem shutdown_window_witness:
  "\<exists>w gs v w'' gs''. conc_reach deployed_ext default_config (w, gs) \<and> is_shutdown w \<and> drained [active_jobs w] \<and> posts w = []
     \<and> run_state shutdown_cleanup w = ((), v) \<and> (conc_step deployed_ext default_config)\<^sup>*\<^sup>* (v, gs) (w'', gs'')
     \<and> length (posts w'') = 1 \<and> sample_msg between_job \<in> set (waiting w'' ''mail-queue'')"
proof -
  let ?d = "(0::nat, sample_msg between_job)" and ?acc = "sample_accept between_job Accepted"
  let ?step = "conc_step deployed_ext default_config"
  obtain w where t: "?step\<^sup>*\<^sup>* (sample_world, []) (w, [?acc, Delivering ?d Received])"
    and w: "posts w = []" "\<not> is_shutdown w" "active_jobs w = 0" "mails w = [stored_mail (x_clock deployed_ext 0) sample_row]"
    by (rule sample_taken [OF deployed_up between_id(1)])
  let ?w = "w\<lparr>is_shutdown := True\<rparr>" and ?gs = "[?acc, Delivering ?d Counting]"
  have "run_state (run_calls (goro_call deployed_ext default_config) 1 (Delivering ?d Received)) w = (Delivering ?d Counting, w)"
    using w(2) by (simp add: goro_calls)
  from alone [OF this, of "[?acc]"] t have "?step\<^sup>*\<^sup>* (sample_world, []) (w, ?gs)" by simp
  from conc_reach_steps [OF sample_stopped [OF this] conc_reach.start [OF sample_fresh]]
  have r: "conc_reach deployed_ext default_config (?w, ?gs)" .
  obtain v where v: "run_state shutdown_cleanup ?w = ((), v)" by (metis old.unit.exhaust surj_pair)
  have g: "1 < length ?gs" "?gs ! 1 = Delivering ?d Counting" "is_shutdown ?w" "active_jobs ?w = 0"
    "row_status ''m1'' ?w \<noteq> Some MailStatusCancelled"
    using w(3,4) by (simp_all add: row_status_def t_find_def stored_mail_def sample_row_def)
  note p = shutdown_window [OF deployed_sample r g(3,4,1,2) _ between_id(2) g(5) v, unfolded snd_conv, OF between_decoded]
  then obtain w' where s: "?step\<^sup>*\<^sup>* (v, ?gs) (w', ?gs[1 := Delivering ?d (Working between_job Sending)])"
    and sent: "\<And>w''. run_state (goro_call deployed_ext default_config (Delivering ?d (Working between_job Sending))) w'
            = (Delivering ?d (Working between_job Sent_row), w'')
          \<Longrightarrow> (\<exists>req. carries between_job req \<and> posts w'' = posts ?w @ [req]) \<and> waiting w'' = waiting v"
    by blast
  obtain w'' where w'': "run_state (goro_call deployed_ext default_config (Delivering ?d (Working between_job Sending))) w'
      = (Delivering ?d (Working between_job Sent_row), w'')" by (simp add: deployed_sending)
  have k: "1 < length (?gs[1 := x])" "?gs[1 := x] ! 1 = x" for x :: goro by simp_all
  have "?step\<^sup>*\<^sup>* (v, ?gs) (w'', ?gs[1 := Delivering ?d (Working between_job Sending), 1 := Delivering ?d (Working between_job Sent_row)])"
    using s conc_step.run [OF k(1), unfolded k(2), OF w''] by (rule rtranclp.rtrancl_into_rtrancl)
  moreover have "length (posts w'') = 1" "waiting w'' = waiting v" using sent [OF w''] w(1) by (auto simp: posts_def)
  moreover have "posts ?w = []" using w(1) by (simp add: posts_def)
  moreover have "drained [active_jobs ?w]" "sample_msg between_job \<in> set (waiting v ''mail-queue'')" using p by simp_all
  ultimately show ?thesis using r v g(3) by metis
qed

end
