(* ===== verification/Typed.thy ===== *)
theory Typed
  imports Faults
begin

text \<open>
  The types of what the processes leave for each other: the columns of a mail fit together,
  every entry of the cache decodes to one of the five statuses, and every message in any queue,
  or out for delivery, decodes to a job. Every step keeps this, whichever calls fail.
\<close>

section \<open>Well-typed states\<close>

definition typed_mail :: "mail \<Rightarrow> bool" where
  "typed_mail m \<longleftrightarrow> list_all (\<lambda>a. att_MailID a = mail_ID m) (mail_Attachments m)
     \<and> (mail_Status m = MailStatusSent \<longrightarrow> mail_SentAt m \<noteq> None)"

definition status_payload :: "payload \<Rightarrow> bool" where
  "status_payload p \<longleftrightarrow> (\<exists>st. map_option msc_Status (unmarshal_status p) = Some (status_text st))"

definition decodes :: "message \<Rightarrow> bool" where
  "decodes m \<longleftrightarrow> unmarshal_job (msg_Body m) \<noteq> None"

definition typed_broker :: "broker \<Rightarrow> bool" where
  "typed_broker b \<longleftrightarrow> (\<forall>q. list_all decodes (queue_of b q)) \<and> list_all (\<lambda>(t, q, m). decodes m) (bk_unacked b)"

definition typed :: "world \<Rightarrow> bool" where
  "typed w \<longleftrightarrow> list_all typed_mail (mails w) \<and> t_keys_unique mail_ID (mails w)
     \<and> (\<forall>k p x. cache w k = Some (p, x) \<longrightarrow> status_payload p \<and> (\<exists>i. k = status_key i))
     \<and> typed_broker (broker w)"

lemma typed_same:
  "mails w' = mails w \<Longrightarrow> cache w' = cache w \<Longrightarrow> broker w' = broker w \<Longrightarrow> typed w' = typed w"
  by (simp add: typed_def)

section \<open>The broker\<close>

lemma decodes_job [simp]: "decodes (m\<lparr>msg_Body := Json (marshal_job job)\<rparr>)"
  "msg_Body m = Json (marshal_job job) \<Longrightarrow> decodes m"
  using unmarshal_total [of job] by (auto simp: decodes_def)

lemma decodes_plain [simp]: "decodes (plain_message q job)"
  by (rule decodes_job(2)) (simp add: plain_message_def)

lemma decodes_retry [simp]: "decodes (retry_message cfg job)"
  by (rule decodes_job(2)) (simp add: retry_message_def plain_message_def)

lemma typed_enqueue: "typed_broker b \<Longrightarrow> decodes m \<Longrightarrow> typed_broker (enqueue m q b)"
  by (simp add: typed_broker_def queue_of_enqueue)

lemma typed_publish: "typed_broker b \<Longrightarrow> decodes m \<Longrightarrow> typed_broker (publish_to ex m b)"
proof -
  assume "typed_broker b" "decodes m"
  then have "typed_broker (fold (enqueue m) qs b)" for qs
    by (induction qs arbitrary: b) (simp_all add: typed_enqueue)
  then show ?thesis by (simp add: publish_to_def)
qed

lemma typed_ack: "typed_broker b \<Longrightarrow> typed_broker (ack tag b)"
  by (auto simp: typed_broker_def list_all_iff)

lemma typed_nack: "typed_broker b \<Longrightarrow> typed_broker (nack tag again b)"
proof (cases "find (\<lambda>(t, q, m). t = tag) (bk_unacked b)")
  case (Some d)
  assume b: "typed_broker b"
  obtain t q m where d: "d = (t, q, m)" by (cases d)
  then have "(t, q, m) \<in> set (bk_unacked b)" using Some by (auto simp: find_Some_iff in_set_conv_nth)
  then have m: "decodes m" using b by (auto simp: typed_broker_def list_all_iff)
  have "typed_broker (requeue q m (ack tag b))"
    using typed_ack [OF b, of tag] m
    by (auto simp: typed_broker_def requeue_def queue_of_def split: option.splits)
  moreover have "typed_broker (dead_letter q m (ack tag b))"
    using typed_ack [OF b, of tag] m by (simp add: dead_letter_def typed_publish split: option.splits)
  ultimately show ?thesis using Some d by (simp add: nack_def)
qed (simp add: nack_def)

lemma typed_deliver: "typed_broker b \<Longrightarrow> deliver q b = Some (d, b') \<Longrightarrow> typed_broker b' \<and> decodes (snd d)"
proof -
  assume b: "typed_broker b" and d: "deliver q b = Some (d, b')"
  obtain ms where "bk_queues b q = Some (snd d # ms)" "bk_queues b' = (bk_queues b)(q \<mapsto> ms)"
    "bk_unacked b' = (fst d, q, snd d) # bk_unacked b" using d by (rule deliver_some)
  moreover from this(1) b have "list_all decodes (snd d # ms)"
    by (auto simp: typed_broker_def queue_of_def dest!: spec [of _ q])
  ultimately show ?thesis using b by (auto simp: typed_broker_def queue_of_def)
qed

section \<open>The primitives\<close>

lemma typed_ticked: "ticked (kept typed)"
  by (simp add: kept_def typed_same [of "w\<lparr>ticks := n\<rparr>" w for w n])

lemma SetStatus_typed: "within (kept typed) (SetStatus E cfg i (status_text st) n e)"
proof
  fix w
  have "status_payload (fst (status_entry E cfg i (status_text st) n e t))" for t
  proof -
    have "to_valid_utf8 (status_text st) = status_text st" by (cases st) (simp_all add: is_ascii_def)
    then show ?thesis by (auto simp: status_payload_def)
  qed
  then show "kept typed w (snd (run_state (SetStatus E cfg i (status_text st) n e) w))"
    by (cases "x_kv E (Suc (ticks w))")
      (auto simp: kept_def typed_def SetStatus_ok SetStatus_failed status_entry_def)
qed

lemmas SetStatus_literals =
  SetStatus_typed [where st = MailStatusQueued, simplified] SetStatus_typed [where st = MailStatusProcessing, simplified]
  SetStatus_typed [where st = MailStatusSent, simplified] SetStatus_typed [where st = MailStatusFailed, simplified]
  SetStatus_typed [where st = MailStatusCancelled, simplified]

lemma Create_typed:
  assumes "mail_Status m \<noteq> MailStatusSent"
  shows "within (kept typed) (mails_Create E m)"
proof -
  have "typed_mail (stored_mail t m)" for t
    using assms by (simp add: typed_mail_def stored_mail_def list_all_iff)
  then show ?thesis
    by (intro mails_Create_within typed_ticked)
      (auto simp: kept_def typed_def t_insert_unique t_find_None, simp_all add: t_insert_def stored_mail_def)
qed

lemma Update_typed:
  assumes "\<And>t m. mail_ID (f t m) = mail_ID m" and "\<And>t m. mail_Attachments (f t m) = mail_Attachments m"
    and "\<And>t m. mail_Status (f t m) = MailStatusSent \<Longrightarrow> 
      mail_SentAt (f t m) \<noteq> None \<or> mail_Status m = MailStatusSent \<and> mail_SentAt (f t m) = mail_SentAt m"
  shows "within (kept typed) (mails_Update E P f)"
proof (intro mails_Update_within typed_ticked)
  fix w :: world and n t
  have "typed_mail m \<Longrightarrow> typed_mail ((f t m)\<lparr>mail_UpdatedAt := t\<rparr>)" for m
    using assms(1,2) [of t m] assms(3) [of t m] by (auto simp: typed_mail_def)
  then have "list_all typed_mail (mails w) \<Longrightarrow>
      list_all typed_mail (t_update P (\<lambda>m. (f t m)\<lparr>mail_UpdatedAt := t\<rparr>) (mails w))"
    by (auto simp: list_all_iff t_update_def)
  then show "kept typed w (w\<lparr>ticks := n, mails := t_update P (\<lambda>m. (f t m)\<lparr>mail_UpdatedAt := t\<rparr>) (mails w)\<rparr>)"
    using assms(1) by (simp add: kept_def typed_def t_update_unique)
qed

lemma publish_typed:
  "decodes m \<Longrightarrow> within (kept typed) (mq_Publish E ex m)" "within (kept typed) (PublishMail E cfg job)"
  by (intro mq_Publish_within PublishMail_within typed_ticked; auto simp: kept_def typed_def typed_publish)+

lemma settle_typed: "within (kept typed) (mq_Ack tag)" "within (kept typed) (mq_Nack tag again)"
  by (auto simp: within_def kept_def typed_def mq_Nack_def typed_ack typed_nack)

lemmas typing = SetStatus_literals publish_typed settle_typed decodes_plain typed_ticked kept.frame_rel_axioms

section \<open>The handlers\<close>

lemma accept_typed:
  assumes "mail_Status m = MailStatusQueued"
  shows "within (kept typed) (accept_mail E cfg m atts)"
proof -
  have files: "within (kept typed) (save_attachment E cfg i att)" for i att
    unfolding save_attachment_def
    by (intro frames kept.rules typed_ticked) (simp_all add: kept_def typed_def)
  show ?thesis
    unfolding accept_mail_def
    by (rule kept.rules files Create_typed Update_typed typing | simp add: assms)+
qed

lemma enqueue_typed:
  "mail_Status m = MailStatusQueued \<Longrightarrow> within (kept typed) (enqueue_mail E cfg m)"
  unfolding enqueue_mail_def
  by (rule kept.rules Create_typed Update_typed typing | simp)+

lemma Cancel_typed: "within (kept typed) (Cancel E cfg ctx i)"
  unfolding Cancel_def
  by (rule kept.rules Update_typed typing mails_First_within | simp)+

lemma Send_typed:
  "within (kept typed) (Send E cfg svc ctx body)" "within (kept typed) (SendBatch E cfg ctx body)"
  unfolding Send_def SendBatch_def processSingleMail_def prod.case
  by (intro frames kept.rules outcome_within accept_typed read_within typed_ticked
      kept.frame_rel_axioms; simp add: new_mail_def)+

lemma untouched_typed:
  assumes "untouched ep w' = untouched ep w" and "ep \<noteq> EP_Send" "ep \<noteq> EP_SendBatch" "\<And>i. ep \<noteq> EP_Cancel i"
  shows "typed w' = typed w"
proof -
  have "typed (untouched ep v) = typed v" for v
    using assms(2-4) by (cases ep) (auto simp: typed_def)
  then show ?thesis using assms(1) by metis
qed

lemma handler_typed:
  assumes svc: "svc = None \<longrightarrow> \<not> sender_config_group ep"
  shows "within (kept typed) (handler E cfg svc ep rq ctx)"
proof (cases "ep = EP_Send \<or> ep = EP_SendBatch \<or> (\<exists>i. ep = EP_Cancel i)")
  case True
  have "within (kept typed) (answers (Cancel E cfg ctx i))" for i
    by (rule answers_within [OF kept.frame_rel_axioms Cancel_typed])
  with True Send_typed show ?thesis by auto
next
  case False
  then have "typed (snd (run_state (handler E cfg svc ep rq ctx) w)) = typed w" for w
    using within_snd [OF handler_within [OF svc]] by (intro untouched_typed [of ep]) (auto simp: same_def)
  then show ?thesis by (simp add: within_def kept_def)
qed

lemma serve_typed:
  assumes "typed w" and "run_state (serve E cfg svc ep rq) w = (answer, w')"
  shows "typed w'"
  using assms(2)
proof (cases rule: serve_cases)
  case refused
  from untouched_but_ticks [OF refused(1), of EP_Health] untouched_typed [of EP_Health w' w] assms(1)
  show ?thesis by simp
next
  case health
  from within_same [OF read_untouched(1) health(2), of EP_Health] untouched_typed [of EP_Health w' w] assms(1)
  show ?thesis by simp
next
  case (handled ctx w1 r)
  from untouched_but_ticks [OF handled(4), of EP_Health] untouched_typed [of EP_Health w1 w] assms(1)
  have "typed w1" by simp
  with handler_typed [OF handled(2)] handled(6) show ?thesis by (metis within_kept)
qed

lemma Data_typed:
  assumes "typed w" and d: "Data E cfg s input w = Some (r, w')"
  shows "typed w'"
proof (cases "\<exists>buf m w1. input = Inr buf \<and> parseMailData E cfg s buf w = Some (m, w1)
    \<and> run_state (enqueue_mail E cfg m) w1 = (r, w')")
  case False
  with d have "w' = w" by (auto simp: Data_def Let_def split: sum.splits if_splits option.splits)
  with assms show ?thesis by simp
next
  case True
  then obtain buf m w1 where m: "parseMailData E cfg s buf w = Some (m, w1)"
    and e: "run_state (enqueue_mail E cfg m) w1 = (r, w')" by blast
  from parseMailData_ok [OF m] have f: "but_files w1 = but_files w" and st: "mail_Status m = MailStatusQueued"
    by (simp_all add: inbound_def)
  have "typed w1" using but_files_fields [OF f] assms(1) typed_same [of w1 w] by simp
  with enqueue_typed [OF st] e show ?thesis by (metis within_kept)
qed

section \<open>The worker\<close>

lemma worker_typed:
  "within (kept typed) (mark_processing E cfg job)" "within (kept typed) (mark_sent E cfg tag job)"
  "within (kept typed) (handleRetry E c tag job e)" "within (kept typed) (deliver_job E cfg job)"
proof -
  show "within (kept typed) (mark_processing E cfg job)" "within (kept typed) (mark_sent E cfg tag job)"
    unfolding mark_processing_def mark_sent_def
    by (rule kept.rules Update_typed typing time_Now_within | simp)+
  show "within (kept typed) (handleRetry E c tag job e)"
    unfolding handleRetry_def Let_def
    by (rule kept.rules Update_typed typing modify_within | simp add: kept_def typed_def)+
  show "within (kept typed) (deliver_job E cfg job)"
  proof
    fix w
    obtain r w' where d: "run_state (deliver_job E cfg job) w = (r, w')" by fastforce
    with worker.store_unchanged [OF d] typed_same [of w' w]
    show "kept typed w (snd (run_state (deliver_job E cfg job) w))" by (simp add: kept_def)
  qed
qed

lemma delivery_typed:
  assumes "typed w" and p: "run_state (process_delivery E (worker_consumer E cfg) d) w = (r, w')"
  shows "typed w'"
proof -
  have run: "run_state (process_delivery E (worker_consumer E cfg) d) w
    = (if is_shutdown w then (Returns (), snd (run_state (mq_Nack (fst d) True) w))
       else run_state (handleMessage E (worker_consumer E cfg) d) w)"
    by (simp add: process_delivery_def split: prod.splits)
  have job: "typed v'" if "run_state (handle_job E (worker_consumer E cfg) (fst d) job) v = (r', v')" "typed v" for job v r' v'
    using that(1)
  proof (cases rule: handle_job_cases)
    case (cancelled m)
    with that(2) show ?thesis by (simp add: typed_def typed_ack)
  next
    case (sent w1 w2)
    have "typed (v\<lparr>ticks := Suc (ticks v)\<rparr>)" using that(2) by (simp add: typed_def)
    then show ?thesis using sent(3-5) worker_typed(1,2,4) by (metis within_kept)
  next
    case (failed w1 w2 e)
    have "typed (v\<lparr>ticks := Suc (ticks v)\<rparr>)" using that(2) by (simp add: typed_def)
    then show ?thesis using failed(3-5) worker_typed(1,3,4) by (metis within_kept)
  qed
  have count: "typed (v\<lparr>active_jobs := n\<rparr>) = typed v" for v n by (simp add: typed_def)
  show ?thesis
  proof (cases "is_shutdown w")
    case True
    with p run within_kept [OF settle_typed(2) assms(1)] show ?thesis by (metis prod.collapse snd_conv)
  next
    case False
    let ?w = "w\<lparr>active_jobs := active_jobs w + 1\<rparr>"
    show ?thesis
    proof (cases "unmarshal_job (msg_Body (snd d))")
      case None
      with False p run have "w' = (snd (run_state (mq_Nack (fst d) False) ?w))\<lparr>active_jobs :=
          active_jobs (snd (run_state (mq_Nack (fst d) False) ?w)) - 1\<rparr>"
        by (auto simp: handleMessage_def split: prod.splits)
      with within_kept [OF settle_typed(2), of ?w] assms(1) show ?thesis by (metis count prod.collapse)
    next
      case (Some job)
      then obtain v where v: "run_state (handle_job E (worker_consumer E cfg) (fst d) job) ?w = (r, v)"
        and w': "w' = v\<lparr>active_jobs := active_jobs v - 1\<rparr>"
        using False p run by (auto simp: handleMessage_def split: prod.splits)
      from job [OF v] assms(1) show ?thesis by (simp add: w' count)
    qed
  qed
qed

lemma sys_step_typed:
  assumes "typed w" and "sys_step E cfg w w'"
  shows "typed w'"
  using assms(2)
proof cases
  case (api ep rq answer)
  with assms(1) show ?thesis by (rule serve_typed)
next
  case (smtp s input r)
  with assms(1) show ?thesis by (auto intro: Data_typed)
next
  case worker
  then show ?thesis
  proof cases
    case work
    then obtain d b where d: "deliver (co_MailQueueName cfg) (broker w) = Some (d, b)"
      by (auto simp: work_step_def split: option.splits)
    obtain r where r: "run_state (process_delivery E (worker_consumer E cfg) d) (w\<lparr>broker := b\<rparr>) = (r, w')"
      using work d by (auto simp: work_step_def) (metis prod.collapse)
    have "typed (w\<lparr>broker := b\<rparr>)" using assms(1) typed_deliver [OF _ d] by (simp add: typed_def)
    then show ?thesis using r by (rule delivery_typed)
  next
    case (wake i)
    have "within (kept typed) (fire_retry E cfg i)"
      unfolding fire_retry_def
      by (rule kept.rules typing decodes_retry modify_within | simp add: kept_def typed_def)+
    then show ?thesis using assms(1) wake(2) by (rule within_kept)
  qed
next
  case stop
  then have "w' = w\<lparr>is_shutdown := True\<rparr>" by (simp add: shutdown_begin_def)
  with assms(1) show ?thesis by (simp add: typed_def)
qed

section \<open>Properties\<close>

text \<open>A reader of a well-typed state finds what it expects.\<close>

lemma typed_readers:
  assumes "typed w"
  shows "x_kv E (ticks w) = None \<Longrightarrow> fst (run_state (GetStatus_kv E i) w) = Inl ''status not found''
      \<or> (\<exists>c st. fst (run_state (GetStatus_kv E i) w) = Inr c \<and> msc_Status c = status_text st)"
    and "deliver q (broker w) = Some (d, b) \<Longrightarrow> \<exists>job. unmarshal_job (msg_Body (snd d)) = Some job"
proof -
  show "fst (run_state (GetStatus_kv E i) w) = Inl ''status not found''
      \<or> (\<exists>c st. fst (run_state (GetStatus_kv E i) w) = Inr c \<and> msc_Status c = status_text st)"
    if "x_kv E (ticks w) = None"
  proof (cases "cache w (status_key i)")
    case None
    with that show ?thesis by (simp add: GetStatus_kv_def kv_Get_def Let_def)
  next
    case (Some px)
    obtain p x where px: "px = (p, x)" by (cases px)
    then have "status_payload p" using assms Some by (auto simp: typed_def)
    then obtain c st where "unmarshal_status p = Some c" "msc_Status c = status_text st"
      by (auto simp: status_payload_def)
    then show ?thesis
      using that Some px by (auto simp: GetStatus_kv_def kv_Get_def Let_def split: option.splits)
  qed
  show "\<exists>job. unmarshal_job (msg_Body (snd d)) = Some job" if "deliver q (broker w) = Some (d, b)"
    using typed_deliver [OF _ that] assms by (auto simp: typed_def decodes_def)
qed

text \<open>
  C9: steps keep types. Whichever calls fail, a request, a received message, a delivery or a
  retry leads from a well-typed state to a well-typed one; and in such a state the status read
  from the cache is one of the five or not found, never an undecodable entry, and whatever
  message a queue hands over is a job. A row that says \<open>sent\<close> has its time of sending, and the
  attachments of a row carry its identifier.
\<close>

theorem steps_keep_types:
  assumes "typed w" and "sys_step E cfg w w'"
  shows "typed w'
    \<and> (x_kv E (ticks w') = None \<longrightarrow> fst (run_state (GetStatus_kv E i) w') = Inl ''status not found''
        \<or> (\<exists>c st. fst (run_state (GetStatus_kv E i) w') = Inr c \<and> msc_Status c = status_text st))
    \<and> (\<forall>d b. deliver q (broker w') = Some (d, b) \<longrightarrow> (\<exists>job. unmarshal_job (msg_Body (snd d)) = Some job))"
  using sys_step_typed [OF assms] typed_readers by blast

theorem steps_keep_types_witness:
  "\<exists>w' d b job. sys_step deployed_ext default_config sample_world w' \<and> typed w'
     \<and> deliver ''mail-queue'' (broker w') = Some (d, b) \<and> unmarshal_job (msg_Body (snd d)) = Some job"
proof -
  have "queue_of sample_broker q = []" for q by (auto simp: sample_broker_def queue_of_def)
  then have t: "typed sample_world"
    by (simp add: typed_def t_keys_unique_def typed_broker_def sample_broker_def)
  obtain w' ms where w: "sys_step deployed_ext default_config sample_world w'" "waiting w' ''mail-queue'' = [ms]"
    by (rule deployed_received)
  obtain d b where "deliver ''mail-queue'' (broker w') = Some (d, b)"
    using w(2) by (auto simp: deliver_def waiting_def queue_of_def split: option.splits list.splits)
  with steps_keep_types [OF t w(1)] w(1) show ?thesis by blast
qed

end
