(* ===== verification/Progress.thy ===== *)
theory Progress
  imports Crashes
begin

text \<open>
  Goroutines come to an end, whatever the others do in between: the calls a goroutine has left
  are counted down by each of its calls (\<open>calls_left\<close>), so that the calls of all of them together are
  bounded, and a goroutine that is not over can always make its next call.
\<close>

section \<open>Calls left\<close>

fun job_left :: "job_pc \<Rightarrow> nat" where
  "job_left Looking = 8" | "job_left Marking_cache = 7" | "job_left Marking_row = 6" | "job_left Sending = 5"
| "job_left Sent_row = 3" | "job_left Sent_cache = 2"
| "job_left (Failed_publish _) = 4" | "job_left (Failed_row _) = 3" | "job_left (Failed_cache _) = 2"
| "job_left Retry_row = 4" | "job_left Retry_cache = 3" | "job_left Retry_timer = 2"
| "job_left Settling = 1" | "job_left (Done _) = 1"

fun delivery_left :: "delivery_pc \<Rightarrow> nat" where
  "delivery_left Received = 11" | "delivery_left Returning = 1" | "delivery_left Counting = 10"
| "delivery_left Rejecting = 2" | "delivery_left (Working _ pc) = Suc (job_left pc)"
| "delivery_left (Uncounting _) = 1" | "delivery_left (Ended _) = 0"

fun calls_left :: "goro \<Rightarrow> nat" where
  "calls_left (Delivering _ pc) = delivery_left pc"
| "calls_left (Accepting _ _ Creating) = 3" | "calls_left (Accepting _ _ Publishing) = 2"
| "calls_left (Accepting _ _ (Noting_failed _)) = 1" | "calls_left (Accepting _ _ Noting_queued) = 1"
| "calls_left (Accepting _ _ _) = 0"
| "calls_left (Cancelling _ _ Finding) = 3" | "calls_left (Cancelling _ _ (Overwriting _)) = 2"
| "calls_left (Cancelling _ _ Noting) = 1" | "calls_left (Cancelling _ _ (Answered _)) = 0"

lemma job_call_left:
  assumes "run_state (job_call E c tag job pc) w = (pc', w')" and "\<not> job_over pc"
  shows "job_over pc' \<or> job_left pc' < job_left pc"
  using assms by (cases pc) (auto simp: job_over_def split: prod.splits sum.splits if_splits option.splits outcome.splits)

lemma delivery_call_left:
  assumes "run_state (delivery_call E c d pc) w = (pc', w')" and "\<not> delivery_over pc"
  shows "delivery_left pc' < delivery_left pc"
proof (cases pc)
  case (Working job p)
  then obtain p' where p': "run_state (job_call E c (fst d) job p) w = (p', w')"
    and pc': "pc' = (case p' of Done r \<Rightarrow> Uncounting r | _ \<Rightarrow> Working job p')"
    using assms(1) by (auto split: prod.splits)
  have "0 < job_left p" by (cases p) simp_all
  moreover have "job_over p' \<or> job_left p' < job_left p"
  proof (cases "job_over p")
    case True
    then have "p' = p" using p' by (simp add: working.over_idle)
    with True show ?thesis by simp
  next
    case False
    with p' show ?thesis by (rule job_call_left)
  qed
  ultimately show ?thesis using Working pc' by (cases p') (simp_all add: job_over_def)
qed (use assms in \<open>auto simp: delivery_over_def mq_Nack_def split: prod.splits if_splits option.splits\<close>)

lemma goro_call_left:
  assumes "run_state (goro_call E cfg g) w = (g', w')" and "\<not> goro_over g"
  shows "calls_left g' < calls_left g"
proof (cases g)
  case (Delivering d pc)
  with assms show ?thesis by (auto split: prod.splits dest: delivery_call_left)
next
  case (Accepting m job pc)
  with assms show ?thesis by (cases pc) (auto split: prod.splits sum.splits option.splits)
next
  case (Cancelling ctx i pc)
  with assms show ?thesis
    by (cases pc) (auto simp: cancel_over_def split: prod.splits sum.splits if_splits)
qed

section \<open>The machine without new requests\<close>

text \<open>A goroutine that is not over makes its next call.\<close>

inductive busy_step :: "ext \<Rightarrow> config \<Rightarrow> conc \<Rightarrow> conc \<Rightarrow> bool" for E cfg where
  busy: "k < length gs \<Longrightarrow> \<not> goro_over (gs ! k) \<Longrightarrow> run_state (goro_call E cfg (gs ! k)) w = (g, w') \<Longrightarrow>
    busy_step E cfg (w, gs) (w', gs[k := g])"

inductive_cases busy_stepE: "busy_step E cfg (w, gs) c"

definition all_left :: "goro list \<Rightarrow> nat" where
  "all_left gs = sum_list (map calls_left gs)"

lemma sum_list_less: "k < length xs \<Longrightarrow> x < xs ! k \<Longrightarrow> sum_list (xs[k := x]) < sum_list xs" for x :: nat
  by (induction xs arbitrary: k) (auto split: nat.splits)

lemma busy_step_conc: "busy_step E cfg c c' \<Longrightarrow> conc_step E cfg c c'"
  by (induction rule: busy_step.induct) (rule conc_step.run)

lemma busy_step_left: "busy_step E cfg (w, gs) (w', gs') \<Longrightarrow> all_left gs' < all_left gs"
  by (auto elim!: busy_stepE simp: all_left_def map_update intro!: sum_list_less goro_call_left)

lemma busy_run_left: "(busy_step E cfg ^^ n) (w, gs) (w', gs') \<Longrightarrow> all_left gs' + n \<le> all_left gs"
proof (induction n arbitrary: w' gs')
  case (Suc n)
  then obtain v hs where "(busy_step E cfg ^^ n) (w, gs) (v, hs)" "busy_step E cfg (v, hs) (w', gs')" by auto
  with Suc.IH [of v hs] busy_step_left [of E cfg v hs w' gs'] show ?case by simp
qed simp

lemma busy_or_over: "list_all goro_over gs \<or> (\<exists>c. busy_step E cfg (w, gs) c)"
proof (rule disjCI)
  assume "\<not> (\<exists>c. busy_step E cfg (w, gs) c)"
  then have "\<not> (k < length gs \<and> \<not> goro_over (gs ! k))" for k
    by (metis busy surj_pair)
  then show "list_all goro_over gs" by (auto simp: list_all_length)
qed

lemma busy_run_ends: "\<exists>n w' gs'. (busy_step E cfg ^^ n) (w, gs) (w', gs') \<and> list_all goro_over gs'"
proof (induction "all_left gs" arbitrary: w gs rule: less_induct)
  case less
  show ?case
  proof (cases "list_all goro_over gs")
    case True
    then show ?thesis by (intro exI [of _ 0] exI [of _ w] exI [of _ gs]) simp
  next
    case False
    then obtain v hs where s: "busy_step E cfg (w, gs) (v, hs)" using busy_or_over [of gs E cfg w] by fastforce
    from less [OF busy_step_left [OF s], of v] obtain n w' gs'
      where "(busy_step E cfg ^^ n) (v, hs) (w', gs')" "list_all goro_over gs'" by blast
    with s have "(busy_step E cfg ^^ Suc n) (w, gs) (w', gs')" by (blast intro: relpowp_Suc_I2)
    with \<open>list_all goro_over gs'\<close> show ?thesis by blast
  qed
qed

lemma left_bound: "calls_left g \<le> delivery_calls"
proof (cases g)
  case (Delivering d pc)
  have "job_left p \<le> 10" for p by (cases p) simp_all
  then show ?thesis using Delivering by (cases pc) (simp_all add: delivery_calls_def)
next
  case (Accepting m job pc)
  then show ?thesis by (cases pc) (simp_all add: delivery_calls_def)
next
  case (Cancelling ctx i pc)
  then show ?thesis by (cases pc) (simp_all add: delivery_calls_def)
qed

lemma all_left_bound: "all_left gs \<le> delivery_calls * length gs"
  using sum_list_mono [of gs calls_left "\<lambda>_. delivery_calls"] left_bound
  by (simp add: all_left_def sum_list_triv mult.commute)

lemma all_over_carriers: "list_all goro_over gs \<Longrightarrow> carriers E cfg (w, gs) i = pending E cfg w i"
  using over_holds_nothing [of _ E i] by (simp add: list_all_iff)

section \<open>Properties\<close>

text \<open>
  C15: requests and deliveries end. Whatever fails, goroutines that are running make, all
  together and in any order, at most eleven calls each; until they are over one of them can go
  on, and when all are, with services that answered, every queued or processing mail has its one
  job in the mail queue or in a timer, and no other mail has one but a cancelled mail.
\<close>

theorem goroutines_end:
  assumes "(busy_step E cfg ^^ n) (w, gs) (w', gs')"
  shows "n \<le> delivery_calls * length gs
    \<and> (\<exists>m w'' gs''. (busy_step E cfg ^^ m) (w', gs') (w'', gs'') \<and> list_all goro_over gs'')
    \<and> (deployed E cfg \<and> conc_reach E cfg (w, gs) \<and> (\<nexists>c. busy_step E cfg (w', gs') c)
        \<longrightarrow> (\<forall>i. pending_ok (row_status i w') (pending E cfg w' i)))"
proof (intro conjI impI allI)
  show "n \<le> delivery_calls * length gs"
    using busy_run_left [OF assms] all_left_bound [of gs] by simp
  show "\<exists>m w'' gs''. (busy_step E cfg ^^ m) (w', gs') (w'', gs'') \<and> list_all goro_over gs''"
    by (rule busy_run_ends)
  fix i
  assume a: "deployed E cfg \<and> conc_reach E cfg (w, gs) \<and> (\<nexists>c. busy_step E cfg (w', gs') c)"
  have "(conc_step E cfg)\<^sup>*\<^sup>* (w, gs) (w', gs')"
    using relpowp_imp_rtranclp [OF assms] mono_rtranclp [of "busy_step E cfg" "conc_step E cfg"] busy_step_conc by blast
  with a have "pending_ok (row_status i w') (carriers E cfg (w', gs') i)"
    using conc_books [of E cfg "(w', gs')" i] conc_reach_steps [of E cfg "(w, gs)" "(w', gs')"] by (simp del: carriers.simps)
  moreover have "list_all goro_over gs'" using a busy_or_over by blast
  ultimately show "pending_ok (row_status i w') (pending E cfg w' i)" by (metis all_over_carriers)
qed

theorem goroutines_end_witness:
  "\<exists>w n w' gs'. row_status ''m1'' w = Some MailStatusQueued \<and> waiting w ''mail-queue'' = []
     \<and> (busy_step deployed_ext default_config ^^ n) (w, [Accepting sample_row between_job Publishing]) (w', gs')
     \<and> n \<le> 11 \<and> list_all goro_over gs' \<and> pending_ok (row_status ''m1'' w') (pending deployed_ext default_config w' ''m1'')"
proof -
  let ?gs = "[Accepting sample_row between_job Publishing]"
  obtain w where r: "conc_reach deployed_ext default_config (w, ?gs)"
    and w: "row_status ''m1'' w = Some MailStatusQueued" "waiting w ''mail-queue'' = []" by (rule between)
  have "(busy_step deployed_ext default_config ^^ 0) (w, ?gs) (w, ?gs)" by simp
  from goroutines_end [OF this] obtain n w' gs' where b: "(busy_step deployed_ext default_config ^^ n) (w, ?gs) (w', gs')"
    and over: "list_all goro_over gs'" by blast
  have "\<nexists>c. busy_step deployed_ext default_config (w', gs') c"
    using over by (auto elim!: busy_stepE simp: list_all_length)
  with goroutines_end [OF b] deployed_sample r
  have "n \<le> 11" "pending_ok (row_status ''m1'' w') (pending deployed_ext default_config w' ''m1'')"
    by (simp_all add: delivery_calls_def)
  with w b over show ?thesis by blast
qed

end
