(* ===== verification/Spec2Isabelle.thy ===== *)
theory Spec2Isabelle
  imports Shutdown Typed Progress
begin

text \<open>
  A mail proxy, modelled and verified. Three processes share a PostgreSQL database, a KeyDB
  cache, a RabbitMQ broker and a directory of attachments:
  \<^item> \<open>cmd/api\<close>: an HTTP API that accepts mails (one or a batch), answers status and
    history, cancels, and manages tokens and sender settings;
  \<^item> \<open>cmd/smtp-receiver\<close>: an SMTP server that turns each message it accepts into such a mail;
  \<^item> \<open>cmd/worker\<close>: the consumer of the mail queue, which sends each mail through Microsoft
    Graph or SendGrid, and retries what fails.

  The API and the receiver insert a row with status \<open>queued\<close> and publish a job; the worker
  takes the job, moves the row to \<open>processing\<close> and then to \<open>sent\<close> or \<open>failed\<close>, or keeps the job
  in a timer for its next attempt.

  \<^bold>\<open>How code is translated.\<close> An operation is a function in the state monad of
  \<open>HOL-Library.State_Monad\<close> over the record \<open>world\<close> (theory \<open>World\<close>): tables, cache,
  broker, files, the timers of pending retries, the OAuth token, the worker's counters, the
  log of requests that left, and the number of external calls so far. An error is the left
  side of a sum or \<open>Some\<close> text, a panic the outcome \<open>Panics\<close>. What the repository does not
  define is a field of the record \<open>ext\<close>: libraries (UUID, JWT, MIME, AES block cipher and
  GHASH, hashing, the clock) and, for each external call by its number, whether it fails and
  how. In which order the database returns rows of equal age is free in each query. A theorem
  that holds for every \<open>ext\<close> covers every pattern of failures; \<open>up E\<close> says that database,
  cache and broker answer. Go's \<open>int\<close> and \<open>int64\<close> are 64-bit words, strings
  are byte strings, and UTF-8 repair by \<open>encoding/json\<close> is modelled.

  \<^bold>\<open>Theories.\<close>
  \<^item> \<open>Prelude\<close>: names of types, loops with early return, frames of operations (\<open>within\<close>, the
    locale \<open>frame_rel\<close>, the collection \<open>frames\<close>). A frame or an invariant of a handler is
    proved by introduction rules from its primitives.
  \<^item> \<open>GoStrings\<close>, \<open>GoBase64\<close>, \<open>GoPath\<close>, \<open>Json\<close>: what is used of \<open>strings\<close>, \<open>strconv\<close>,
    \<open>unicode/utf8\<close>, \<open>encoding/base64\<close>, \<open>path/filepath\<close> and \<open>encoding/json\<close>.
  \<^item> \<open>Models\<close> (\<open>internal/models\<close>): rows, messages and their JSON forms, with round trips.
  \<^item> \<open>Tables\<close>, \<open>Broker\<close>, \<open>World\<close>: database tables with their contract (locale \<open>row_store\<close>,
    interpreted for mails, tokens and settings), AMQP queues, exchanges and deliveries, and
    the primitives of the state.
  \<^item> \<open>Config\<close> (\<open>internal/config\<close>), \<open>Sample\<close> (one concrete environment for the witnesses).
  \<^item> \<open>Queue\<close> (\<open>queue_service.go\<close>), \<open>KeyDB\<close> (\<open>keydb_service.go\<close>), \<open>OAuth\<close>
    (\<open>pkg/microsoft/oauth.go\<close>), \<open>Encryption\<close> (\<open>encryption.go\<close>), \<open>SenderConfig\<close>
    (\<open>email_sender_config_service.go\<close>), \<open>MailSender\<close> (\<open>smtp_service.go\<close>,
    \<open>sendgrid_service.go\<close>, \<open>mail_router.go\<close>; the contract of a mail service is the locale
    \<open>mail_sender\<close>, interpreted for both services and for the worker as it is wired).
  \<^item> \<open>Api\<close>, \<open>Auth\<close> (\<open>middlewares/auth.go\<close>, \<open>auth_handler.go\<close>, \<open>admin_token_service.go\<close>),
    \<open>Storage\<close> (where attachments go), \<open>MailHandler\<close> (\<open>mail_handler.go\<close>),
    \<open>SenderConfigHandler\<close> (\<open>sender_config_handler.go\<close>, \<open>health_handler.go\<close>), \<open>Routes\<close>
    (\<open>routes.go\<close>: an HTTP request from the route to the answer).
  \<^item> \<open>Worker\<close> (\<open>internal/worker/consumer.go\<close>), \<open>Smtp\<close> (\<open>internal/smtp\<close>).
  \<^item> \<open>System\<close>: the step relation of the three processes on the shared state, its reachable
    states and the invariant when the services answer. \<open>Faults\<close>: what is left of the invariant
    when any call may fail and the worker may die. \<open>Typed\<close>: well-typed states.
  \<^item> \<open>Calls\<close>: the handlers that change mails as goroutines, cut into their external calls
    (locale \<open>goroutine\<close>, interpreted for deliveries, jobs, accepting and cancelling).
    \<open>Interleave\<close>: the machine in which goroutines take turns after every call, and its
    abstraction to a status and a number of carriers for each mail. \<open>Crashes\<close>: the machine in
    which the worker or a request may end between any two calls; its proofs relate it to
    \<open>System\<close> (\<open>whole_steps_by_calls\<close>). \<open>Progress\<close>: the calls a goroutine has left.
  \<^item> \<open>Startup\<close>, \<open>Shutdown\<close>: the three \<open>main\<close> functions (\<open>cmd/\<close>) up to serving, and from the
    signal to the end, with \<open>internal/smtp/backend.go\<close> and \<open>server.go\<close>.

  \<^bold>\<open>What the lemmas show.\<close> \<open>System\<close>: no mail is lost and none is queued twice in any reachable
  state; the status of a mail follows an abstract machine and ascends in the order of statuses;
  unless it is told to stop the worker comes to an end, and then every mail is sent, failed or
  cancelled; after the signal to stop it may take and hand back deliveries without end; a race
  that overrides a cancellation. \<open>Faults\<close>: with
  failures a mail may be lost but is never queued twice. \<open>Typed\<close>: every step keeps rows, cache
  entries and messages readable. \<open>Calls\<close>: run without a pause the calls are the handler.
  \<open>Interleave\<close>: between any two calls of any goroutine a pending mail has exactly one
  carrier. \<open>Progress\<close>: goroutines end after a bounded number of calls, however they interleave.
  \<open>Crashes\<close>: what a crash in the middle of the work can lose (a retry timer, or a
  request between its row and its job) and what it doubles (from every state in which a mail was
  sent and not yet acknowledged, a crash can lead to its being sent again). \<open>Shutdown\<close>: the
  worker's count of active jobs, what its wait guarantees and the window it leaves for every
  delivery not yet counted; connections given back at the end.
  \<open>Worker\<close>: the ways in which a delivery ends, with and without failures of the services; the counts
  and delays of attempts and where the 64-bit delay overflows; what is lost with the process. \<open>MailHandler\<close>, \<open>Smtp\<close>: accepted means validated, stored and
  published, refused means nothing published; under which sender a message is stored after
  any list of SMTP commands; where attachments are written and with what content; paging, with
  the ages of mails distinct, and what goes wrong otherwise; when the receiver's loop returns. \<open>Auth\<close>, \<open>Routes\<close>: which requests pass, what each
  endpoint may change, revocation. \<open>Encryption\<close>, \<open>SenderConfig\<close>: round trips through
  AES-GCM and the table, uniqueness. \<open>MailSender\<close>, \<open>OAuth\<close>: which provider is contacted with
  what, how often, and when a token is fetched. \<open>Queue\<close>, \<open>KeyDB\<close>, \<open>Startup\<close>: topology,
  publishing, the life of a cached status, and that start-up in any order gives an initial
  state.

  \<^bold>\<open>Bounds and termination.\<close> The loop of \<open>parseMailData\<close> over MIME parts is a
  \<open>partial_function (option)\<close>; \<open>Data_returns\<close> says exactly when it ends. The attempts of a
  job are a function with a termination proof, and \<open>work_left\<close> bounds the worker's steps by
  them. A delivery takes at most \<open>delivery_calls\<close> (11) calls, accepting and cancelling three:
  two to begin, eight for a job (look, mark twice, send, and at most four to settle), one to end.
  The UTF-8 decoder runs on fuel equal to the length of its input, each step consuming at least
  one byte. Everything else is structural.

  \<^bold>\<open>Assumptions that properties name.\<close> \<open>deployed\<close>: the services answer, identifiers print as
  plain text that denotes them in SQL, and the mail queue is not the failed queue. For
  encryption: the sizes of the outputs of the block cipher and of GHASH. For tokens: what was
  signed with a secret is decoded and verified with it.

  \<^bold>\<open>Not modelled.\<close> In \<open>Interleave\<close> sending a mail is one call (nothing else reads what it
  writes but the token cache under its lock), and code that changes neither mails nor cache,
  broker and timers (tokens, settings, attachments) is one step that may do anything to its
  own part. The number of goroutines and the prefetch are not bounded there, so that it covers
  every \<open>WORKER_CONCURRENCY\<close>; memory is sequentially consistent between calls, although
  \<open>isShutdown\<close> is read without the mutex. In \<open>System\<close> messages handed over by RabbitMQ but not
  yet handled count as waiting. What crashes lose is stated for services that answer. Left out
  as calls of libraries: TCP and TLS, the HTTP server and path matching of
  Gin, the SMTP and MIME parsers, SQL beyond the statements the code issues, the connection
  pool, signals, log output (also the printing of the administrator's token), and the position
  numbers inside error texts of \<open>encoding/base64\<close> and \<open>encoding/json\<close>. Tests, scripts, SQL
  files and deployment files are not part of the model.
\<close>

end
